theory Spec2Isabelle
  imports Main "HOL-Library.Word"
begin

section \<open>Strings, tables and the header payload of Hooks.cpp\<close>

text \<open>
  A C string (\<open>const char *\<close>) is modelled by its contents, a \<open>string\<close> without the
  terminating NUL; a pointer that may be NULL is a \<open>string option\<close>. A \<open>std::string\<close> is a
  \<open>string\<close> as well, and \<open>c_str\<close> is what a reader of its \<open>.c_str()\<close> sees: the bytes up
  to the first NUL.
\<close>

definition NUL :: char where
  "NUL = CHR 0x00"

definition c_str :: "string \<Rightarrow> string" where
  "c_str s = takeWhile (\<lambda>c. c \<noteq> NUL) s"

text \<open>
  An \<open>apr_table_t\<close> is an array of entries in insertion order; key and value of an
  entry are \<open>char *\<close> and may be NULL (\<open>lookupName\<close> and \<open>sendHeaders\<close> test the key of
  an entry of \<open>headers_in\<close> against NULL).
\<close>

type_synonym apr_table_entry = "string option \<times> string option"

type_synonym apr_table = "apr_table_entry list"

text \<open>\<open>apr_table_addn\<close> appends one entry.\<close>

definition apr_table_addn :: "apr_table \<Rightarrow> string option \<Rightarrow> string option \<Rightarrow> apr_table" where
  "apr_table_addn t name val = t @ [(name, val)]"

text \<open>\<open>Hooks::addHeader\<close> (lines 405-409).\<close>

definition addHeader :: "apr_table \<Rightarrow> string option \<Rightarrow> string option \<Rightarrow> apr_table" where
  "addHeader t name val =
     (if name \<noteq> None \<and> val \<noteq> None then apr_table_addn t name val else t)"

text \<open>
  The loop of \<open>sendHeaders\<close> that fills the buffer (lines 468-473): key, NUL, value, NUL
  for every entry. \<open>buffer.append\<close> of a NULL pointer is undefined behaviour, the value
  \<open>None\<close> here.
\<close>

fun appendEntries :: "apr_table \<Rightarrow> string \<Rightarrow> string option" where
  "appendEntries [] buffer = Some buffer"
| "appendEntries ((Some k, Some v) # es) buffer =
     appendEntries es (buffer @ k @ [NUL] @ v @ [NUL])"
| "appendEntries ((_, _) # es) buffer = None"

text \<open>
  The buffer \<open>sendHeaders\<close> hands to \<open>session->sendHeaders\<close> for a table (lines 463-499):
  the entries, then the four bytes \<open>_ NUL _ NUL\<close>.
\<close>

definition headerBuffer :: "apr_table \<Rightarrow> string option" where
  "headerBuffer headers =
     (case appendEntries headers [] of
        None \<Rightarrow> None
      | Some buffer \<Rightarrow> Some (buffer @ [CHR ''_'', NUL, CHR ''_'', NUL]))"

text \<open>A sequence of (name, value) pairs as the entries of a table.\<close>

definition tableOf :: "(string \<times> string) list \<Rightarrow> apr_table" where
  "tableOf hs = map (\<lambda>(k, v). (Some k, Some v)) hs"

subsection \<open>The reference splitter\<close>

text \<open>All fields of a string between occurrences of a separator: n separators, n + 1 fields.\<close>

fun splitFields :: "char \<Rightarrow> string \<Rightarrow> string list" where
  "splitFields sep [] = [[]]"
| "splitFields sep (c # cs) =
     (if c = sep then [] # splitFields sep cs
      else (case splitFields sep cs of
              [] \<Rightarrow> [[c]]
            | f # fs \<Rightarrow> (c # f) # fs))"

text \<open>
  Modelled from the spec: the in-worker header deserializer is Ruby code of the request
  handler, which is not among the C++ sources. The spec calls it a reference
  splitter-on-NUL that expects an even count, and the comment in \<open>sendHeaders\<close> (lines
  475-498) gives it as \<open>Hash[*data.split("\0")]\<close>, where \<open>String#split\<close> drops trailing
  empty fields.
\<close>

definition split_nul :: "string \<Rightarrow> string list" where
  "split_nul s = rev (dropWhile (\<lambda>f. f = []) (rev (splitFields NUL s)))"

text \<open>\<open>Hash[*fields]\<close>: consecutive fields taken two at a time, in order.\<close>

fun pairUp :: "'a list \<Rightarrow> ('a \<times> 'a) list" where
  "pairUp (k # v # rest) = (k, v) # pairUp rest"
| "pairUp _ = []"

section \<open>Requests, configuration and the host\<close>

text \<open>
  The fields of Apache's \<open>request_rec\<close> that Hooks.cpp reads, with those of its
  \<open>server_rec\<close> and \<open>conn_rec\<close> (\<open>r->server->server_admin\<close>, \<open>r->server->timeout\<close>,
  \<open>r->connection->local_ip\<close>, \<open>r->connection->remote_ip\<close>,
  \<open>r->connection->remote_addr->port\<close>). \<open>uri\<close> is read with \<open>strlen\<close> unguarded, so it
  is a string; the pointers the code tests or hands to \<open>addHeader\<close> may be NULL.
\<close>

record request_rec =
  the_request :: "string option"
  protocol :: "string option"
  method_name :: "string option"
  method_number :: int
  uri :: string
  filename :: "string option"
  canonical_filename :: "string option"
  args :: "string option"
  user :: "string option"
  parsed_uri_path :: "string option"
  headers_in :: apr_table
  subprocess_env :: apr_table
  server_admin :: "string option"
  server_timeout :: int
  local_ip :: "string option"
  remote_ip :: "string option"
  remote_port :: "16 word"

text \<open>
  \<open>DirConfig\<close> and \<open>ServerConfig\<close> are declared in Configuration.h, which is not among
  the sources; these are the fields and enumerators Hooks.cpp uses. \<open>railsBaseURIs\<close> and
  \<open>rackBaseURIs\<close> are \<open>set<string>\<close>: the lists here are their elements in iteration
  order.
\<close>

datatype Threeway = ENABLED | DISABLED | UNSET

datatype SpawnMethod = SM_UNSET | SM_SMART | SM_CONSERVATIVE

record DirConfig =
  railsBaseURIs :: "string list"
  rackBaseURIs :: "string list"
  autoDetectRails :: Threeway
  autoDetectRack :: Threeway
  autoDetectWSGI :: Threeway
  allowModRewrite :: Threeway
  railsEnv :: "string option"
  rackEnv :: "string option"
  spawnMethod :: SpawnMethod

record ServerConfig =
  defaultUser :: "string option"

text \<open>
  Exceptions as values. \<open>FileSystemException\<close> carries \<open>what()\<close>, \<open>code()\<close> and
  \<open>filename()\<close>; \<open>SpawnException\<close> carries \<open>what()\<close> and its error page when
  \<open>hasErrorPage()\<close>. \<open>std_exception\<close> is any other class derived from
  \<open>std::exception\<close>, \<open>unknown_exception\<close> a thrown object that is not.
\<close>

datatype exception =
    FileSystemException string int string
  | SystemException string int
  | IOException string
  | SpawnException string "string option"
  | BusyException string
  | thread_interrupted
  | std_exception string
  | unknown_exception

text \<open>
  What a call does: return a value, throw, or run into undefined behaviour (a NULL
  pointer handed to \<open>atol\<close>, \<open>strlen\<close> or \<open>std::string\<close>).
\<close>

datatype 'a outcome = Returns 'a | Throws exception | Undefined

record Session =
  pid :: nat
  stream :: int

text \<open>
  The calls Hooks.cpp makes on the response, the temporary file, the pool and the
  session, in the order they happen.
\<close>

datatype event =
    SetContentType string
  | Rputs string
  | CustomResponse int string
  | TempFileCreate
  | TempFileWrite string
  | TempFileReset
  | PoolGet string bool string string string string
  | SetReaderTimeout int
  | SetWriterTimeout int
  | SessionSendHeaders string
  | SessionSendBodyBlock string
  | ShutdownWriter
  | RelayResponse int
  | RegisterCleanup
  | DiscardStream

text \<open>
  The host: what the functions of Apache, APR, libc and Utils.h that Hooks.cpp calls
  answer for the request at hand. None of them is among the sources, so each is a
  parameter. \<open>fileExists\<close>, the \<open>verify...Dir\<close> probes and \<open>canonicalizePath\<close> may throw.
  \<open>client_blocks\<close> are the data of the successive reads of \<open>ap_get_client_block\<close> that
  return a positive length, \<open>client_error\<close> says whether the read after them returns -1
  instead of 0. \<open>TempFile_new\<close> is the exception the constructor of \<open>TempFile\<close> throws, if
  any. \<open>fwrite h pos n\<close> is the count \<open>fwrite\<close> returns when it is asked to write \<open>n\<close>
  bytes to the temporary file at position \<open>pos\<close> (it has then written that many of them,
  never more than \<open>n\<close>), and \<open>fwrite_errno\<close> the value of \<open>errno\<close> when that count is
  0. \<open>pool_get\<close> is the answer of \<open>applicationPool->get\<close>, and \<open>session_fault\<close> the
  exception a call on the session throws, if any.
\<close>

record host =
  fileExists :: "string \<Rightarrow> bool outcome"
  verifyRailsDir :: "string \<Rightarrow> bool outcome"
  verifyRackDir :: "string \<Rightarrow> bool outcome"
  verifyWSGIDir :: "string \<Rightarrow> bool outcome"
  canonicalizePath :: "string \<Rightarrow> string outcome"
  ap_document_root :: string
  ap_get_server_version :: "string option"
  ap_get_server_name :: "string option"
  ap_get_server_port :: "16 word"
  ap_escape_html :: "string \<Rightarrow> string"
  ap_setup_client_block :: int
  ap_should_client_block :: bool
  client_blocks :: "string list"
  client_error :: bool
  atol :: "string \<Rightarrow> int"
  TempFile_new :: "exception option"
  fwrite :: "nat \<Rightarrow> nat \<Rightarrow> nat"
  fwrite_errno :: int
  pool_get :: "string \<Rightarrow> bool \<Rightarrow> string \<Rightarrow> string \<Rightarrow> string \<Rightarrow> string \<Rightarrow> Session outcome"
  session_fault :: "event \<Rightarrow> exception option"

subsection \<open>Constants of httpd.h, errno.h and Hooks.cpp\<close>

definition OK :: int where
  "OK = 0"

definition DECLINED :: int where
  "DECLINED = - 1"

definition HTTP_INTERNAL_SERVER_ERROR :: int where
  "HTTP_INTERNAL_SERVER_ERROR = 500"

definition HTTP_SERVICE_UNAVAILABLE :: int where
  "HTTP_SERVICE_UNAVAILABLE = 503"

definition M_GET :: int where
  "M_GET = 0"

definition EPERM :: int where
  "EPERM = 1"

text \<open>Line 64. In \<open>x > UPLOAD_ACCELERATION_THRESHOLD\<close> the product binds tighter than the comparison.\<close>

definition UPLOAD_ACCELERATION_THRESHOLD :: int where
  "UPLOAD_ACCELERATION_THRESHOLD = 1024 * 8"

text \<open>The size of the buffers \<open>char buf[1024 * 32]\<close>.\<close>

definition BUF_SIZE :: nat where
  "BUF_SIZE = 1024 * 32"

subsection \<open>Characters and strings of the C library, in the C locale\<close>

definition apr_isspace :: "char \<Rightarrow> bool" where
  "apr_isspace c = (c = CHR 0x20 \<or> c = CHR 0x09 \<or> c = CHR 0x0A \<or> c = CHR 0x0B
                    \<or> c = CHR 0x0C \<or> c = CHR 0x0D)"

definition apr_toupper :: "char \<Rightarrow> char" where
  "apr_toupper c =
     (let n = (of_char c :: nat) in if 97 \<le> n \<and> n \<le> 122 then char_of (n - 32) else c)"

definition apr_tolower :: "char \<Rightarrow> char" where
  "apr_tolower c =
     (let n = (of_char c :: nat) in if 65 \<le> n \<and> n \<le> 90 then char_of (n + 32) else c)"

text \<open>\<open>strcasecmp(a, b) == 0\<close>.\<close>

definition strcasecmp_eq :: "string \<Rightarrow> string \<Rightarrow> bool" where
  "strcasecmp_eq a b = (map apr_tolower a = map apr_tolower b)"

text \<open>\<open>memcmp(a, b, n) == 0\<close>, for n bytes that both hold.\<close>

definition memcmp_eq :: "string \<Rightarrow> string \<Rightarrow> nat \<Rightarrow> bool" where
  "memcmp_eq a b n = (take n a = take n b)"

text \<open>\<open>apr_psprintf\<close> with \<open>%u\<close> or \<open>%d\<close> of a port number: its decimal digits.\<close>

fun decimal :: "nat \<Rightarrow> string" where
  "decimal n =
     (if n < 10 then [char_of (48 + n)]
      else decimal (n div 10) @ [char_of (48 + n mod 10)])"

declare decimal.simps [simp del]

text \<open>Integer division of C, which truncates towards zero.\<close>

definition c_div :: "int \<Rightarrow> int \<Rightarrow> int" where
  "c_div a b = sgn a * sgn b * (\<bar>a\<bar> div \<bar>b\<bar>)"

section \<open>DirectoryMapper\<close>

datatype ApplicationType = NONE | RAILS | RACK | WSGI

text \<open>
  The mutable members of the class; \<open>config\<close> and \<open>r\<close> are passed to each method. The
  constructor (lines 111-117) gives \<open>newDirectoryMapper\<close>.
\<close>

record DirectoryMapper =
  baseURIKnown :: bool
  baseURI :: "string option"
  appType :: ApplicationType

definition newDirectoryMapper :: DirectoryMapper where
  "newDirectoryMapper = \<lparr>baseURIKnown = False, baseURI = None, appType = NONE\<rparr>"

definition shouldAutoDetectRails :: "DirConfig \<Rightarrow> bool" where
  "shouldAutoDetectRails config =
     (autoDetectRails config = ENABLED \<or> autoDetectRails config = UNSET)"

definition shouldAutoDetectRack :: "DirConfig \<Rightarrow> bool" where
  "shouldAutoDetectRack config =
     (autoDetectRack config = ENABLED \<or> autoDetectRack config = UNSET)"

definition shouldAutoDetectWSGI :: "DirConfig \<Rightarrow> bool" where
  "shouldAutoDetectWSGI config =
     (autoDetectWSGI config = ENABLED \<or> autoDetectWSGI config = UNSET)"

text \<open>
  The two loops of \<open>getBaseURI\<close> (lines 148-160 and 162-174) have the same body up to the
  application type they store: the first base of the set, in iteration order, that passes
  the test of lines 150-153.
\<close>

fun firstBaseURI :: "string \<Rightarrow> string list \<Rightarrow> string option" where
  "firstBaseURI u [] = None"
| "firstBaseURI u (base # rest) =
     (if base = ''/''
         \<or> (length u = length base \<and> memcmp_eq u base (length u))
         \<or> (length u > length base \<and> memcmp_eq u base (length base)
              \<and> u ! length base = CHR ''/'')
      then Some base
      else firstBaseURI u rest)"

text \<open>
  Lines 176-193: the probes of the document root, each made only when its detection is
  on and no earlier probe succeeded. \<open>NONE\<close> stands for no probe succeeding.
\<close>

definition autoDetect :: "host \<Rightarrow> DirConfig \<Rightarrow> ApplicationType outcome" where
  "autoDetect h config =
     (case (if shouldAutoDetectRails config then verifyRailsDir h (ap_document_root h)
            else Returns False) of
        Throws e \<Rightarrow> Throws e
      | Undefined \<Rightarrow> Undefined
      | Returns True \<Rightarrow> Returns RAILS
      | Returns False \<Rightarrow>
          (case (if shouldAutoDetectRack config then verifyRackDir h (ap_document_root h)
                 else Returns False) of
             Throws e \<Rightarrow> Throws e
           | Undefined \<Rightarrow> Undefined
           | Returns True \<Rightarrow> Returns RACK
           | Returns False \<Rightarrow>
               (case (if shouldAutoDetectWSGI config then verifyWSGIDir h (ap_document_root h)
                      else Returns False) of
                  Throws e \<Rightarrow> Throws e
                | Undefined \<Rightarrow> Undefined
                | Returns True \<Rightarrow> Returns WSGI
                | Returns False \<Rightarrow> Returns NONE)))"

text \<open>
  \<open>DirectoryMapper::getBaseURI\<close> (lines 134-197): the value returned and the mapper
  after the call. An exception leaves the mapper as it was.
\<close>

definition getBaseURI ::
  "host \<Rightarrow> DirConfig \<Rightarrow> request_rec \<Rightarrow> DirectoryMapper \<Rightarrow> string option outcome \<times> DirectoryMapper" where
  "getBaseURI h config r m =
     (if baseURIKnown m then (Returns (baseURI m), m)
      else if length (uri r) = 0 \<or> hd (uri r) \<noteq> CHR ''/''
      then (Returns None, m\<lparr>baseURIKnown := True\<rparr>)
      else
        (case firstBaseURI (uri r) (railsBaseURIs config) of
           Some base \<Rightarrow>
             (Returns (Some (c_str base)),
              m\<lparr>baseURIKnown := True, baseURI := Some (c_str base), appType := RAILS\<rparr>)
         | None \<Rightarrow>
             (case firstBaseURI (uri r) (rackBaseURIs config) of
                Some base \<Rightarrow>
                  (Returns (Some (c_str base)),
                   m\<lparr>baseURIKnown := True, baseURI := Some (c_str base), appType := RACK\<rparr>)
              | None \<Rightarrow>
                  (case autoDetect h config of
                     Throws e \<Rightarrow> (Throws e, m)
                   | Undefined \<Rightarrow> (Undefined, m)
                   | Returns NONE \<Rightarrow> (Returns None, m\<lparr>baseURIKnown := True\<rparr>)
                   | Returns t \<Rightarrow>
                       (Returns (Some ''/''),
                        m\<lparr>baseURIKnown := True, baseURI := Some ''/'', appType := t\<rparr>)))))"

text \<open>\<open>DirectoryMapper::getPublicDirectory\<close> (lines 208-232).\<close>

definition getPublicDirectory ::
  "host \<Rightarrow> DirConfig \<Rightarrow> request_rec \<Rightarrow> DirectoryMapper \<Rightarrow> string outcome \<times> DirectoryMapper" where
  "getPublicDirectory h config r m =
     (case (if \<not> baseURIKnown m then getBaseURI h config r m else (Returns None, m)) of
        (Throws e, m') \<Rightarrow> (Throws e, m')
      | (Undefined, m') \<Rightarrow> (Undefined, m')
      | (Returns _, m') \<Rightarrow>
          (case baseURI m' of
             None \<Rightarrow> (Returns [], m')
           | Some base \<Rightarrow>
               (let docRoot = ap_document_root h; len = length docRoot in
                if len > 0 then
                  (let path = (if docRoot ! (len - 1) = CHR ''/'' then take (len - 1) docRoot
                               else take len docRoot)
                   in (Returns (if base \<noteq> ''/'' then path @ base else path), m'))
                else (Returns [], m'))))"

text \<open>\<open>DirectoryMapper::getApplicationType\<close> (lines 239-244).\<close>

definition getApplicationType ::
  "host \<Rightarrow> DirConfig \<Rightarrow> request_rec \<Rightarrow> DirectoryMapper \<Rightarrow> ApplicationType outcome \<times> DirectoryMapper" where
  "getApplicationType h config r m =
     (case (if \<not> baseURIKnown m then getBaseURI h config r m else (Returns None, m)) of
        (Throws e, m') \<Rightarrow> (Throws e, m')
      | (Undefined, m') \<Rightarrow> (Undefined, m')
      | (Returns _, m') \<Rightarrow> (Returns (appType m'), m'))"

text \<open>\<open>DirectoryMapper::getApplicationTypeString\<close> (lines 252-266); \<open>None\<close> is NULL.\<close>

definition getApplicationTypeString ::
  "host \<Rightarrow> DirConfig \<Rightarrow> request_rec \<Rightarrow> DirectoryMapper \<Rightarrow> string option outcome \<times> DirectoryMapper" where
  "getApplicationTypeString h config r m =
     (case (if \<not> baseURIKnown m then getBaseURI h config r m else (Returns None, m)) of
        (Throws e, m') \<Rightarrow> (Throws e, m')
      | (Undefined, m') \<Rightarrow> (Undefined, m')
      | (Returns _, m') \<Rightarrow>
          (Returns (case appType m' of
                      RAILS \<Rightarrow> Some ''rails''
                    | RACK \<Rightarrow> Some ''rack''
                    | WSGI \<Rightarrow> Some ''wsgi''
                    | NONE \<Rightarrow> None), m'))"

section \<open>Hooks: the header payload\<close>

text \<open>\<open>Hooks::http2env\<close> (lines 340-353).\<close>

definition http2env :: "string \<Rightarrow> string" where
  "http2env name =
     ''HTTP_'' @ map (\<lambda>c. if c = CHR ''-'' then CHR ''_'' else apr_toupper c) name"

text \<open>\<open>Hooks::lookupName\<close> (lines 355-369), \<open>lookupHeader\<close> and \<open>lookupEnv\<close>.\<close>

fun lookupName :: "apr_table \<Rightarrow> string \<Rightarrow> string option" where
  "lookupName [] name = None"
| "lookupName ((None, v) # t) name = lookupName t name"
| "lookupName ((Some k, v) # t) name =
     (if strcasecmp_eq k name then v else lookupName t name)"

definition lookupHeader :: "request_rec \<Rightarrow> string \<Rightarrow> string option" where
  "lookupHeader r name = lookupName (headers_in r) name"

definition lookupEnv :: "request_rec \<Rightarrow> string \<Rightarrow> string option" where
  "lookupEnv r name = lookupName (subprocess_env r) name"

text \<open>
  \<open>Hooks::originalURI\<close> (lines 381-403): the second word of the request line; the empty
  string when there is no request line.
\<close>

definition originalURI :: "request_rec \<Rightarrow> string" where
  "originalURI r =
     (case the_request r of
        None \<Rightarrow> []
      | Some line \<Rightarrow>
          takeWhile (\<lambda>c. \<not> apr_isspace c)
            (dropWhile apr_isspace (dropWhile (\<lambda>c. \<not> apr_isspace c) line)))"

text \<open>The standard CGI variables of \<open>sendHeaders\<close> (lines 418-437), in order.\<close>

definition standardVariables :: "host \<Rightarrow> request_rec \<Rightarrow> string \<Rightarrow> apr_table" where
  "standardVariables h r base =
     (let headers = [];
          headers = addHeader headers (Some ''SERVER_SOFTWARE'') (ap_get_server_version h);
          headers = addHeader headers (Some ''SERVER_PROTOCOL'') (protocol r);
          headers = addHeader headers (Some ''SERVER_NAME'') (ap_get_server_name h);
          headers = addHeader headers (Some ''SERVER_ADMIN'') (server_admin r);
          headers = addHeader headers (Some ''SERVER_ADDR'') (local_ip r);
          headers = addHeader headers (Some ''SERVER_PORT'')
                      (Some (decimal (unat (ap_get_server_port h))));
          headers = addHeader headers (Some ''REMOTE_ADDR'') (remote_ip r);
          headers = addHeader headers (Some ''REMOTE_PORT'') (Some (decimal (unat (remote_port r))));
          headers = addHeader headers (Some ''REMOTE_USER'') (user r);
          headers = addHeader headers (Some ''REQUEST_METHOD'') (method_name r);
          headers = addHeader headers (Some ''REQUEST_URI'') (Some (originalURI r));
          headers = addHeader headers (Some ''QUERY_STRING'')
                      (case args r of Some a \<Rightarrow> Some a | None \<Rightarrow> Some []);
          headers = (if base \<noteq> ''/'' then addHeader headers (Some ''SCRIPT_NAME'') (Some base)
                     else headers);
          headers = addHeader headers (Some ''HTTPS'') (lookupEnv r ''HTTPS'');
          headers = addHeader headers (Some ''CONTENT_TYPE'') (lookupHeader r ''Content-type'');
          headers = addHeader headers (Some ''DOCUMENT_ROOT'') (Some (ap_document_root h));
          headers = addHeader headers (Some ''PATH_INFO'') (parsed_uri_path r)
      in headers)"

text \<open>The loop over \<open>r->headers_in\<close> (lines 444-450).\<close>

fun addHttpHeaders :: "apr_table \<Rightarrow> apr_table \<Rightarrow> apr_table" where
  "addHttpHeaders [] headers = headers"
| "addHttpHeaders ((Some k, v) # hdrs) headers =
     addHttpHeaders hdrs (addHeader headers (Some (http2env k)) v)"
| "addHttpHeaders ((None, v) # hdrs) headers = addHttpHeaders hdrs headers"

text \<open>The loop over \<open>r->subprocess_env\<close> (lines 456-460).\<close>

fun addEnvironment :: "apr_table \<Rightarrow> apr_table \<Rightarrow> apr_table" where
  "addEnvironment [] headers = headers"
| "addEnvironment ((k, v) # env) headers = addEnvironment env (addHeader headers k v)"

text \<open>The table \<open>headers\<close> of \<open>sendHeaders\<close> when the buffer is built (line 465).\<close>

definition headersTable :: "host \<Rightarrow> request_rec \<Rightarrow> string \<Rightarrow> apr_table" where
  "headersTable h r base =
     addEnvironment (subprocess_env r)
       (addHttpHeaders (headers_in r) (standardVariables h r base))"

text \<open>
  \<open>Hooks::sendHeaders\<close> (lines 411-503): the buffer handed to \<open>session->sendHeaders\<close>. The
  failure of \<open>apr_table_make\<close> (out of memory) is not modelled.
\<close>

definition sendHeaders :: "host \<Rightarrow> request_rec \<Rightarrow> string \<Rightarrow> string option" where
  "sendHeaders h r base = headerBuffer (headersTable h r base)"

section \<open>Hooks: handling a request\<close>

text \<open>
  A call that has effects returns its outcome with the state after it: the events so
  far, or the mapper. \<open>andThen\<close> runs the next call when the first returned, and lets an
  exception or undefined behaviour pass.
\<close>

definition andThen ::
  "'a outcome \<times> 's \<Rightarrow> ('a \<Rightarrow> 's \<Rightarrow> 'b outcome \<times> 's) \<Rightarrow> 'b outcome \<times> 's" where
  "andThen m f =
     (case m of
        (Returns a, s) \<Rightarrow> f a s
      | (Throws e, s) \<Rightarrow> (Throws e, s)
      | (Undefined, s) \<Rightarrow> (Undefined, s))"

text \<open>\<open>Hooks::reportDocumentRootDeterminationError\<close> (lines 308-313).\<close>

definition reportDocumentRootDeterminationError :: "event list \<Rightarrow> int outcome \<times> event list" where
  "reportDocumentRootDeterminationError tr =
     (Returns OK,
      tr @ [SetContentType ''text/html; charset=UTF-8'',
            Rputs ''<h1>Passenger error #1</h1>\<newline>'',
            Rputs ''Cannot determine the document root for the current request.''])"

text \<open>
  \<open>Hooks::reportFileSystemError\<close> (lines 315-329), for an exception with the given
  \<open>what()\<close>, \<open>code()\<close> and \<open>filename()\<close>.
\<close>

definition reportFileSystemError ::
  "host \<Rightarrow> string \<Rightarrow> int \<Rightarrow> string \<Rightarrow> event list \<Rightarrow> int outcome \<times> event list" where
  "reportFileSystemError h what code fname tr =
     (Returns OK,
      tr @ [SetContentType ''text/html; charset=UTF-8'',
            Rputs ''<h1>Passenger error #2</h1>\<newline>'',
            Rputs (''An error occurred while trying to access '' @ [CHR 0x27]),
            Rputs (ap_escape_html h (c_str fname)),
            Rputs (CHR 0x27 # '': ''),
            Rputs (ap_escape_html h what)]
         @ (if code = EPERM
            then [Rputs ''<p>'',
                  Rputs ''Apache doesn't have read permissions to that file. '',
                  Rputs ''Please fix the relevant file permissions.'',
                  Rputs ''</p>'']
            else []))"

text \<open>\<open>Hooks::reportBusyException\<close> (lines 331-335).\<close>

definition reportBusyException :: "event list \<Rightarrow> int outcome \<times> event list" where
  "reportBusyException tr =
     (Returns HTTP_SERVICE_UNAVAILABLE,
      tr @ [CustomResponse HTTP_SERVICE_UNAVAILABLE
              ''This website is too busy right now.  Please try again later.''])"

text \<open>The body of a response: what \<open>ap_rputs\<close> wrote, in order.\<close>

fun responseBody :: "event list \<Rightarrow> string" where
  "responseBody [] = []"
| "responseBody (Rputs s # tr) = s @ responseBody tr"
| "responseBody (_ # tr) = responseBody tr"

text \<open>The content type of a response: the last one \<open>ap_set_content_type\<close> set, if any.\<close>

fun responseContentType :: "event list \<Rightarrow> string option" where
  "responseContentType [] = None"
| "responseContentType (SetContentType t # tr) =
     (case responseContentType tr of None \<Rightarrow> Some t | Some t' \<Rightarrow> Some t')"
| "responseContentType (_ # tr) = responseContentType tr"

subsection \<open>The request body\<close>

text \<open>
  The inner loop of \<open>receiveRequestBody\<close> (lines 511-520) for one block \<open>buf\<close> of \<open>len\<close>
  bytes. \<open>fwrite(buf, 1, len - written, handle)\<close> takes its bytes from the start of
  \<open>buf\<close> on every turn: \<open>ret\<close> bytes of them are appended to the temporary file, which
  is modelled by its contents.
\<close>

function writeBlock ::
  "host \<Rightarrow> string \<Rightarrow> nat \<Rightarrow> string \<Rightarrow> event list \<Rightarrow> string outcome \<times> event list" where
  "writeBlock h buf written file tr =
     (let ret = min (length buf - written) (fwrite h (length file) (length buf - written)) in
      if ret = 0
      then (Throws (SystemException
              ''An error occured while writing HTTP upload data to a temporary file''
              (fwrite_errno h)), tr)
      else if written + ret < length buf
      then writeBlock h buf (written + ret) (file @ take ret buf) (tr @ [TempFileWrite (take ret buf)])
      else (Returns (file @ take ret buf), tr @ [TempFileWrite (take ret buf)]))"
  by pat_completeness auto
termination
  by (relation "measure (\<lambda>(h, buf, written, file, tr). length buf - written)") auto

declare writeBlock.simps [simp del]

text \<open>
  The outer loop (lines 510-521) over the reads of \<open>ap_get_client_block\<close>: the temporary
  file and the last value of \<open>len\<close>.
\<close>

fun receiveBlocks ::
  "host \<Rightarrow> string list \<Rightarrow> string \<Rightarrow> event list \<Rightarrow> (string \<times> int) outcome \<times> event list" where
  "receiveBlocks h [] file tr = (Returns (file, if client_error h then - 1 else 0), tr)"
| "receiveBlocks h (buf # rest) file tr =
     (if length buf > 0
      then andThen (writeBlock h buf 0 file tr) (\<lambda>file' tr'. receiveBlocks h rest file' tr')
      else (Returns (file, 0), tr))"

text \<open>\<open>Hooks::receiveRequestBody\<close> (lines 505-529): the temporary file it returns.\<close>

definition receiveRequestBody ::
  "host \<Rightarrow> request_rec \<Rightarrow> event list \<Rightarrow> string outcome \<times> event list" where
  "receiveRequestBody h r tr =
     (case TempFile_new h of
        Some e \<Rightarrow> (Throws e, tr)
      | None \<Rightarrow>
          andThen (receiveBlocks h (client_blocks h) [] (tr @ [TempFileCreate]))
            (\<lambda>(file, len) tr'.
               if len = - 1
               then (Throws (IOException ''An error occurred while receiving HTTP upload data.''), tr')
               else (case lookupHeader r ''Content-Length'' of
                       None \<Rightarrow> (Undefined, tr')
                     | Some cl \<Rightarrow>
                         if int (length file) \<noteq> atol h cl
                         then (Throws (IOException ''The HTTP client sent incomplete upload data.''), tr')
                         else (Returns file, tr'))))"

text \<open>A call on the session: it throws what the host says, or happens.\<close>

definition sessionCall :: "host \<Rightarrow> event \<Rightarrow> event list \<Rightarrow> unit outcome \<times> event list" where
  "sessionCall h e tr =
     (case session_fault h e of
        Some ex \<Rightarrow> (Throws ex, tr)
      | None \<Rightarrow> (Returns (), tr @ [e]))"

text \<open>
  The reads of \<open>fread(buf, 1, sizeof(buf), handle)\<close> from the start of the file until
  \<open>feof\<close>: a full buffer does not set the end-of-file mark, a shorter read (an empty one
  too) does.
\<close>

function fileBlocks :: "string \<Rightarrow> string list" where
  "fileBlocks file =
     (if length file < BUF_SIZE then [file]
      else take BUF_SIZE file # fileBlocks (drop BUF_SIZE file))"
  by pat_completeness auto
termination
  by (relation "measure length") (auto simp: BUF_SIZE_def)

declare fileBlocks.simps [simp del]

fun sendBlocks :: "host \<Rightarrow> string list \<Rightarrow> event list \<Rightarrow> unit outcome \<times> event list" where
  "sendBlocks h [] tr = (Returns (), tr)"
| "sendBlocks h (b # bs) tr =
     andThen (sessionCall h (SessionSendBodyBlock b) tr) (\<lambda>_ tr'. sendBlocks h bs tr')"

text \<open>\<open>Hooks::sendRequestBody\<close> from the temporary file (lines 531-542).\<close>

definition sendRequestBodyFile :: "host \<Rightarrow> string \<Rightarrow> event list \<Rightarrow> unit outcome \<times> event list" where
  "sendRequestBodyFile h uploadData tr = sendBlocks h (fileBlocks uploadData) tr"

text \<open>\<open>Hooks::sendRequestBody\<close> from the client (lines 544-554).\<close>

fun sendClientBlocks :: "host \<Rightarrow> string list \<Rightarrow> event list \<Rightarrow> int outcome \<times> event list" where
  "sendClientBlocks h [] tr = (Returns (if client_error h then - 1 else 0), tr)"
| "sendClientBlocks h (buf # rest) tr =
     (if length buf > 0
      then andThen (sessionCall h (SessionSendBodyBlock buf) tr)
             (\<lambda>_ tr'. sendClientBlocks h rest tr')
      else (Returns 0, tr))"

definition sendRequestBodyClient :: "host \<Rightarrow> event list \<Rightarrow> unit outcome \<times> event list" where
  "sendRequestBodyClient h tr =
     andThen (sendClientBlocks h (client_blocks h) tr)
       (\<lambda>len tr'.
          if len = - 1
          then (Throws (IOException ''An error occurred while receiving HTTP upload data.''), tr')
          else (Returns (), tr'))"

subsection \<open>The session\<close>

text \<open>A method of the mapper called where events are recorded: its value with the mapper.\<close>

definition fromMapper ::
  "'a outcome \<times> DirectoryMapper \<Rightarrow> event list \<Rightarrow> ('a \<times> DirectoryMapper) outcome \<times> event list" where
  "fromMapper res tr =
     (case res of
        (Returns a, m) \<Rightarrow> (Returns (a, m), tr)
      | (Throws e, m) \<Rightarrow> (Throws e, tr)
      | (Undefined, m) \<Rightarrow> (Undefined, tr))"

text \<open>
  Lines 659-663 of \<open>handleRequest\<close>: the temporary file holding the request body, when
  one is made. \<open>atol\<close> of a NULL pointer is undefined.
\<close>

definition bufferUpload ::
  "host \<Rightarrow> request_rec \<Rightarrow> event list \<Rightarrow> string option outcome \<times> event list" where
  "bufferUpload h r tr =
     (if ap_should_client_block h
      then (case lookupHeader r ''Content-Length'' of
              None \<Rightarrow> (Undefined, tr)
            | Some cl \<Rightarrow>
                if atol h cl > UPLOAD_ACCELERATION_THRESHOLD
                then andThen (receiveRequestBody h r tr) (\<lambda>file tr'. (Returns (Some file), tr'))
                else (Returns None, tr))
      else (Returns None, tr))"

text \<open>
  The arguments of \<open>applicationPool->get\<close> as the inner try block computes them (lines
  666-699): application root, fallback user, environment, spawn method and application
  type. A NULL application type string handed to \<open>const string &\<close> is undefined.
\<close>

definition poolGetArguments ::
  "host \<Rightarrow> DirConfig \<Rightarrow> ServerConfig \<Rightarrow> request_rec \<Rightarrow> DirectoryMapper
     \<Rightarrow> (string \<times> string \<times> string \<times> string \<times> string) outcome \<times> DirectoryMapper" where
  "poolGetArguments h config sconfig r m =
     (let lowestUser = (case defaultUser sconfig of Some u \<Rightarrow> u | None \<Rightarrow> ''nobody'');
          method = (if spawnMethod config = SM_CONSERVATIVE then ''conservative'' else ''smart'')
      in
      andThen (getApplicationType h config r m) (\<lambda>t1 m1.
      andThen
        (if t1 = RAILS
         then (Returns (case railsEnv config of None \<Rightarrow> ''production'' | Some e \<Rightarrow> e), m1)
         else andThen (getApplicationType h config r m1) (\<lambda>t2 m2.
                if t2 = RACK
                then (Returns (case rackEnv config of None \<Rightarrow> ''production'' | Some e \<Rightarrow> e), m2)
                else (Returns ''production'', m2)))
        (\<lambda>environment m3.
      andThen (getPublicDirectory h config r m3) (\<lambda>publicDir m4.
      andThen (canonicalizePath h (publicDir @ ''/..''), m4) (\<lambda>appRoot m5.
      andThen (getApplicationTypeString h config r m5) (\<lambda>typeString m6.
        (case typeString of
           None \<Rightarrow> (Undefined, m6)
         | Some ts \<Rightarrow> (Returns (appRoot, lowestUser, environment, method, ts), m6))))))))"

text \<open>The body of the inner try block (lines 666-700): the arguments, then the call.\<close>

definition tryPoolGet ::
  "host \<Rightarrow> DirConfig \<Rightarrow> ServerConfig \<Rightarrow> request_rec \<Rightarrow> DirectoryMapper \<Rightarrow> event list
     \<Rightarrow> (Session \<times> DirectoryMapper) outcome \<times> event list" where
  "tryPoolGet h config sconfig r m tr =
     (case poolGetArguments h config sconfig r m of
        (Throws e, m') \<Rightarrow> (Throws e, tr)
      | (Undefined, m') \<Rightarrow> (Undefined, tr)
      | (Returns (appRoot, lowestUser, environment, method, ts), m') \<Rightarrow>
          andThen
            (pool_get h appRoot True lowestUser environment method ts,
             tr @ [PoolGet appRoot True lowestUser environment method ts])
            (\<lambda>session tr'. (Returns (session, m'), tr')))"

text \<open>
  The handlers of the inner try block (lines 701-713): \<open>Inl\<close> is the status
  \<open>handleRequest\<close> returns from the handler, a rethrown exception goes on to the outer
  handlers.
\<close>

definition catchSpawnBusy ::
  "exception \<Rightarrow> event list \<Rightarrow> (int + Session \<times> DirectoryMapper) outcome \<times> event list" where
  "catchSpawnBusy e tr =
     (case e of
        SpawnException what (Some page) \<Rightarrow>
          (Returns (Inl OK),
           tr @ [SetContentType ''text/html; charset=utf-8'', Rputs (c_str page)])
      | SpawnException what None \<Rightarrow> (Throws e, tr)
      | BusyException what \<Rightarrow>
          andThen (reportBusyException tr) (\<lambda>status tr'. (Returns (Inl status), tr'))
      | _ \<Rightarrow> (Throws e, tr))"

text \<open>The inner try block with its handlers (lines 665-713).\<close>

definition acquireSession ::
  "host \<Rightarrow> DirConfig \<Rightarrow> ServerConfig \<Rightarrow> request_rec \<Rightarrow> DirectoryMapper \<Rightarrow> event list
     \<Rightarrow> (int + Session \<times> DirectoryMapper) outcome \<times> event list" where
  "acquireSession h config sconfig r m tr =
     (case tryPoolGet h config sconfig r m tr of
        (Returns sm, tr') \<Rightarrow> (Returns (Inr sm), tr')
      | (Throws e, tr') \<Rightarrow> catchSpawnBusy e tr'
      | (Undefined, tr') \<Rightarrow> (Undefined, tr'))"

text \<open>
  Lines 715-751: the request is sent over the session and the response is relayed.
  \<open>RelayResponse\<close> stands for the calls of lines 728-741 on the pipe and the brigade.
\<close>

definition sendRequest ::
  "host \<Rightarrow> DirConfig \<Rightarrow> request_rec \<Rightarrow> DirectoryMapper \<Rightarrow> Session \<Rightarrow> bool \<Rightarrow> string option
     \<Rightarrow> event list \<Rightarrow> int outcome \<times> event list" where
  "sendRequest h config r m session expectingUploadData uploadData tr =
     andThen (sessionCall h (SetReaderTimeout (c_div (server_timeout r) 1000)) tr) (\<lambda>_ tr.
     andThen (sessionCall h (SetWriterTimeout (c_div (server_timeout r) 1000)) tr) (\<lambda>_ tr.
     andThen (fromMapper (getBaseURI h config r m) tr) (\<lambda>(base, m') tr.
       (case base of
          None \<Rightarrow> (Undefined, tr)
        | Some b \<Rightarrow>
            (case sendHeaders h r b of
               None \<Rightarrow> (Undefined, tr)
             | Some buffer \<Rightarrow>
                 andThen (sessionCall h (SessionSendHeaders buffer) tr) (\<lambda>_ tr.
                 andThen
                   (if expectingUploadData
                    then (case uploadData of
                            Some file \<Rightarrow>
                              andThen (sendRequestBodyFile h file tr)
                                (\<lambda>_ tr. (Returns (), tr @ [TempFileReset]))
                          | None \<Rightarrow> sendRequestBodyClient h tr)
                    else (Returns (), tr))
                   (\<lambda>_ tr.
                 andThen (sessionCall h ShutdownWriter tr) (\<lambda>_ tr.
                 andThen (Returns (), tr @ [RelayResponse (stream session), RegisterCleanup])
                   (\<lambda>_ tr.
                 andThen (sessionCall h DiscardStream tr) (\<lambda>_ tr.
                   (Returns OK, tr)))))))))))"

text \<open>The outer try block (lines 651-751).\<close>

definition forwardRequest ::
  "host \<Rightarrow> DirConfig \<Rightarrow> ServerConfig \<Rightarrow> request_rec \<Rightarrow> DirectoryMapper \<Rightarrow> event list
     \<Rightarrow> int outcome \<times> event list" where
  "forwardRequest h config sconfig r m tr =
     andThen (bufferUpload h r tr) (\<lambda>uploadData tr.
     andThen (acquireSession h config sconfig r m tr) (\<lambda>acquired tr.
       (case acquired of
          Inl status \<Rightarrow> (Returns status, tr)
        | Inr (session, m') \<Rightarrow>
            sendRequest h config r m' session (ap_should_client_block h) uploadData tr)))"

text \<open>
  Its handlers (lines 753-771): \<open>thread_interrupted\<close>, \<open>tracable_exception\<close> and
  \<open>std::exception\<close> give status 500, anything else is thrown again.
\<close>

definition catchAll :: "int outcome \<times> event list \<Rightarrow> int outcome \<times> event list" where
  "catchAll res =
     (case res of
        (Throws unknown_exception, tr) \<Rightarrow> (Throws unknown_exception, tr)
      | (Throws e, tr) \<Rightarrow> (Returns HTTP_INTERNAL_SERVER_ERROR, tr)
      | (Returns status, tr) \<Rightarrow> (Returns status, tr)
      | (Undefined, tr) \<Rightarrow> (Undefined, tr))"

text \<open>
  \<open>Hooks::handleRequest\<close> (lines 630-772): the value returned, or the exception that
  leaves the function, and the events of the call.
\<close>

definition handleRequest ::
  "host \<Rightarrow> DirConfig \<Rightarrow> ServerConfig \<Rightarrow> request_rec \<Rightarrow> int outcome \<times> event list" where
  "handleRequest h config sconfig r =
     (case getBaseURI h config r newDirectoryMapper of
        (Throws e, m) \<Rightarrow> (Throws e, [])
      | (Undefined, m) \<Rightarrow> (Undefined, [])
      | (Returns None, m) \<Rightarrow> (Returns DECLINED, [])
      | (Returns (Some base), m) \<Rightarrow>
          (case filename r of
             None \<Rightarrow> (Returns DECLINED, [])
           | Some fname \<Rightarrow>
               (case fileExists h fname of
                  Throws e \<Rightarrow> (Throws e, [])
                | Undefined \<Rightarrow> (Undefined, [])
                | Returns True \<Rightarrow> (Returns DECLINED, [])
                | Returns False \<Rightarrow>
                    (case getPublicDirectory h config r m of
                       (Throws (FileSystemException what code fname'), m') \<Rightarrow>
                         reportFileSystemError h what code fname' []
                     | (Throws e, m') \<Rightarrow> (Throws e, [])
                     | (Undefined, m') \<Rightarrow> (Undefined, [])
                     | (Returns publicDir, m') \<Rightarrow>
                         if publicDir = []
                         then reportDocumentRootDeterminationError []
                         else if ap_setup_client_block h \<noteq> OK
                         then (Returns (ap_setup_client_block h), [])
                         else catchAll (forwardRequest h config sconfig r m' [])))))"

text \<open>
  The test of \<open>mapToStorage\<close> that sets \<open>forwardToApplication\<close> (lines 781-818), with
  the request as it leaves it. \<open>fileExists\<close> and \<open>strlen\<close> of a NULL \<open>r->filename\<close> are
  undefined.
\<close>

definition forwardToApplication ::
  "host \<Rightarrow> request_rec \<Rightarrow> string option \<Rightarrow> (bool \<times> request_rec) outcome" where
  "forwardToApplication h r base =
     (case base of
        None \<Rightarrow> Returns (False, r)
      | Some b \<Rightarrow>
          (case filename r of
             None \<Rightarrow> Undefined
           | Some fname \<Rightarrow>
               (case fileExists h fname of
                  Throws e \<Rightarrow> Throws e
                | Undefined \<Rightarrow> Undefined
                | Returns True \<Rightarrow> Returns (False, r)
                | Returns False \<Rightarrow>
                    if method_number r = M_GET
                    then (let len = length fname;
                              html_file = (if len > 0 \<and> fname ! (len - 1) = CHR ''/''
                                           then fname @ ''index.html''
                                           else fname @ ''.html'')
                          in (case fileExists h html_file of
                                Throws e \<Rightarrow> Throws e
                              | Undefined \<Rightarrow> Undefined
                              | Returns True \<Rightarrow>
                                  Returns (False, r\<lparr>filename := Some html_file,
                                                     canonical_filename := Some html_file\<rparr>)
                              | Returns False \<Rightarrow> Returns (True, r)))
                    else Returns (True, r))))"

text \<open>
  \<open>Hooks::mapToStorage\<close> (lines 774-860): the value returned and the request after
  the call.
\<close>

definition mapToStorage ::
  "host \<Rightarrow> DirConfig \<Rightarrow> request_rec \<Rightarrow> int outcome \<times> request_rec" where
  "mapToStorage h config r =
     (case (case getBaseURI h config r newDirectoryMapper of
              (Throws e, m) \<Rightarrow> (Throws e, r)
            | (Undefined, m) \<Rightarrow> (Undefined, r)
            | (Returns base, m) \<Rightarrow>
                (case forwardToApplication h r base of
                   Throws e \<Rightarrow> (Throws e, r)
                 | Undefined \<Rightarrow> (Undefined, r)
                 | Returns (False, r') \<Rightarrow> (Returns DECLINED, r')
                 | Returns (True, r') \<Rightarrow>
                     (case getApplicationType h config r' m of
                        (Throws e, m') \<Rightarrow> (Throws e, r')
                      | (Undefined, m') \<Rightarrow> (Undefined, r')
                      | (Returns t, m') \<Rightarrow>
                          if allowModRewrite config \<noteq> ENABLED \<and> t = RAILS
                          then (Returns OK, r')
                          else (case getBaseURI h config r' m' of
                                  (Throws e, m'') \<Rightarrow> (Throws e, r')
                                | (Undefined, m'') \<Rightarrow> (Undefined, r')
                                | (Returns None, m'') \<Rightarrow> (Undefined, r')
                                | (Returns (Some b), m'') \<Rightarrow>
                                    if uri r' = b then (Returns OK, r')
                                    else (Returns DECLINED, r'))))) of
        (Throws (FileSystemException what code fname), r') \<Rightarrow> (Returns DECLINED, r')
      | res \<Rightarrow> res)"

section \<open>The resolver as the specification words it\<close>

text \<open>
  A base matches a URI when it is \<open>/\<close>, or the whole URI, or a proper prefix of the URI
  that the character \<open>/\<close> follows.
\<close>

definition spec_matches :: "string \<Rightarrow> string \<Rightarrow> bool" where
  "spec_matches u base =
     (base = ''/'' \<or> base = u \<or> take (Suc (length base)) u = base @ ''/'')"

text \<open>
  The probes of the document root in a given order: the type of the first probe that is
  enabled and finds its markers; a probe that is disabled is not made.
\<close>

fun firstProbe :: "(bool \<times> bool outcome \<times> ApplicationType) list \<Rightarrow> ApplicationType outcome" where
  "firstProbe [] = Returns NONE"
| "firstProbe ((enabled, probe, t) # rest) =
     (if enabled
      then (case probe of
              Returns True \<Rightarrow> Returns t
            | Returns False \<Rightarrow> firstProbe rest
            | Throws e \<Rightarrow> Throws e
            | Undefined \<Rightarrow> Undefined)
      else firstProbe rest)"

definition spec_detect :: "host \<Rightarrow> DirConfig \<Rightarrow> ApplicationType outcome" where
  "spec_detect h config =
     firstProbe
       [(autoDetectRails config \<noteq> DISABLED, verifyRailsDir h (ap_document_root h), RAILS),
        (autoDetectRack config \<noteq> DISABLED, verifyRackDir h (ap_document_root h), RACK),
        (autoDetectWSGI config \<noteq> DISABLED, verifyWSGIDir h (ap_document_root h), WSGI)]"

text \<open>
  The first matching Rails base; failing that the first matching Rack base; failing that
  \<open>/\<close> with the type auto-detection finds; otherwise no base (not an application
  request).
\<close>

definition spec_resolve ::
  "host \<Rightarrow> DirConfig \<Rightarrow> string \<Rightarrow> (string option \<times> ApplicationType) outcome" where
  "spec_resolve h config u =
     (case List.find (spec_matches u) (railsBaseURIs config) of
        Some b \<Rightarrow> Returns (Some b, RAILS)
      | None \<Rightarrow>
          (case List.find (spec_matches u) (rackBaseURIs config) of
             Some b \<Rightarrow> Returns (Some b, RACK)
           | None \<Rightarrow>
               (case spec_detect h config of
                  Returns NONE \<Rightarrow> Returns (None, NONE)
                | Returns t \<Rightarrow> Returns (Some ''/'', t)
                | Throws e \<Rightarrow> Throws e
                | Undefined \<Rightarrow> Undefined)))"

text \<open>
  The public directory as the specification words it: the document root with one
  trailing slash stripped, and the base appended unless the base is \<open>/\<close>; the empty
  string when no base was resolved or the document root is empty.
\<close>

definition spec_publicDir :: "string \<Rightarrow> string option \<Rightarrow> string" where
  "spec_publicDir docRoot base =
     (case base of
        None \<Rightarrow> []
      | Some b \<Rightarrow>
          if docRoot = [] then []
          else (if last docRoot = CHR ''/'' then butlast docRoot else docRoot)
               @ (if b = ''/'' then [] else b))"

section \<open>Example requests\<close>

text \<open>
  A host, a configuration and a request to evaluate the model on. The application lives
  in \<open>/var/www/app\<close>, its public directory holds \<open>style.css\<close> and the cached page
  \<open>about.html\<close>, and the pool answers with a session.
\<close>

definition exampleEscape :: "string \<Rightarrow> string" where
  "exampleEscape s =
     concat (map (\<lambda>c. if c = CHR ''<'' then ''&lt;''
                        else if c = CHR ''>'' then ''&gt;''
                        else if c = CHR ''&'' then ''&amp;''
                        else [c]) s)"

definition exampleHost :: host where
  "exampleHost =
     \<lparr>fileExists = (\<lambda>f. Returns (f = ''/var/www/app/public/style.css''
                                   \<or> f = ''/var/www/app/public/about.html'')),
      verifyRailsDir = (\<lambda>d. Returns False),
      verifyRackDir = (\<lambda>d. Returns False),
      verifyWSGIDir = (\<lambda>d. Returns False),
      canonicalizePath = (\<lambda>p. Returns ''/var/www/app''),
      ap_document_root = ''/var/www/app/public/'',
      ap_get_server_version = Some ''Apache/2.2.8'',
      ap_get_server_name = Some ''www.example.com'',
      ap_get_server_port = 80,
      ap_escape_html = exampleEscape,
      ap_setup_client_block = 0,
      ap_should_client_block = False,
      client_blocks = [],
      client_error = False,
      atol = (\<lambda>s. if s = ''10000'' then 10000 else if s = ''5'' then 5 else 0),
      TempFile_new = None,
      fwrite = (\<lambda>pos n. n),
      fwrite_errno = 28,
      pool_get = (\<lambda>appRoot lowerPrivilege lowestUser environment method ts.
                    Returns \<lparr>pid = 4711, stream = 7\<rparr>),
      session_fault = (\<lambda>e. None)\<rparr>"

definition exampleConfig :: DirConfig where
  "exampleConfig =
     \<lparr>railsBaseURIs = [''/''],
      rackBaseURIs = [],
      autoDetectRails = UNSET,
      autoDetectRack = UNSET,
      autoDetectWSGI = UNSET,
      allowModRewrite = UNSET,
      railsEnv = None,
      rackEnv = None,
      spawnMethod = SM_UNSET\<rparr>"

definition exampleServerConfig :: ServerConfig where
  "exampleServerConfig = \<lparr>defaultUser = None\<rparr>"

definition exampleRequest :: request_rec where
  "exampleRequest =
     \<lparr>the_request = Some ''GET /users?page=2 HTTP/1.1'',
      protocol = Some ''HTTP/1.1'',
      method_name = Some ''GET'',
      method_number = 0,
      uri = ''/users'',
      filename = Some ''/var/www/app/public/users'',
      canonical_filename = Some ''/var/www/app/public/users'',
      args = Some ''page=2'',
      user = None,
      parsed_uri_path = Some ''/users'',
      headers_in = [(Some ''Host'', Some ''www.example.com'')],
      subprocess_env = [(Some ''SSL_CLIENT_CERT'', Some '''')],
      server_admin = Some ''webmaster@example.com'',
      server_timeout = 300000000,
      local_ip = Some ''192.0.2.1'',
      remote_ip = Some ''198.51.100.7'',
      remote_port = 51234\<rparr>"

text \<open>The same host when the probe for a Rails application cannot read the disk.\<close>

definition unreadableHost :: host where
  "unreadableHost =
     exampleHost\<lparr>verifyRailsDir :=
       (\<lambda>d. Throws (FileSystemException ''Cannot stat the Rails environment file'' EPERM
                      (d @ ''/../config/environment.rb'')))\<rparr>"

text \<open>The same host when \<open>fileExists\<close> cannot read the disk.\<close>

definition unstatableHost :: host where
  "unstatableHost =
     exampleHost\<lparr>fileExists := (\<lambda>f. Throws (FileSystemException ''Cannot stat file'' EPERM f))\<rparr>"

text \<open>
  The page-cache file of a path as the specification words it: the path with
  \<open>index.html\<close> appended when it ends in a slash, with \<open>.html\<close> appended otherwise.
\<close>

definition spec_htmlFile :: "string \<Rightarrow> string" where
  "spec_htmlFile f = (if f \<noteq> [] \<and> last f = CHR ''/'' then f @ ''index.html'' else f @ ''.html'')"

text \<open>A POST request for a file that exists in the public directory.\<close>

definition postRequest :: request_rec where
  "postRequest =
     exampleRequest\<lparr>the_request := Some ''POST /style.css HTTP/1.1'',
                     method_name := Some ''POST'',
                     method_number := 2,
                     uri := ''/style.css'',
                     filename := Some ''/var/www/app/public/style.css'',
                     canonical_filename := Some ''/var/www/app/public/style.css''\<rparr>"


section \<open>Events of a request\<close>

text \<open>
  The blocks \<open>ap_get_client_block\<close> hands over before the read that ends the loops of
  \<open>receiveRequestBody\<close> and \<open>sendRequestBody\<close>: the request body as it is received.
\<close>

definition receivedBlocks :: "host \<Rightarrow> string list" where
  "receivedBlocks h = takeWhile (\<lambda>buf. buf \<noteq> []) (client_blocks h)"

text \<open>
  Kinds of events: those on the temporary file before the pool is asked, the call of the
  pool, those on the response, and those after a session was acquired.
\<close>

fun isTempFileEvent :: "event \<Rightarrow> bool" where
  "isTempFileEvent TempFileCreate = True"
| "isTempFileEvent (TempFileWrite s) = True"
| "isTempFileEvent _ = False"

fun isPoolGet :: "event \<Rightarrow> bool" where
  "isPoolGet (PoolGet a lp u env sm ts) = True"
| "isPoolGet _ = False"

fun isResponseEvent :: "event \<Rightarrow> bool" where
  "isResponseEvent (SetContentType t) = True"
| "isResponseEvent (Rputs s) = True"
| "isResponseEvent (CustomResponse status s) = True"
| "isResponseEvent _ = False"

fun isSessionEvent :: "event \<Rightarrow> bool" where
  "isSessionEvent (SetReaderTimeout t) = True"
| "isSessionEvent (SetWriterTimeout t) = True"
| "isSessionEvent (SessionSendHeaders s) = True"
| "isSessionEvent (SessionSendBodyBlock s) = True"
| "isSessionEvent TempFileReset = True"
| "isSessionEvent ShutdownWriter = True"
| "isSessionEvent (RelayResponse fd) = True"
| "isSessionEvent RegisterCleanup = True"
| "isSessionEvent DiscardStream = True"
| "isSessionEvent _ = False"

text \<open>A call only adds events, all of one kind.\<close>

definition emits :: "(event \<Rightarrow> bool) \<Rightarrow> 'a outcome \<times> event list \<Rightarrow> event list \<Rightarrow> bool" where
  "emits P res tr = (\<exists>ev. snd res = tr @ ev \<and> list_all P ev)"

text \<open>
  What \<open>acquireSession\<close> does once the pool is asked, by the answer of the pool: its
  result and the events after the call.
\<close>

definition afterPoolGet ::
  "Session outcome \<Rightarrow> (int + Session \<times> DirectoryMapper) outcome \<Rightarrow> event list \<Rightarrow> bool" where
  "afterPoolGet answer res post =
     (case answer of
        Returns s \<Rightarrow> post = [] \<and> (\<exists>m'. res = Returns (Inr (s, m')))
      | Throws (SpawnException what (Some page)) \<Rightarrow>
          post = [SetContentType ''text/html; charset=utf-8'', Rputs (c_str page)]
          \<and> res = Returns (Inl OK)
      | Throws (BusyException what) \<Rightarrow>
          post = [CustomResponse HTTP_SERVICE_UNAVAILABLE
                    ''This website is too busy right now.  Please try again later.'']
          \<and> res = Returns (Inl HTTP_SERVICE_UNAVAILABLE)
      | Throws e \<Rightarrow> post = [] \<and> res = Throws e
      | Undefined \<Rightarrow> post = [] \<and> res = Undefined)"

text \<open>The same for \<open>forwardRequest\<close>: its result and the events after the call.\<close>

definition afterRequest :: "Session outcome \<Rightarrow> int outcome \<Rightarrow> event list \<Rightarrow> bool" where
  "afterRequest answer res post =
     (case answer of
        Returns s \<Rightarrow> list_all isSessionEvent post
      | Throws (SpawnException what (Some page)) \<Rightarrow>
          post = [SetContentType ''text/html; charset=utf-8'', Rputs (c_str page)]
          \<and> res = Returns OK
      | Throws (BusyException what) \<Rightarrow>
          post = [CustomResponse HTTP_SERVICE_UNAVAILABLE
                    ''This website is too busy right now.  Please try again later.'']
          \<and> res = Returns HTTP_SERVICE_UNAVAILABLE
      | Throws e \<Rightarrow> post = [] \<and> res = Throws e
      | Undefined \<Rightarrow> post = [] \<and> res = Undefined)"

text \<open>
  Hosts whose pool fails to spawn the application, with an error page, or is too busy;
  and POST requests with a body of 10000 bytes and of 5 bytes.
\<close>

definition spawnErrorHost :: host where
  "spawnErrorHost =
     exampleHost\<lparr>pool_get := (\<lambda>appRoot lowerPrivilege lowestUser environment method ts.
        Throws (SpawnException ''Cannot spawn application''
                  (Some ''<html><body>The application could not start</body></html>'')))\<rparr>"

definition busyHost :: host where
  "busyHost =
     exampleHost\<lparr>pool_get := (\<lambda>appRoot lowerPrivilege lowestUser environment method ts.
        Throws (BusyException ''The pool is too busy''))\<rparr>"

definition uploadHost :: host where
  "uploadHost =
     exampleHost\<lparr>ap_should_client_block := True,
                  client_blocks := [replicate 10000 (CHR ''x'')]\<rparr>"

definition uploadRequest :: request_rec where
  "uploadRequest =
     exampleRequest\<lparr>the_request := Some ''POST /users HTTP/1.1'',
                     method_name := Some ''POST'',
                     method_number := 2,
                     headers_in := [(Some ''Host'', Some ''www.example.com''),
                                    (Some ''Content-Length'', Some ''10000'')]\<rparr>"

definition smallHost :: host where
  "smallHost =
     exampleHost\<lparr>ap_should_client_block := True, client_blocks := [''hello'']\<rparr>"

definition smallRequest :: request_rec where
  "smallRequest =
     exampleRequest\<lparr>the_request := Some ''POST /users HTTP/1.1'',
                     method_name := Some ''POST'',
                     method_number := 2,
                     headers_in := [(Some ''Host'', Some ''www.example.com''),
                                    (Some ''Content-Length'', Some ''5'')]\<rparr>"

text \<open>
  A host that receives a body of 5000 bytes \<open>a\<close> and 5000 bytes \<open>b\<close> in one block, and whose
  first call of \<open>fwrite\<close>, at the start of the temporary file, writes 4096 bytes only;
  every later call writes all it is given.
\<close>

definition shortWriteHost :: host where
  "shortWriteHost =
     exampleHost\<lparr>ap_should_client_block := True,
                  client_blocks := [replicate 5000 (CHR ''a'') @ replicate 5000 (CHR ''b'')],
                  fwrite := (\<lambda>pos n. if pos = 0 then 4096 else n)\<rparr>"

section \<open>Round trip of the header payload\<close>

lemma splitFields_nonempty: "splitFields sep s \<noteq> []"
  by (induction s) (auto split: list.splits)

lemma splitFields_no_sep: "sep \<notin> set s \<Longrightarrow> splitFields sep s = [s]"
  by (induction s) auto

lemma splitFields_append_sep:
  "sep \<notin> set k \<Longrightarrow> splitFields sep (k @ sep # rest) = k # splitFields sep rest"
  by (induction k) auto

lemma appendEntries_tableOf:
  "appendEntries (tableOf hs) buffer =
     Some (buffer @ concat (map (\<lambda>(k, v). k @ [NUL] @ v @ [NUL]) hs))"
  by (induction hs arbitrary: buffer) (auto simp: tableOf_def)

lemma splitFields_entries:
  assumes "\<forall>(k, v) \<in> set hs. NUL \<notin> set k \<and> NUL \<notin> set v"
  shows "splitFields NUL (concat (map (\<lambda>(k, v). k @ [NUL] @ v @ [NUL]) hs) @ rest) =
           concat (map (\<lambda>(k, v). [k, v]) hs) @ splitFields NUL rest"
  using assms
proof (induction hs)
  case Nil
  then show ?case by simp
next
  case (Cons h hs)
  obtain k v where h: "h = (k, v)" by (cases h)
  from Cons.prems h have k: "NUL \<notin> set k" and v: "NUL \<notin> set v" by auto
  from Cons have ih:
    "splitFields NUL (concat (map (\<lambda>(k, v). k @ [NUL] @ v @ [NUL]) hs) @ rest) =
       concat (map (\<lambda>(k, v). [k, v]) hs) @ splitFields NUL rest"
    by simp
  show ?case
    using ih by (simp add: h splitFields_append_sep [OF k] splitFields_append_sep [OF v])
qed

lemma splitFields_sentinel:
  "splitFields NUL [CHR ''_'', NUL, CHR ''_'', NUL] = [''_'', ''_'', []]"
  by (simp add: NUL_def)

lemma pairUp_entries:
  "pairUp (concat (map (\<lambda>(k, v). [k, v]) hs) @ rest) = hs @ pairUp rest"
  by (induction hs) auto

lemma length_entries:
  "length (concat (map (\<lambda>(k, v). [k, v]) hs)) = 2 * length hs"
  by (induction hs) auto

lemma split_nul_payload:
  assumes "\<forall>(k, v) \<in> set hs. NUL \<notin> set k \<and> NUL \<notin> set v"
  shows "headerBuffer (tableOf hs) =
           Some (concat (map (\<lambda>(k, v). k @ [NUL] @ v @ [NUL]) hs) @ [CHR ''_'', NUL, CHR ''_'', NUL])"
    and "split_nul (concat (map (\<lambda>(k, v). k @ [NUL] @ v @ [NUL]) hs) @ [CHR ''_'', NUL, CHR ''_'', NUL]) =
           concat (map (\<lambda>(k, v). [k, v]) hs) @ [''_'', ''_'']"
proof -
  show "headerBuffer (tableOf hs) =
           Some (concat (map (\<lambda>(k, v). k @ [NUL] @ v @ [NUL]) hs) @ [CHR ''_'', NUL, CHR ''_'', NUL])"
    by (simp add: headerBuffer_def appendEntries_tableOf)
  show "split_nul (concat (map (\<lambda>(k, v). k @ [NUL] @ v @ [NUL]) hs) @ [CHR ''_'', NUL, CHR ''_'', NUL]) =
           concat (map (\<lambda>(k, v). [k, v]) hs) @ [''_'', ''_'']"
    unfolding split_nul_def splitFields_entries [OF assms] splitFields_sentinel
    by simp
qed

text \<open>
  C1. For every finite sequence of (name, value) pairs of C strings (no NUL inside a name
  or a value; a value, and a name, may be empty), the buffer built by \<open>sendHeaders\<close> -
  each name and each value followed by one NUL, then the sentinel \<open>_ NUL _ NUL\<close> - is
  split by the reference splitter into an even number of fields, the last two being the
  sentinel pair, and the fields before them, taken two at a time, are exactly the original
  pairs in order.
\<close>

theorem header_round_trip:
  assumes "\<forall>(k, v) \<in> set hs. NUL \<notin> set k \<and> NUL \<notin> set v"
  shows "\<exists>buffer. headerBuffer (tableOf hs) = Some buffer
           \<and> even (length (split_nul buffer))
           \<and> drop (2 * length hs) (split_nul buffer) = [''_'', ''_'']
           \<and> pairUp (butlast (butlast (split_nul buffer))) = hs"
proof -
  let ?buffer = "concat (map (\<lambda>(k, v). k @ [NUL] @ v @ [NUL]) hs) @ [CHR ''_'', NUL, CHR ''_'', NUL]"
  let ?flat = "concat (map (\<lambda>(k, v). [k, v]) hs)"
  have b: "headerBuffer (tableOf hs) = Some ?buffer"
    and s: "split_nul ?buffer = ?flat @ [''_'', ''_'']"
    using split_nul_payload [OF assms] by blast+
  have e: "even (length (split_nul ?buffer))"
    unfolding s by (simp add: length_entries)
  have d: "drop (2 * length hs) (split_nul ?buffer) = [''_'', ''_'']"
    unfolding s by (simp add: length_entries)
  have "butlast (butlast (?flat @ [''_'', ''_''])) = ?flat"
    by (simp add: butlast_append)
  then have p: "pairUp (butlast (butlast (split_nul ?buffer))) = hs"
    unfolding s using pairUp_entries [of hs "[]"] by simp
  from b e d p show ?thesis by blast
qed

theorem header_round_trip_witness:
  "\<exists>buffer. headerBuffer (tableOf [(''HTTPS'', ''on''), (''SSL_CLIENT_CERT'', '''')]) = Some buffer
           \<and> even (length (split_nul buffer))
           \<and> drop 4 (split_nul buffer) = [''_'', ''_'']
           \<and> pairUp (butlast (butlast (split_nul buffer))) = [(''HTTPS'', ''on''), (''SSL_CLIENT_CERT'', '''')]"
proof -
  have h: "\<forall>(k, v) \<in> set [(''HTTPS'', ''on''), (''SSL_CLIENT_CERT'', '''')]. NUL \<notin> set k \<and> NUL \<notin> set v"
    by (simp add: NUL_def)
  show ?thesis
    using header_round_trip [OF h] by simp
qed

section \<open>The directory resolver\<close>

lemma c_str_id: "NUL \<notin> set s \<Longrightarrow> c_str s = s"
  by (auto simp: c_str_def)

lemma c_str_slash: "c_str ''/'' = ''/''"
  by (simp add: c_str_def NUL_def)

text \<open>The test of lines 150-153 is the match of the specification.\<close>

lemma matches_iff:
  "(base = ''/''
      \<or> (length u = length base \<and> memcmp_eq u base (length u))
      \<or> (length u > length base \<and> memcmp_eq u base (length base) \<and> u ! length base = CHR ''/''))
   = spec_matches u base"
proof -
  have a: "(length u = length base \<and> memcmp_eq u base (length u)) = (base = u)"
    by (auto simp: memcmp_eq_def)
  have b: "(length u > length base \<and> memcmp_eq u base (length base) \<and> u ! length base = CHR ''/'')
           = (take (Suc (length base)) u = base @ ''/'')"
  proof (cases "length base < length u")
    case True
    then show ?thesis
      by (auto simp: memcmp_eq_def take_Suc_conv_app_nth)
  next
    case False
    then have "length (take (Suc (length base)) u) \<noteq> length (base @ ''/'')"
      by simp
    then have "take (Suc (length base)) u \<noteq> base @ ''/''"
      by metis
    with False show ?thesis by simp
  qed
  show ?thesis
    unfolding spec_matches_def a b ..
qed

lemma firstBaseURI_find: "firstBaseURI u bases = List.find (spec_matches u) bases"
  by (induction bases) (simp_all add: matches_iff del: One_nat_def)

lemma autoDetect_spec: "autoDetect h config = spec_detect h config"
  unfolding autoDetect_def spec_detect_def shouldAutoDetectRails_def shouldAutoDetectRack_def
    shouldAutoDetectWSGI_def
  by (cases "autoDetectRails config"; cases "autoDetectRack config"; cases "autoDetectWSGI config")
     (simp_all split: outcome.splits bool.splits)

lemma getBaseURI_fresh:
  assumes "uri r \<noteq> []" and "hd (uri r) = CHR ''/''"
  shows "getBaseURI h config r newDirectoryMapper =
           (case spec_resolve h config (uri r) of
              Returns (b, t) \<Rightarrow>
                (Returns (map_option c_str b),
                 \<lparr>baseURIKnown = True, baseURI = map_option c_str b, appType = t\<rparr>)
            | Throws e \<Rightarrow> (Throws e, newDirectoryMapper)
            | Undefined \<Rightarrow> (Undefined, newDirectoryMapper))"
  using assms
  unfolding getBaseURI_def spec_resolve_def firstBaseURI_find autoDetect_spec newDirectoryMapper_def
  by (simp add: c_str_slash split: option.splits outcome.splits ApplicationType.splits)

lemma getBaseURI_no_slash:
  assumes "uri r = [] \<or> hd (uri r) \<noteq> CHR ''/''"
  shows "getBaseURI h config r newDirectoryMapper =
           (Returns None, newDirectoryMapper\<lparr>baseURIKnown := True\<rparr>)"
  using assms by (auto simp: getBaseURI_def newDirectoryMapper_def)

text \<open>
  C5, as the specification states it, fails: for the URI \<open>foo\<close>, which does not begin
  with a slash, and the configured Rails base \<open>/\<close>, the base matches (it equals \<open>/\<close>)
  and is the first Rails base that does, yet \<open>getBaseURI\<close> returns NULL.
\<close>

theorem getBaseURI_first_match_counterexample:
  "List.find (spec_matches ''foo'') (railsBaseURIs exampleConfig) = Some ''/''
   \<and> spec_resolve exampleHost exampleConfig ''foo'' = Returns (Some ''/'', RAILS)
   \<and> fst (getBaseURI exampleHost exampleConfig (exampleRequest\<lparr>uri := ''foo''\<rparr>)
            newDirectoryMapper) = Returns None"
  by (simp add: spec_resolve_def spec_matches_def exampleConfig_def getBaseURI_def
      newDirectoryMapper_def)

text \<open>
  C5, amended. For every request URI that begins with \<open>/\<close> and every configuration, the
  resolver returns the first configured Rails base URI that matches (the base equals
  \<open>/\<close>, or equals the whole URI, or is a proper prefix of the URI with the next URI
  character being \<open>/\<close>), with type Rails; failing that the first matching Rack base URI,
  with type Rack; failing that, it probes the document root for the types whose
  auto-detection is not disabled, in the order Rails, Rack, WSGI, and returns \<open>/\<close> with
  the first type whose probe succeeds; otherwise it returns NULL. An exception of a probe
  leaves the resolver with nothing recorded. The base is returned as a C string
  (\<open>base.c_str()\<close>), which is the base itself when it holds no NUL.
\<close>

theorem getBaseURI_resolves:
  assumes "uri r \<noteq> []" and "hd (uri r) = CHR ''/''"
  shows "getBaseURI h config r newDirectoryMapper =
           (case spec_resolve h config (uri r) of
              Returns (b, t) \<Rightarrow>
                (Returns (map_option c_str b),
                 \<lparr>baseURIKnown = True, baseURI = map_option c_str b, appType = t\<rparr>)
            | Throws e \<Rightarrow> (Throws e, newDirectoryMapper)
            | Undefined \<Rightarrow> (Undefined, newDirectoryMapper))"
  using assms by (rule getBaseURI_fresh)

theorem getBaseURI_resolves_witness:
  "getBaseURI exampleHost (exampleConfig\<lparr>railsBaseURIs := [''/blog'', ''/users''],
                                        rackBaseURIs := [''/'']\<rparr>)
     exampleRequest newDirectoryMapper =
     (Returns (Some ''/users''),
      \<lparr>baseURIKnown = True, baseURI = Some ''/users'', appType = RAILS\<rparr>)"
proof -
  have u: "uri exampleRequest \<noteq> []" and s: "hd (uri exampleRequest) = CHR ''/''"
    by (simp_all add: exampleRequest_def)
  show ?thesis
    using getBaseURI_resolves [OF u s, of exampleHost
        "exampleConfig\<lparr>railsBaseURIs := [''/blog'', ''/users''], rackBaseURIs := [''/'']\<rparr>"]
    by (simp add: spec_resolve_def spec_matches_def exampleConfig_def exampleRequest_def
        c_str_def NUL_def)
qed

section \<open>The public directory, and requests without a leading slash\<close>

lemma getBaseURI_known:
  assumes "getBaseURI h config r newDirectoryMapper = (Returns b, m)"
  shows "baseURIKnown m \<and> baseURI m = b"
  using assms
  unfolding getBaseURI_def newDirectoryMapper_def
  by (auto split: if_splits option.splits outcome.splits ApplicationType.splits)

lemma getBaseURI_again:
  "baseURIKnown m \<Longrightarrow> getBaseURI h config r m = (Returns (baseURI m), m)"
  by (simp add: getBaseURI_def)

lemma strip_slash:
  "d \<noteq> [] \<Longrightarrow>
     (if d ! (length d - 1) = CHR ''/'' then take (length d - 1) d else take (length d) d)
     = (if last d = CHR ''/'' then butlast d else d)"
  by (simp add: last_conv_nth butlast_conv_take)

lemma getPublicDirectory_known:
  assumes "baseURIKnown m"
  shows "getPublicDirectory h config r m =
           (Returns (spec_publicDir (ap_document_root h) (baseURI m)), m)"
proof (cases "baseURI m")
  case None
  with assms show ?thesis
    by (simp add: getPublicDirectory_def spec_publicDir_def)
next
  case (Some base)
  show ?thesis
  proof (cases "ap_document_root h = []")
    case True
    with assms Some show ?thesis
      by (simp add: getPublicDirectory_def spec_publicDir_def)
  next
    case False
    with assms Some strip_slash [OF False] show ?thesis
      by (simp add: getPublicDirectory_def spec_publicDir_def Let_def)
  qed
qed

text \<open>
  C6. For every request for which \<open>getBaseURI\<close> resolved a base URI, \<open>getPublicDirectory\<close>
  returns the document root with one trailing \<open>/\<close> stripped (when present) and, when
  the base URI is not \<open>/\<close>, the base URI appended; it returns the empty string when no
  base URI was resolved (\<open>b = None\<close>) or the document root is empty. This holds when it
  is called after \<open>getBaseURI\<close>, as \<open>handleRequest\<close> does, and when it makes the call
  itself.
\<close>

theorem getPublicDirectory_spec:
  assumes "getBaseURI h config r newDirectoryMapper = (Returns b, m)"
  shows "getPublicDirectory h config r m =
           (Returns (spec_publicDir (ap_document_root h) b), m)
         \<and> getPublicDirectory h config r newDirectoryMapper =
           (Returns (spec_publicDir (ap_document_root h) b), m)"
proof -
  from getBaseURI_known [OF assms] have k: "baseURIKnown m" and b: "baseURI m = b"
    by simp_all
  have one: "getPublicDirectory h config r m =
               (Returns (spec_publicDir (ap_document_root h) b), m)"
    using getPublicDirectory_known [OF k, of h config r] b by simp
  have "getPublicDirectory h config r newDirectoryMapper = getPublicDirectory h config r m"
    using assms k b
    by (simp add: getPublicDirectory_def newDirectoryMapper_def)
  with one show ?thesis by simp
qed

text \<open>
  C10. For every request whose URI is empty or does not begin with \<open>/\<close>,
  \<open>getBaseURI\<close> returns NULL whatever the configured base URIs are and whatever the
  probes of the filesystem would answer (none is consulted: the result does not depend
  on the configuration or the host), so \<open>handleRequest\<close> declines the request, and so
  does \<open>mapToStorage\<close>, leaving the request untouched.
\<close>

theorem no_slash_declined:
  assumes "uri r = [] \<or> hd (uri r) \<noteq> CHR ''/''"
  shows "getBaseURI h config r newDirectoryMapper =
           (Returns None, newDirectoryMapper\<lparr>baseURIKnown := True\<rparr>)
         \<and> handleRequest h config sconfig r = (Returns DECLINED, [])
         \<and> mapToStorage h config r = (Returns DECLINED, r)"
  using getBaseURI_no_slash [OF assms, of h config]
  by (simp add: handleRequest_def mapToStorage_def forwardToApplication_def)

theorem no_slash_declined_witness:
  "getBaseURI unreadableHost exampleConfig (exampleRequest\<lparr>uri := ''users''\<rparr>) newDirectoryMapper =
           (Returns None, newDirectoryMapper\<lparr>baseURIKnown := True\<rparr>)
   \<and> handleRequest unreadableHost exampleConfig exampleServerConfig (exampleRequest\<lparr>uri := ''users''\<rparr>)
         = (Returns DECLINED, [])
   \<and> mapToStorage unreadableHost exampleConfig (exampleRequest\<lparr>uri := ''users''\<rparr>)
         = (Returns DECLINED, exampleRequest\<lparr>uri := ''users''\<rparr>)"
proof -
  have "uri (exampleRequest\<lparr>uri := ''users''\<rparr>) = []
        \<or> hd (uri (exampleRequest\<lparr>uri := ''users''\<rparr>)) \<noteq> CHR ''/''"
    by simp
  from no_slash_declined [OF this] show ?thesis
    by blast
qed

theorem getPublicDirectory_spec_witness:
  "getPublicDirectory exampleHost (exampleConfig\<lparr>railsBaseURIs := [''/blog'', ''/users'']\<rparr>)
     exampleRequest newDirectoryMapper =
     (Returns ''/var/www/app/public/users'',
      \<lparr>baseURIKnown = True, baseURI = Some ''/users'', appType = RAILS\<rparr>)"
proof -
  have g: "getBaseURI exampleHost (exampleConfig\<lparr>railsBaseURIs := [''/blog'', ''/users'']\<rparr>)
             exampleRequest newDirectoryMapper =
           (Returns (Some ''/users''),
            \<lparr>baseURIKnown = True, baseURI = Some ''/users'', appType = RAILS\<rparr>)"
    by (simp add: getBaseURI_def exampleConfig_def exampleRequest_def newDirectoryMapper_def
        memcmp_eq_def c_str_def NUL_def)
  show ?thesis
    using getPublicDirectory_spec [OF g]
    by (simp add: spec_publicDir_def exampleHost_def)
qed


section \<open>The CGI variables\<close>

lemma in_addHeader:
  "(x \<in> set (addHeader t k v)) = (x \<in> set t \<or> (k \<noteq> None \<and> v \<noteq> None \<and> x = (k, v)))"
  by (auto simp: addHeader_def apr_table_addn_def)

lemma addHeader_tableOf:
  "\<exists>hs. t = tableOf hs \<Longrightarrow> \<exists>hs. addHeader t k v = tableOf hs"
proof -
  assume "\<exists>hs. t = tableOf hs"
  then obtain hs where t: "t = tableOf hs" ..
  show ?thesis
  proof (cases "k \<noteq> None \<and> v \<noteq> None")
    case True
    then obtain k' v' where "k = Some k'" and "v = Some v'" by auto
    with t have "addHeader t k v = tableOf (hs @ [(k', v')])"
      by (simp add: addHeader_def apr_table_addn_def tableOf_def)
    then show ?thesis ..
  next
    case False
    with t have "addHeader t k v = tableOf hs"
      by (auto simp: addHeader_def)
    then show ?thesis ..
  qed
qed

lemma empty_tableOf: "\<exists>hs. [] = tableOf hs"
  by (rule exI [of _ "[]"]) (simp add: tableOf_def)

lemma if_tableOf:
  "\<exists>hs. a = tableOf hs \<Longrightarrow> \<exists>hs. b = tableOf hs \<Longrightarrow> \<exists>hs. (if c then a else b) = tableOf hs"
  by simp

lemma standardVariables_tableOf: "\<exists>hs. standardVariables h r base = tableOf hs"
  unfolding standardVariables_def Let_def
  by (intro addHeader_tableOf if_tableOf empty_tableOf)

lemma addHttpHeaders_tableOf:
  "\<exists>hs. t = tableOf hs \<Longrightarrow> \<exists>hs. addHttpHeaders hdrs t = tableOf hs"
proof (induction hdrs arbitrary: t)
  case Nil
  then show ?case by simp
next
  case (Cons e hdrs)
  obtain k v where e: "e = (k, v)" by (cases e)
  show ?case
  proof (cases k)
    case None
    with e Cons show ?thesis by simp
  next
    case (Some k')
    with e Cons.IH [OF addHeader_tableOf [OF Cons.prems]] show ?thesis by simp
  qed
qed

lemma addEnvironment_tableOf:
  "\<exists>hs. t = tableOf hs \<Longrightarrow> \<exists>hs. addEnvironment env t = tableOf hs"
proof (induction env arbitrary: t)
  case Nil
  then show ?case by simp
next
  case (Cons e env)
  obtain k v where e: "e = (k, v)" by (cases e)
  with Cons.IH [OF addHeader_tableOf [OF Cons.prems]] show ?case by simp
qed

lemma headersTable_tableOf: "\<exists>hs. headersTable h r base = tableOf hs"
  unfolding headersTable_def
  by (intro addEnvironment_tableOf addHttpHeaders_tableOf standardVariables_tableOf)

lemma headerBuffer_tableOf: "headerBuffer (tableOf hs) \<noteq> None"
  by (simp add: headerBuffer_def appendEntries_tableOf)

lemma tableOf_present: "list_all (\<lambda>(k, v). k \<noteq> None \<and> v \<noteq> None) (tableOf hs)"
  by (induction hs) (auto simp: tableOf_def)

lemma remote_user_entry:
  "((Some ''REMOTE_USER'', v) \<in> set (standardVariables h r base)) = (v \<noteq> None \<and> user r = v)"
  unfolding standardVariables_def Let_def
  by (auto simp: in_addHeader)

lemma https_entry:
  "((Some ''HTTPS'', v) \<in> set (standardVariables h r base)) = (v \<noteq> None \<and> lookupEnv r ''HTTPS'' = v)"
  unfolding standardVariables_def Let_def
  by (auto simp: in_addHeader)

lemma content_type_entry:
  "((Some ''CONTENT_TYPE'', v) \<in> set (standardVariables h r base))
     = (v \<noteq> None \<and> lookupHeader r ''Content-type'' = v)"
  unfolding standardVariables_def Let_def
  by (auto simp: in_addHeader)

text \<open>
  C9. For every request, \<open>sendHeaders\<close> omits any variable whose value is NULL: every
  entry of the table it serializes has a name and a value (the table is that of a list
  of pairs of strings), so the payload is built without reading a NULL pointer; and among
  the standard variables an entry named \<open>REMOTE_USER\<close>, \<open>HTTPS\<close> or \<open>CONTENT_TYPE\<close>
  exists only with the value of \<open>r->user\<close>, of the \<open>HTTPS\<close> entry of the subprocess
  environment, or of the \<open>Content-type\<close> request header, and only when that value is not
  NULL.
\<close>

theorem null_values_omitted:
  "(\<exists>hs. headersTable h r base = tableOf hs
          \<and> sendHeaders h r base = headerBuffer (tableOf hs)
          \<and> headerBuffer (tableOf hs) \<noteq> None)
   \<and> list_all (\<lambda>(k, v). k \<noteq> None \<and> v \<noteq> None) (headersTable h r base)
   \<and> (((Some ''REMOTE_USER'', v1) \<in> set (standardVariables h r base))
          = (v1 \<noteq> None \<and> user r = v1))
   \<and> (((Some ''HTTPS'', v2) \<in> set (standardVariables h r base))
          = (v2 \<noteq> None \<and> lookupEnv r ''HTTPS'' = v2))
   \<and> (((Some ''CONTENT_TYPE'', v3) \<in> set (standardVariables h r base))
          = (v3 \<noteq> None \<and> lookupHeader r ''Content-type'' = v3))"
proof -
  obtain hs where t: "headersTable h r base = tableOf hs"
    using headersTable_tableOf by blast
  have a: "\<exists>hs. headersTable h r base = tableOf hs
               \<and> sendHeaders h r base = headerBuffer (tableOf hs)
               \<and> headerBuffer (tableOf hs) \<noteq> None"
    using t headerBuffer_tableOf [of hs] by (auto simp: sendHeaders_def)
  have b: "list_all (\<lambda>(k, v). k \<noteq> None \<and> v \<noteq> None) (headersTable h r base)"
    using t tableOf_present [of hs] by simp
  show ?thesis
    by (intro conjI a b remote_user_entry https_entry content_type_entry)
qed

theorem null_values_omitted_witness:
  "sendHeaders exampleHost exampleRequest ''/'' \<noteq> None
   \<and> \<not> (\<exists>v. (Some ''REMOTE_USER'', v) \<in> set (standardVariables exampleHost exampleRequest ''/''))
   \<and> \<not> (\<exists>v. (Some ''HTTPS'', v) \<in> set (standardVariables exampleHost exampleRequest ''/''))
   \<and> \<not> (\<exists>v. (Some ''CONTENT_TYPE'', v) \<in> set (standardVariables exampleHost exampleRequest ''/''))"
proof -
  have u: "user exampleRequest = None"
    and e: "lookupEnv exampleRequest ''HTTPS'' = None"
    and c: "lookupHeader exampleRequest ''Content-type'' = None"
    by (simp_all add: exampleRequest_def lookupEnv_def lookupHeader_def strcasecmp_eq_def
        apr_tolower_def)
  note t = null_values_omitted [of exampleHost exampleRequest "''/''", unfolded u e c]
  have 1: "sendHeaders exampleHost exampleRequest ''/'' \<noteq> None"
    using t [THEN conjunct1] by auto
  have 2: "\<not> (\<exists>v. (Some ''REMOTE_USER'', v) \<in> set (standardVariables exampleHost exampleRequest ''/''))"
    using t [THEN conjunct2, THEN conjunct2, THEN conjunct1] by auto
  have 3: "\<not> (\<exists>v. (Some ''HTTPS'', v) \<in> set (standardVariables exampleHost exampleRequest ''/''))"
    using t [THEN conjunct2, THEN conjunct2, THEN conjunct2, THEN conjunct1] by auto
  have 4: "\<not> (\<exists>v. (Some ''CONTENT_TYPE'', v) \<in> set (standardVariables exampleHost exampleRequest ''/''))"
    using t [THEN conjunct2, THEN conjunct2, THEN conjunct2, THEN conjunct2] by auto
  from 1 2 3 4 show ?thesis by (intro conjI)
qed


section \<open>The static-file shortcut\<close>

lemma html_file_eq:
  "(if length f > 0 \<and> f ! (length f - 1) = CHR ''/'' then f @ ''index.html'' else f @ ''.html'')
     = spec_htmlFile f"
  by (cases "f = []") (simp_all add: spec_htmlFile_def last_conv_nth)

lemma forwardToApplication_cases:
  assumes "filename r = Some f"
  shows "forwardToApplication h r (Some b) =
           (case fileExists h f of
              Throws e \<Rightarrow> Throws e
            | Undefined \<Rightarrow> Undefined
            | Returns True \<Rightarrow> Returns (False, r)
            | Returns False \<Rightarrow>
                if method_number r = M_GET
                then (case fileExists h (spec_htmlFile f) of
                        Throws e \<Rightarrow> Throws e
                      | Undefined \<Rightarrow> Undefined
                      | Returns True \<Rightarrow>
                          Returns (False, r\<lparr>filename := Some (spec_htmlFile f),
                                             canonical_filename := Some (spec_htmlFile f)\<rparr>)
                      | Returns False \<Rightarrow> Returns (True, r))
                else Returns (True, r))"
proof (cases "fileExists h f")
  case (Returns x)
  show ?thesis
  proof (cases x)
    case True
    with Returns assms show ?thesis
      by (simp add: forwardToApplication_def)
  next
    case False
    with Returns assms show ?thesis
      unfolding forwardToApplication_def Let_def html_file_eq
      by simp
  qed
next
  case (Throws e)
  with assms show ?thesis
    by (simp add: forwardToApplication_def)
next
  case Undefined
  with assms show ?thesis
    by (simp add: forwardToApplication_def)
qed

lemma mapToStorage_not_forwarded:
  assumes "getBaseURI h config r newDirectoryMapper = (Returns (Some b), m)"
    and "forwardToApplication h r (Some b) = Returns (False, r')"
  shows "mapToStorage h config r = (Returns DECLINED, r')"
  using assms by (simp add: mapToStorage_def)

lemma getBaseURI_filename:
  "getBaseURI h config (r\<lparr>filename := f, canonical_filename := c\<rparr>) m =
     getBaseURI h config r m"
  by (simp add: getBaseURI_def split: option.splits)

lemma handleRequest_existing:
  assumes "getBaseURI h config r newDirectoryMapper = (Returns (Some b), m)"
    and "filename r = Some f" and "fileExists h f = Returns True"
  shows "handleRequest h config sconfig r = (Returns DECLINED, [])"
  using assms by (simp add: handleRequest_def)


section \<open>Filesystem errors\<close>

lemma responseBody_append: "responseBody (tr @ ev) = responseBody tr @ responseBody ev"
  by (induction tr rule: responseBody.induct) simp_all

lemma responseContentType_append:
  "responseContentType (tr @ ev) =
     (case responseContentType ev of None \<Rightarrow> responseContentType tr | Some t \<Rightarrow> Some t)"
  by (induction tr rule: responseContentType.induct) (simp_all split: option.splits)

lemma getPublicDirectory_returns:
  assumes "getBaseURI h config r newDirectoryMapper = (Returns b, m)"
  shows "getPublicDirectory h config r m = (Returns (spec_publicDir (ap_document_root h) b), m)"
  using getPublicDirectory_known [of m h config r] getBaseURI_known [OF assms] by simp

lemma handleRequest_probe_throws:
  assumes "getBaseURI h config r newDirectoryMapper = (Throws e, m)"
  shows "handleRequest h config sconfig r = (Throws e, [])"
  using assms by (simp add: handleRequest_def)

lemma reportFileSystemError_body:
  "responseBody (snd (reportFileSystemError h what code fname tr)) =
     responseBody tr
     @ ''<h1>Passenger error #2</h1>\<newline>An error occurred while trying to access ''
     @ [CHR 0x27] @ ap_escape_html h (c_str fname) @ [CHR 0x27] @ '': '' @ ap_escape_html h what
     @ (if code = EPERM
        then ''<p>Apache doesn't have read permissions to that file. Please fix the relevant file permissions.</p>''
        else [])"
  by (simp add: reportFileSystemError_def responseBody_append)

text \<open>
  What the handler of lines 641-643 would answer: \<open>reportFileSystemError\<close> sets the
  content type \<open>text/html; charset=UTF-8\<close>, writes a diagnostic naming the file and the
  error (both HTML-escaped), which ends with a hint about Apache's read permissions
  exactly when the error code is \<open>EPERM\<close>, and returns \<open>OK\<close>, not 500.
\<close>

lemma reportFileSystemError_response:
  "fst (reportFileSystemError h what code fname tr) = Returns OK
   \<and> OK \<noteq> HTTP_INTERNAL_SERVER_ERROR
   \<and> responseContentType (snd (reportFileSystemError h what code fname tr))
       = Some ''text/html; charset=UTF-8''
   \<and> responseBody (snd (reportFileSystemError h what code fname tr)) =
       responseBody tr
       @ ''<h1>Passenger error #2</h1>\<newline>An error occurred while trying to access ''
       @ [CHR 0x27] @ ap_escape_html h (c_str fname) @ [CHR 0x27] @ '': '' @ ap_escape_html h what
       @ (if code = EPERM
          then ''<p>Apache doesn't have read permissions to that file. Please fix the relevant file permissions.</p>''
          else [])"
proof (intro conjI)
  show "fst (reportFileSystemError h what code fname tr) = Returns OK"
    by (simp add: reportFileSystemError_def)
  show "OK \<noteq> HTTP_INTERNAL_SERVER_ERROR"
    by (simp add: OK_def HTTP_INTERNAL_SERVER_ERROR_def)
  show "responseContentType (snd (reportFileSystemError h what code fname tr))
       = Some ''text/html; charset=UTF-8''"
    by (simp add: reportFileSystemError_def responseContentType_append)
  show "responseBody (snd (reportFileSystemError h what code fname tr)) =
       responseBody tr
       @ ''<h1>Passenger error #2</h1>\<newline>An error occurred while trying to access ''
       @ [CHR 0x27] @ ap_escape_html h (c_str fname) @ [CHR 0x27] @ '': '' @ ap_escape_html h what
       @ (if code = EPERM
          then ''<p>Apache doesn't have read permissions to that file. Please fix the relevant file permissions.</p>''
          else [])"
    by (rule reportFileSystemError_body)
qed

lemma reportFileSystemError_example:
  "fst (reportFileSystemError exampleHost ''Cannot stat <file>'' EPERM ''/srv/a&b'' []) = Returns OK
   \<and> responseBody (snd (reportFileSystemError exampleHost ''Cannot stat <file>'' EPERM ''/srv/a&b'' [])) =
       ''<h1>Passenger error #2</h1>\<newline>An error occurred while trying to access ''
       @ [CHR 0x27] @ ''/srv/a&amp;b'' @ [CHR 0x27] @ '': Cannot stat &lt;file&gt;''
       @ ''<p>Apache doesn't have read permissions to that file. Please fix the relevant file permissions.</p>''"
  using reportFileSystemError_response [of exampleHost "''Cannot stat <file>''" EPERM "''/srv/a&b''" "[]"]
  by (simp add: exampleHost_def exampleEscape_def c_str_def NUL_def)

lemma handleRequest_fileExists_throws:
  assumes "getBaseURI h config r newDirectoryMapper = (Returns (Some b), m)"
    and "filename r = Some f" and "fileExists h f = Throws e"
  shows "handleRequest h config sconfig r = (Throws e, [])"
  using assms by (simp add: handleRequest_def)

lemma handleRequest_forward:
  assumes "getBaseURI h config r newDirectoryMapper = (Returns (Some base), m)"
    and "filename r = Some fname" and "fileExists h fname = Returns False"
  shows "handleRequest h config sconfig r =
           (if spec_publicDir (ap_document_root h) (Some base) = []
            then reportDocumentRootDeterminationError []
            else if ap_setup_client_block h \<noteq> OK
            then (Returns (ap_setup_client_block h), [])
            else catchAll (forwardRequest h config sconfig r m []))"
  using assms(2,3) getPublicDirectory_returns [OF assms(1)]
  by (simp add: handleRequest_def assms(1))

text \<open>
  C4. What \<open>handleRequest\<close> does with a filesystem error raised while the request is
  classified. The probes of the filesystem are those of \<open>mapper.getBaseURI()\<close> and
  \<open>fileExists(r->filename)\<close> in the test of line 633, which stands before the try block of
  lines 637-643: an exception of either leaves \<open>handleRequest\<close>, and no response is
  written. The only call inside the try block, \<open>mapper.getPublicDirectory()\<close>, returns the
  public directory of the base already resolved and throws nothing, so that a request
  that reaches the try block gets the report on the document root, the status of
  \<open>ap_setup_client_block\<close> or the result of forwarding it, and
  \<open>reportFileSystemError\<close> is called for no request.
\<close>

theorem fs_error_escapes:
  "(getBaseURI h config r newDirectoryMapper = (Throws e, m) \<longrightarrow>
      handleRequest h config sconfig r = (Throws e, []))
   \<and> (getBaseURI h config r newDirectoryMapper = (Returns (Some b), m)
       \<and> filename r = Some f \<and> fileExists h f = Throws e \<longrightarrow>
      handleRequest h config sconfig r = (Throws e, []))
   \<and> (getBaseURI h config r newDirectoryMapper = (Returns (Some b), m)
       \<and> filename r = Some f \<and> fileExists h f = Returns False \<longrightarrow>
      getPublicDirectory h config r m = (Returns (spec_publicDir (ap_document_root h) (Some b)), m)
      \<and> handleRequest h config sconfig r =
           (if spec_publicDir (ap_document_root h) (Some b) = []
            then reportDocumentRootDeterminationError []
            else if ap_setup_client_block h \<noteq> OK
            then (Returns (ap_setup_client_block h), [])
            else catchAll (forwardRequest h config sconfig r m [])))"
proof (intro conjI impI)
  assume "getBaseURI h config r newDirectoryMapper = (Throws e, m)"
  then show "handleRequest h config sconfig r = (Throws e, [])"
    by (rule handleRequest_probe_throws)
next
  assume a: "getBaseURI h config r newDirectoryMapper = (Returns (Some b), m)
             \<and> filename r = Some f \<and> fileExists h f = Throws e"
  show "handleRequest h config sconfig r = (Throws e, [])"
    by (rule handleRequest_fileExists_throws [OF a [THEN conjunct1]
          a [THEN conjunct2, THEN conjunct1] a [THEN conjunct2, THEN conjunct2]])
next
  assume a: "getBaseURI h config r newDirectoryMapper = (Returns (Some b), m)
             \<and> filename r = Some f \<and> fileExists h f = Returns False"
  show "getPublicDirectory h config r m = (Returns (spec_publicDir (ap_document_root h) (Some b)), m)"
    by (rule getPublicDirectory_returns [OF a [THEN conjunct1]])
  show "handleRequest h config sconfig r =
           (if spec_publicDir (ap_document_root h) (Some b) = []
            then reportDocumentRootDeterminationError []
            else if ap_setup_client_block h \<noteq> OK
            then (Returns (ap_setup_client_block h), [])
            else catchAll (forwardRequest h config sconfig r m []))"
    by (rule handleRequest_forward [OF a [THEN conjunct1]
          a [THEN conjunct2, THEN conjunct1] a [THEN conjunct2, THEN conjunct2]])
qed

theorem fs_error_escapes_witness:
  "handleRequest unreadableHost (exampleConfig\<lparr>railsBaseURIs := []\<rparr>) exampleServerConfig postRequest
     = (Throws (FileSystemException ''Cannot stat the Rails environment file'' EPERM
                  ''/var/www/app/public//../config/environment.rb''), [])
   \<and> handleRequest unstatableHost exampleConfig exampleServerConfig exampleRequest
     = (Throws (FileSystemException ''Cannot stat file'' EPERM ''/var/www/app/public/users''), [])
   \<and> getPublicDirectory exampleHost exampleConfig exampleRequest
        \<lparr>baseURIKnown = True, baseURI = Some ''/'', appType = RAILS\<rparr>
     = (Returns ''/var/www/app/public'', \<lparr>baseURIKnown = True, baseURI = Some ''/'', appType = RAILS\<rparr>)"
proof -
  let ?m = "\<lparr>baseURIKnown = True, baseURI = Some ''/'', appType = RAILS\<rparr>"
  let ?e1 = "FileSystemException ''Cannot stat the Rails environment file'' EPERM
               ''/var/www/app/public//../config/environment.rb''"
  let ?e2 = "FileSystemException ''Cannot stat file'' EPERM ''/var/www/app/public/users''"
  have g1: "getBaseURI unreadableHost (exampleConfig\<lparr>railsBaseURIs := []\<rparr>) postRequest newDirectoryMapper
     = (Throws ?e1, newDirectoryMapper)"
    by (simp add: getBaseURI_def exampleConfig_def postRequest_def exampleRequest_def
        newDirectoryMapper_def autoDetect_def shouldAutoDetectRails_def unreadableHost_def
        exampleHost_def)
  have g2: "getBaseURI unstatableHost exampleConfig exampleRequest newDirectoryMapper
     = (Returns (Some ''/''), ?m)"
    and g3: "getBaseURI exampleHost exampleConfig exampleRequest newDirectoryMapper
     = (Returns (Some ''/''), ?m)"
    by (simp_all add: getBaseURI_def exampleConfig_def exampleRequest_def newDirectoryMapper_def
        c_str_def NUL_def)
  have f: "filename exampleRequest = Some ''/var/www/app/public/users''"
    by (simp add: exampleRequest_def)
  have t: "fileExists unstatableHost ''/var/www/app/public/users'' = Throws ?e2"
    by (simp add: unstatableHost_def)
  have n: "fileExists exampleHost ''/var/www/app/public/users'' = Returns False"
    by (simp add: exampleHost_def)
  have d: "spec_publicDir (ap_document_root exampleHost) (Some ''/'') = ''/var/www/app/public''"
    by (simp add: spec_publicDir_def exampleHost_def)
  have 1: "handleRequest unreadableHost (exampleConfig\<lparr>railsBaseURIs := []\<rparr>) exampleServerConfig
             postRequest = (Throws ?e1, [])"
    using fs_error_escapes [THEN conjunct1, of unreadableHost "exampleConfig\<lparr>railsBaseURIs := []\<rparr>"
        postRequest ?e1 newDirectoryMapper exampleServerConfig] g1
    by simp
  have 2: "handleRequest unstatableHost exampleConfig exampleServerConfig exampleRequest
             = (Throws ?e2, [])"
    using fs_error_escapes [THEN conjunct2, THEN conjunct1, of unstatableHost exampleConfig
        exampleRequest "''/''" ?m "''/var/www/app/public/users''" ?e2 exampleServerConfig] g2 f t
    by simp
  have 3: "getPublicDirectory exampleHost exampleConfig exampleRequest ?m
             = (Returns ''/var/www/app/public'', ?m)"
    using fs_error_escapes [THEN conjunct2, THEN conjunct2, of exampleHost exampleConfig
        exampleRequest "''/''" ?m "''/var/www/app/public/users''" exampleServerConfig] g3 f n d
    by simp
  from 1 2 3 show ?thesis by (intro conjI)
qed

text \<open>
  C4 at a probe that fails. The configuration names no base URI, so that \<open>getBaseURI\<close>
  probes the document root, and the probe for a Rails application throws a
  \<open>FileSystemException\<close> with code \<open>EPERM\<close>. \<open>handleRequest\<close> gives no response, with
  status 500 or any other: the call of line 633 stands before the try block, and the
  exception leaves the function. The handler itself, had it been run on that exception,
  returns \<open>OK\<close> and not 500.
\<close>

theorem fs_error_status_counterexample:
  "handleRequest unreadableHost (exampleConfig\<lparr>railsBaseURIs := []\<rparr>) exampleServerConfig exampleRequest
     = (Throws (FileSystemException ''Cannot stat the Rails environment file'' EPERM
                  ''/var/www/app/public//../config/environment.rb''), [])
   \<and> fst (reportFileSystemError unreadableHost ''Cannot stat the Rails environment file'' EPERM
            ''/var/www/app/public//../config/environment.rb'' []) = Returns OK
   \<and> OK \<noteq> HTTP_INTERNAL_SERVER_ERROR"
proof -
  have "getBaseURI unreadableHost (exampleConfig\<lparr>railsBaseURIs := []\<rparr>) exampleRequest newDirectoryMapper
     = (Throws (FileSystemException ''Cannot stat the Rails environment file'' EPERM
                  ''/var/www/app/public//../config/environment.rb''), newDirectoryMapper)"
    by (simp add: getBaseURI_def exampleConfig_def exampleRequest_def newDirectoryMapper_def
        autoDetect_def shouldAutoDetectRails_def unreadableHost_def exampleHost_def)
  from handleRequest_probe_throws [OF this] show ?thesis
    by (simp add: reportFileSystemError_def OK_def HTTP_INTERNAL_SERVER_ERROR_def)
qed


section \<open>Forwarding a request: uploads, the pool and its failures\<close>

lemma emits_same: "emits P (x, tr) tr"
  by (simp add: emits_def)

lemma emits_more: "list_all P ev \<Longrightarrow> emits P (x, tr @ ev) tr"
  by (simp add: emits_def)

lemma emits_trans:
  "emits P (x, tr1) tr \<Longrightarrow> emits P res tr1 \<Longrightarrow> emits P res tr"
  by (auto simp: emits_def)

lemma emits_andThen:
  assumes "emits P m tr" and "\<And>a tr1. emits P (f a tr1) tr1"
  shows "emits P (andThen m f) tr"
proof (cases m)
  case (Pair x tr1)
  with assms(1) have 1: "emits P (x, tr1) tr" by simp
  show ?thesis
  proof (cases x)
    case (Returns a)
    with Pair have "andThen m f = f a tr1" by (simp add: andThen_def)
    with emits_trans [OF 1 assms(2) [of a tr1]] show ?thesis by simp
  next
    case (Throws e)
    with Pair 1 show ?thesis by (simp add: andThen_def emits_def)
  next
    case Undefined
    with Pair 1 show ?thesis by (simp add: andThen_def emits_def)
  qed
qed


lemma writeBlock_step:
  assumes "ret = min (length buf - written) (fwrite h (length tmp) (length buf - written))"
  shows "writeBlock h buf written tmp tr =
           (if ret = 0
            then (Throws (SystemException
                    ''An error occured while writing HTTP upload data to a temporary file''
                    (fwrite_errno h)), tr)
            else if written + ret < length buf
            then writeBlock h buf (written + ret) (tmp @ take ret buf)
                   (tr @ [TempFileWrite (take ret buf)])
            else (Returns (tmp @ take ret buf), tr @ [TempFileWrite (take ret buf)]))"
  unfolding assms by (subst writeBlock.simps) (simp only: Let_def)

text \<open>
  When the loop ends, the calls of \<open>fwrite\<close> have appended to the temporary file as many
  bytes as were still to be written.
\<close>

lemma writeBlock_writes:
  "writeBlock h buf written tmp tr = (Returns tmp', tr') \<Longrightarrow> written < length buf \<Longrightarrow>
     \<exists>ws. tmp' = tmp @ concat ws \<and> tr' = tr @ map TempFileWrite ws
          \<and> length (concat ws) = length buf - written"
proof (induction h buf written tmp tr rule: writeBlock.induct)
  case (1 h buf written tmp tr)
  define ret where "ret = min (length buf - written) (fwrite h (length tmp) (length buf - written))"
  note step = writeBlock_step [OF ret_def, of tr]
  have le: "ret \<le> length buf - written"
    by (simp add: ret_def)
  show ?case
  proof (cases "ret = 0")
    case True
    with "1.prems"(1) show ?thesis
      by (simp add: step)
  next
    case False
    show ?thesis
    proof (cases "written + ret < length buf")
      case True
      with False "1.prems"(1)
      have "writeBlock h buf (written + ret) (tmp @ take ret buf)
              (tr @ [TempFileWrite (take ret buf)]) = (Returns tmp', tr')"
        by (simp add: step)
      from "1.IH" [OF ret_def False True this True] obtain ws
        where a: "tmp' = (tmp @ take ret buf) @ concat ws"
          and b: "tr' = (tr @ [TempFileWrite (take ret buf)]) @ map TempFileWrite ws"
          and c: "length (concat ws) = length buf - (written + ret)"
        by blast
      from a b c le "1.prems"(2)
      have "tmp' = tmp @ concat (take ret buf # ws)
            \<and> tr' = tr @ map TempFileWrite (take ret buf # ws)
            \<and> length (concat (take ret buf # ws)) = length buf - written"
        by simp
      then show ?thesis by (rule exI)
    next
      case last: False
      with le "1.prems"(2) have r: "ret = length buf - written" by simp
      from False last "1.prems"(1)
      have "tmp' = tmp @ take ret buf" and "tr' = tr @ [TempFileWrite (take ret buf)]"
        by (simp_all add: step)
      with r "1.prems"(2)
      have "tmp' = tmp @ concat [take ret buf]
            \<and> tr' = tr @ map TempFileWrite [take ret buf]
            \<and> length (concat [take ret buf]) = length buf - written"
        by simp
      then show ?thesis by (rule exI)
    qed
  qed
qed

text \<open>
  When every call of \<open>fwrite\<close> writes all it is given or nothing, a block is written by one
  call, as it was received.
\<close>

lemma writeBlock_returns:
  assumes "\<And>pos n. fwrite h pos n = 0 \<or> n \<le> fwrite h pos n"
    and "writeBlock h buf 0 tmp tr = (Returns tmp', tr')" and "buf \<noteq> []"
  shows "tmp' = tmp @ buf \<and> tr' = tr @ [TempFileWrite buf]"
proof -
  define ret where "ret = min (length buf - 0) (fwrite h (length tmp) (length buf - 0))"
  note step = writeBlock_step [OF ret_def, of tr]
  from assms(1) [of "length tmp" "length buf"] have "ret = 0 \<or> ret = length buf"
    by (auto simp: ret_def)
  then show ?thesis
  proof
    assume "ret = 0"
    with assms(2) show ?thesis by (simp add: step)
  next
    assume "ret = length buf"
    with assms(2,3) show ?thesis by (simp add: step)
  qed
qed

lemma writeBlock_emits: "emits isTempFileEvent (writeBlock h buf written tmp tr) tr"
proof (induction h buf written tmp tr rule: writeBlock.induct)
  case (1 h buf written tmp tr)
  define ret where "ret = min (length buf - written) (fwrite h (length tmp) (length buf - written))"
  note step = writeBlock_step [OF ret_def, of tr]
  show ?case
  proof (cases "ret = 0")
    case True
    then show ?thesis
      by (simp add: step emits_same)
  next
    case False
    show ?thesis
    proof (cases "written + ret < length buf")
      case True
      have "emits isTempFileEvent (Returns (), tr @ [TempFileWrite (take ret buf)]) tr"
        by (rule emits_more) simp
      from emits_trans [OF this "1.IH" [OF ret_def False True]] False True show ?thesis
        by (simp add: step)
    next
      case True': False
      have "emits isTempFileEvent
              (Returns (tmp @ take ret buf), tr @ [TempFileWrite (take ret buf)]) tr"
        by (rule emits_more) simp
      with False True' show ?thesis
        by (simp add: step)
    qed
  qed
qed

lemma receiveBlocks_emits: "emits isTempFileEvent (receiveBlocks h blocks tmp tr) tr"
proof (induction blocks arbitrary: tmp tr)
  case Nil
  show ?case by (simp add: emits_same)
next
  case (Cons buf rest)
  show ?case
  proof (cases "buf = []")
    case True
    then show ?thesis by (simp add: emits_same)
  next
    case False
    then show ?thesis
      by (simp add: emits_andThen [OF writeBlock_emits Cons])
  qed
qed

lemma receiveBlocks_writes:
  "receiveBlocks h blocks tmp tr = (Returns (tmp', len), tr') \<Longrightarrow>
     \<exists>ws. tmp' = tmp @ concat ws \<and> tr' = tr @ map TempFileWrite ws
          \<and> length (concat ws) = length (concat (takeWhile (\<lambda>buf. buf \<noteq> []) blocks))"
proof (induction blocks arbitrary: tmp tr)
  case Nil
  then have "tmp' = tmp @ concat [] \<and> tr' = tr @ map TempFileWrite []
             \<and> length (concat ([] :: string list)) = length (concat (takeWhile (\<lambda>buf. buf \<noteq> []) ([] :: string list)))"
    by simp
  then show ?case by (rule exI)
next
  case (Cons buf rest)
  show ?case
  proof (cases "buf = []")
    case True
    with Cons.prems
    have "tmp' = tmp @ concat [] \<and> tr' = tr @ map TempFileWrite []
          \<and> length (concat ([] :: string list)) = length (concat (takeWhile (\<lambda>buf. buf \<noteq> []) (buf # rest)))"
      by simp
    then show ?thesis by (rule exI)
  next
    case False
    obtain x tr1 where w: "writeBlock h buf 0 tmp tr = (x, tr1)"
      by (cases "writeBlock h buf 0 tmp tr")
    with Cons.prems False obtain tmp1 where x: "x = Returns tmp1"
      by (cases x) (simp_all add: andThen_def)
    from False have "0 < length buf" by simp
    from writeBlock_writes [OF w [unfolded x] this] obtain ws1
      where f1: "tmp1 = tmp @ concat ws1" and t1: "tr1 = tr @ map TempFileWrite ws1"
        and l1: "length (concat ws1) = length buf"
      by auto
    from Cons.prems False w x
    have "receiveBlocks h rest tmp1 tr1 = (Returns (tmp', len), tr')"
      by (simp add: andThen_def)
    from Cons.IH [OF this] obtain ws2
      where f2: "tmp' = tmp1 @ concat ws2" and t2: "tr' = tr1 @ map TempFileWrite ws2"
        and l2: "length (concat ws2) = length (concat (takeWhile (\<lambda>buf. buf \<noteq> []) rest))"
      by blast
    from f1 t1 l1 f2 t2 l2 False
    have "tmp' = tmp @ concat (ws1 @ ws2) \<and> tr' = tr @ map TempFileWrite (ws1 @ ws2)
          \<and> length (concat (ws1 @ ws2)) = length (concat (takeWhile (\<lambda>buf. buf \<noteq> []) (buf # rest)))"
      by simp
    then show ?thesis by (rule exI)
  qed
qed

lemma receiveBlocks_returns:
  assumes "\<And>pos n. fwrite h pos n = 0 \<or> n \<le> fwrite h pos n"
  shows "receiveBlocks h blocks tmp tr = (Returns (tmp', len), tr') \<Longrightarrow>
     tmp' = tmp @ concat (takeWhile (\<lambda>buf. buf \<noteq> []) blocks)
     \<and> tr' = tr @ map TempFileWrite (takeWhile (\<lambda>buf. buf \<noteq> []) blocks)"
proof (induction blocks arbitrary: tmp tr)
  case Nil
  then show ?case by simp
next
  case (Cons buf rest)
  show ?case
  proof (cases "buf = []")
    case True
    with Cons.prems show ?thesis by simp
  next
    case False
    obtain x tr1 where w: "writeBlock h buf 0 tmp tr = (x, tr1)"
      by (cases "writeBlock h buf 0 tmp tr")
    with Cons.prems False obtain tmp1 where x: "x = Returns tmp1"
      by (cases x) (simp_all add: andThen_def)
    from writeBlock_returns [OF assms w [unfolded x] False]
    have f1: "tmp1 = tmp @ buf" and t1: "tr1 = tr @ [TempFileWrite buf]" by simp_all
    from Cons.prems False w x
    have "receiveBlocks h rest tmp1 tr1 = (Returns (tmp', len), tr')"
      by (simp add: andThen_def)
    from Cons.IH [OF this] f1 t1 False show ?thesis by simp
  qed
qed

lemma receiveRequestBody_emits: "emits isTempFileEvent (receiveRequestBody h r tr) tr"
proof (cases "TempFile_new h")
  case (Some e)
  then show ?thesis by (simp add: receiveRequestBody_def emits_same)
next
  case None
  have c: "emits isTempFileEvent (Returns (), tr @ [TempFileCreate]) tr"
    by (rule emits_more) simp
  have "emits isTempFileEvent (receiveBlocks h (client_blocks h) [] (tr @ [TempFileCreate])) tr"
    using receiveBlocks_emits emits_trans [OF c] by blast
  then show ?thesis
    unfolding receiveRequestBody_def None option.case
    by (rule emits_andThen) (auto simp: emits_same split: option.splits)
qed

lemma TempFileWrite_blocks: "map TempFileWrite ws = map TempFileWrite bs \<Longrightarrow> ws = bs"
  by (simp add: inj_map_eq_map inj_on_def)

lemma receiveRequestBody_returns:
  assumes "receiveRequestBody h r tr = (Returns tmp, tr')"
  shows "\<exists>ws. tmp = concat ws
         \<and> tr' = tr @ TempFileCreate # map TempFileWrite ws
         \<and> length (concat ws) = length (concat (receivedBlocks h))
         \<and> ((\<forall>pos n. fwrite h pos n = 0 \<or> n \<le> fwrite h pos n) \<longrightarrow> ws = receivedBlocks h)
         \<and> (\<exists>cl. lookupHeader r ''Content-Length'' = Some cl \<and> int (length tmp) = atol h cl)"
proof -
  from assms have n: "TempFile_new h = None"
    by (cases "TempFile_new h") (simp_all add: receiveRequestBody_def)
  obtain x tr1 where rb: "receiveBlocks h (client_blocks h) [] (tr @ [TempFileCreate]) = (x, tr1)"
    by (cases "receiveBlocks h (client_blocks h) [] (tr @ [TempFileCreate])")
  with assms n obtain f len where x: "x = Returns (f, len)"
    by (cases x) (auto simp: receiveRequestBody_def andThen_def)
  from receiveBlocks_writes [OF rb [unfolded x]] obtain ws
    where f: "f = concat ws"
      and t: "tr1 = tr @ TempFileCreate # map TempFileWrite ws"
      and l: "length (concat ws) = length (concat (receivedBlocks h))"
    by (auto simp: receivedBlocks_def)
  have e: "ws = receivedBlocks h" if "\<forall>pos n. fwrite h pos n = 0 \<or> n \<le> fwrite h pos n"
  proof -
    from that have "\<And>pos n. fwrite h pos n = 0 \<or> n \<le> fwrite h pos n" by simp
    from receiveBlocks_returns [OF this rb [unfolded x]] t
    have "map TempFileWrite ws = map TempFileWrite (receivedBlocks h)"
      by (simp add: receivedBlocks_def)
    then show ?thesis by (rule TempFileWrite_blocks)
  qed
  from assms n rb x have "tmp = f \<and> tr' = tr1
      \<and> (\<exists>cl. lookupHeader r ''Content-Length'' = Some cl \<and> int (length f) = atol h cl)"
    by (auto simp: receiveRequestBody_def andThen_def split: if_splits option.splits)
  with f t l e
  have final: "tmp = concat ws
         \<and> tr' = tr @ TempFileCreate # map TempFileWrite ws
         \<and> length (concat ws) = length (concat (receivedBlocks h))
         \<and> ((\<forall>pos n. fwrite h pos n = 0 \<or> n \<le> fwrite h pos n) \<longrightarrow> ws = receivedBlocks h)
         \<and> (\<exists>cl. lookupHeader r ''Content-Length'' = Some cl \<and> int (length tmp) = atol h cl)"
    by simp
  show ?thesis by (rule exI [of _ ws]) (rule final)
qed

lemma bufferUpload_emits: "emits isTempFileEvent (bufferUpload h r tr) tr"
  unfolding bufferUpload_def
  by (auto simp: emits_same intro!: emits_andThen receiveRequestBody_emits split: option.splits)

lemma bufferUpload_small:
  assumes "ap_should_client_block h" and "lookupHeader r ''Content-Length'' = Some cl"
    and "atol h cl \<le> 8192"
  shows "bufferUpload h r tr = (Returns None, tr)"
  using assms by (simp add: bufferUpload_def UPLOAD_ACCELERATION_THRESHOLD_def)

lemma bufferUpload_large:
  assumes "ap_should_client_block h" and "lookupHeader r ''Content-Length'' = Some cl"
    and "atol h cl > 8192" and "bufferUpload h r tr = (Returns uploadData, tr')"
  shows "\<exists>ws. uploadData = Some (concat ws)
         \<and> tr' = tr @ TempFileCreate # map TempFileWrite ws
         \<and> int (length (concat ws)) = atol h cl
         \<and> length (concat ws) = length (concat (receivedBlocks h))
         \<and> ((\<forall>pos n. fwrite h pos n = 0 \<or> n \<le> fwrite h pos n) \<longrightarrow> ws = receivedBlocks h)"
proof -
  obtain x tr1 where rr: "receiveRequestBody h r tr = (x, tr1)"
    by (cases "receiveRequestBody h r tr")
  with assms obtain tmp where x: "x = Returns tmp"
    by (cases x) (simp_all add: bufferUpload_def UPLOAD_ACCELERATION_THRESHOLD_def andThen_def)
  from receiveRequestBody_returns [OF rr [unfolded x]] obtain ws
    where all: "tmp = concat ws
         \<and> tr1 = tr @ TempFileCreate # map TempFileWrite ws
         \<and> length (concat ws) = length (concat (receivedBlocks h))
         \<and> ((\<forall>pos n. fwrite h pos n = 0 \<or> n \<le> fwrite h pos n) \<longrightarrow> ws = receivedBlocks h)
         \<and> (\<exists>cl. lookupHeader r ''Content-Length'' = Some cl \<and> int (length tmp) = atol h cl)" ..
  note a = all [THEN conjunct1]
    and b = all [THEN conjunct2, THEN conjunct1]
    and c = all [THEN conjunct2, THEN conjunct2, THEN conjunct1]
    and d = all [THEN conjunct2, THEN conjunct2, THEN conjunct2, THEN conjunct1]
    and e = all [THEN conjunct2, THEN conjunct2, THEN conjunct2, THEN conjunct2]
  from e assms(2) have f: "int (length tmp) = atol h cl"
    by auto
  from assms rr x have "uploadData = Some tmp \<and> tr' = tr1"
    by (simp add: bufferUpload_def UPLOAD_ACCELERATION_THRESHOLD_def andThen_def)
  then have u: "uploadData = Some (concat ws)" and t: "tr' = tr @ TempFileCreate # map TempFileWrite ws"
    using a b by simp_all
  from f a have l: "int (length (concat ws)) = atol h cl" by simp
  from u t l c d
  have final: "uploadData = Some (concat ws)
         \<and> tr' = tr @ TempFileCreate # map TempFileWrite ws
         \<and> int (length (concat ws)) = atol h cl
         \<and> length (concat ws) = length (concat (receivedBlocks h))
         \<and> ((\<forall>pos n. fwrite h pos n = 0 \<or> n \<le> fwrite h pos n) \<longrightarrow> ws = receivedBlocks h)"
    by (intro conjI)
  show ?thesis by (rule exI [of _ ws]) (rule final)
qed


lemma sessionCall_emits: "isSessionEvent e \<Longrightarrow> emits isSessionEvent (sessionCall h e tr) tr"
  by (cases "session_fault h e") (simp_all add: sessionCall_def emits_same emits_more)

lemma sendBlocks_emits: "emits isSessionEvent (sendBlocks h bs tr) tr"
proof (induction bs arbitrary: tr)
  case Nil
  show ?case by (simp add: emits_same)
next
  case (Cons b bs)
  show ?case
    by (simp add: emits_andThen [OF sessionCall_emits Cons])
qed

lemma sendClientBlocks_emits: "emits isSessionEvent (sendClientBlocks h bs tr) tr"
proof (induction bs arbitrary: tr)
  case Nil
  show ?case by (simp add: emits_same)
next
  case (Cons b bs)
  show ?case
    by (cases "b = []") (simp_all add: emits_same emits_andThen [OF sessionCall_emits Cons])
qed

lemma sendRequestBodyFile_emits: "emits isSessionEvent (sendRequestBodyFile h tmp tr) tr"
  by (simp add: sendRequestBodyFile_def sendBlocks_emits)

lemma sendRequestBodyClient_emits: "emits isSessionEvent (sendRequestBodyClient h tr) tr"
  unfolding sendRequestBodyClient_def
  by (rule emits_andThen [OF sendClientBlocks_emits]) (simp add: emits_same)

lemma fromMapper_emits: "emits P (fromMapper res tr) tr"
  by (cases res rule: prod.exhaust; cases "fst res")
     (auto simp: fromMapper_def emits_same split: outcome.splits)

lemma sendRequest_emits:
  "emits isSessionEvent (sendRequest h config r m session expecting uploadData tr) tr"
  unfolding sendRequest_def
  by (intro emits_andThen sessionCall_emits fromMapper_emits)
     (auto simp: emits_same split: option.splits
           intro!: emits_andThen sessionCall_emits sendRequestBodyFile_emits
                   sendRequestBodyClient_emits emits_more)

lemma tryPoolGet_shape:
  assumes "tryPoolGet h config sconfig r m tr = (res, tr')"
  shows "(tr' = tr \<and> (\<forall>x. res \<noteq> Returns x))
       \<or> (\<exists>a u env sm ts. tr' = tr @ [PoolGet a True u env sm ts]
            \<and> (case pool_get h a True u env sm ts of
                 Returns s \<Rightarrow> (\<exists>m'. res = Returns (s, m'))
               | Throws e \<Rightarrow> res = Throws e
               | Undefined \<Rightarrow> res = Undefined))"
proof (cases "poolGetArguments h config sconfig r m")
  case (Pair x m')
  show ?thesis
  proof (cases x)
    case (Returns args)
    obtain a u env sm ts where args: "args = (a, u, env, sm, ts)"
      by (cases args) auto
    from assms Pair Returns args
    have "tr' = tr @ [PoolGet a True u env sm ts]
          \<and> (case pool_get h a True u env sm ts of
                 Returns s \<Rightarrow> (\<exists>m'. res = Returns (s, m'))
               | Throws e \<Rightarrow> res = Throws e
               | Undefined \<Rightarrow> res = Undefined)"
      by (cases "pool_get h a True u env sm ts") (auto simp: tryPoolGet_def andThen_def)
    then show ?thesis by blast
  next
    case (Throws e)
    with assms Pair show ?thesis by (auto simp: tryPoolGet_def)
  next
    case Undefined
    with assms Pair show ?thesis by (auto simp: tryPoolGet_def)
  qed
qed

lemma catchSpawnBusy_emits: "emits isResponseEvent (catchSpawnBusy e tr) tr"
  by (cases e rule: exception.exhaust)
     (auto simp: catchSpawnBusy_def reportBusyException_def andThen_def emits_same emits_more
           split: option.splits)

lemma acquireSession_shape:
  assumes "acquireSession h config sconfig r m tr = (res, tr')"
  shows "((\<exists>ev. tr' = tr @ ev \<and> list_all isResponseEvent ev) \<and> (\<forall>x. res \<noteq> Returns (Inr x)))
       \<or> (\<exists>a u env sm ts post. tr' = tr @ PoolGet a True u env sm ts # post
            \<and> afterPoolGet (pool_get h a True u env sm ts) res post)"
proof -
  obtain x tr1 where t: "tryPoolGet h config sconfig r m tr = (x, tr1)"
    by (cases "tryPoolGet h config sconfig r m tr")
  from tryPoolGet_shape [OF t] show ?thesis
  proof
    assume a: "tr1 = tr \<and> (\<forall>y. x \<noteq> Returns y)"
    show ?thesis
    proof (cases x)
      case (Returns y)
      with a show ?thesis by simp
    next
      case (Throws e)
      with assms t a have r: "catchSpawnBusy e tr = (res, tr')"
        by (simp add: acquireSession_def)
      from catchSpawnBusy_emits [of e tr] r
      have "\<exists>ev. tr' = tr @ ev \<and> list_all isResponseEvent ev"
        by (simp add: emits_def)
      moreover from r have "\<forall>y. res \<noteq> Returns (Inr y)"
        by (cases e rule: exception.exhaust)
           (auto simp: catchSpawnBusy_def reportBusyException_def andThen_def split: option.splits)
      ultimately show ?thesis by blast
    next
      case Undefined
      with assms t a show ?thesis by (simp add: acquireSession_def)
    qed
  next
    assume "\<exists>a u env sm ts. tr1 = tr @ [PoolGet a True u env sm ts]
            \<and> (case pool_get h a True u env sm ts of
                 Returns s \<Rightarrow> (\<exists>m'. x = Returns (s, m'))
               | Throws e \<Rightarrow> x = Throws e
               | Undefined \<Rightarrow> x = Undefined)"
    then obtain a u env sm ts where t1: "tr1 = tr @ [PoolGet a True u env sm ts]"
      and c: "(case pool_get h a True u env sm ts of
                 Returns s \<Rightarrow> (\<exists>m'. x = Returns (s, m'))
               | Throws e \<Rightarrow> x = Throws e
               | Undefined \<Rightarrow> x = Undefined)"
      by blast
    have "\<exists>post. tr' = tr @ PoolGet a True u env sm ts # post
            \<and> afterPoolGet (pool_get h a True u env sm ts) res post"
    proof (cases "pool_get h a True u env sm ts")
      case (Returns s)
      with c assms t t1 show ?thesis
        by (auto simp: acquireSession_def afterPoolGet_def)
    next
      case (Throws e)
      with c assms t t1 show ?thesis
        by (cases e rule: exception.exhaust)
           (auto simp: acquireSession_def afterPoolGet_def catchSpawnBusy_def
              reportBusyException_def andThen_def split: option.splits)
    next
      case Undefined
      with c assms t t1 show ?thesis
        by (auto simp: acquireSession_def afterPoolGet_def)
    qed
    then show ?thesis by blast
  qed
qed

lemma forwardRequest_shape:
  assumes "forwardRequest h config sconfig r m [] = (res, tr)"
    and b: "bufferUpload h r [] = (bres, up)"
  shows "(\<exists>ev. tr = up @ ev \<and> list_all isResponseEvent ev)
       \<or> (\<exists>uploadData a u env sm ts post.
             bres = Returns uploadData
             \<and> tr = up @ PoolGet a True u env sm ts # post
             \<and> afterRequest (pool_get h a True u env sm ts) res post)"
proof (cases bres)
  case (Throws e)
  with assms have "tr = up @ [] \<and> list_all isResponseEvent []"
    by (simp add: forwardRequest_def andThen_def)
  then show ?thesis by (intro disjI1 exI)
next
  case Undefined
  with assms have "tr = up @ [] \<and> list_all isResponseEvent []"
    by (simp add: forwardRequest_def andThen_def)
  then show ?thesis by (intro disjI1 exI)
next
  case (Returns uploadData)
  obtain ares tr1 where a: "acquireSession h config sconfig r m up = (ares, tr1)"
    by (cases "acquireSession h config sconfig r m up")
  from assms Returns a
  have f: "(res, tr) = andThen (ares, tr1) (\<lambda>acquired tr.
             (case acquired of
                Inl status \<Rightarrow> (Returns status, tr)
              | Inr (session, m') \<Rightarrow>
                  sendRequest h config r m' session (ap_should_client_block h) uploadData tr))"
    by (simp add: forwardRequest_def andThen_def)
  from acquireSession_shape [OF a] show ?thesis
  proof
    assume n: "(\<exists>ev. tr1 = up @ ev \<and> list_all isResponseEvent ev)
               \<and> (\<forall>x. ares \<noteq> Returns (Inr x))"
    then obtain ev where ev: "tr1 = up @ ev \<and> list_all isResponseEvent ev" by blast
    from n f have "tr = tr1"
      by (cases ares) (auto simp: andThen_def split: sum.splits)
    with ev have "tr = up @ ev \<and> list_all isResponseEvent ev" by simp
    then show ?thesis by (intro disjI1 exI)
  next
    assume "\<exists>a u env sm ts post. tr1 = up @ PoolGet a True u env sm ts # post
              \<and> afterPoolGet (pool_get h a True u env sm ts) ares post"
    then obtain a u env sm ts post1
      where t1: "tr1 = up @ PoolGet a True u env sm ts # post1"
        and ap: "afterPoolGet (pool_get h a True u env sm ts) ares post1"
      by blast
    have "\<exists>post. tr = up @ PoolGet a True u env sm ts # post
            \<and> afterRequest (pool_get h a True u env sm ts) res post"
    proof (cases "pool_get h a True u env sm ts")
      case s: (Returns s)
      with ap obtain m' where p: "post1 = []" and ar: "ares = Returns (Inr (s, m'))"
        by (auto simp: afterPoolGet_def)
      with f have "sendRequest h config r m' s (ap_should_client_block h) uploadData tr1
                   = (res, tr)"
        by (simp add: andThen_def)
      with sendRequest_emits [of h config r m' s "ap_should_client_block h" uploadData tr1]
      obtain ev where "tr = tr1 @ ev" and "list_all isSessionEvent ev"
        by (auto simp: emits_def)
      with t1 p s have "tr = up @ PoolGet a True u env sm ts # ev
            \<and> afterRequest (pool_get h a True u env sm ts) res ev"
        by (simp add: afterRequest_def)
      then show ?thesis by (rule exI)
    next
      case (Throws e)
      have "afterRequest (Throws e) res post1 \<and> tr = tr1"
      proof (cases e rule: exception.exhaust)
        case (SpawnException what page)
        with ap f Throws show ?thesis
          by (cases page) (simp_all add: afterPoolGet_def afterRequest_def andThen_def)
      next
        case (BusyException what)
        with ap f Throws show ?thesis
          by (simp add: afterPoolGet_def afterRequest_def andThen_def)
      next
        case (FileSystemException x1 x2 x3)
        with ap f Throws show ?thesis
          by (simp add: afterPoolGet_def afterRequest_def andThen_def)
      next
        case (SystemException x1 x2)
        with ap f Throws show ?thesis
          by (simp add: afterPoolGet_def afterRequest_def andThen_def)
      next
        case (IOException x1)
        with ap f Throws show ?thesis
          by (simp add: afterPoolGet_def afterRequest_def andThen_def)
      next
        case thread_interrupted
        with ap f Throws show ?thesis
          by (simp add: afterPoolGet_def afterRequest_def andThen_def)
      next
        case (std_exception x1)
        with ap f Throws show ?thesis
          by (simp add: afterPoolGet_def afterRequest_def andThen_def)
      next
        case unknown_exception
        with ap f Throws show ?thesis
          by (simp add: afterPoolGet_def afterRequest_def andThen_def)
      qed
      with t1 Throws have "tr = up @ PoolGet a True u env sm ts # post1
            \<and> afterRequest (pool_get h a True u env sm ts) res post1"
        by simp
      then show ?thesis by (rule exI)
    next
      case Undefined
      with ap f t1 have "tr = up @ PoolGet a True u env sm ts # post1
            \<and> afterRequest (pool_get h a True u env sm ts) res post1"
        by (simp add: afterPoolGet_def afterRequest_def andThen_def)
      then show ?thesis by (rule exI)
    qed
    then obtain post where "Returns uploadData = Returns uploadData
        \<and> tr = up @ PoolGet a True u env sm ts # post
        \<and> afterRequest (pool_get h a True u env sm ts) res post"
      by blast
    then show ?thesis
      unfolding Returns by (intro disjI2 exI)
  qed
qed

lemma report_events:
  "list_all isResponseEvent (snd (reportFileSystemError h what code fname []))"
  "list_all isResponseEvent (snd (reportDocumentRootDeterminationError []))"
  by (simp_all add: reportFileSystemError_def reportDocumentRootDeterminationError_def)

lemma catchAll_trace: "snd (catchAll res) = snd res"
  by (cases res rule: prod.exhaust; cases "fst res")
     (auto simp: catchAll_def split: exception.splits)

lemma handleRequest_not_forward:
  assumes "\<not> (\<exists>base m fname. getBaseURI h config r newDirectoryMapper = (Returns (Some base), m)
              \<and> filename r = Some fname \<and> fileExists h fname = Returns False)"
  shows "snd (handleRequest h config sconfig r) = []"
proof (cases "getBaseURI h config r newDirectoryMapper")
  case (Pair g m)
  show ?thesis
  proof (cases g)
    case (Returns b)
    show ?thesis
    proof (cases b)
      case None
      with Pair Returns show ?thesis by (simp add: handleRequest_def)
    next
      case (Some base)
      show ?thesis
      proof (cases "filename r")
        case None
        with Pair Returns Some show ?thesis by (simp add: handleRequest_def)
      next
        case fn: (Some fname)
        show ?thesis
        proof (cases "fileExists h fname")
          case ex: (Returns x)
          with assms Pair Returns Some fn have "x" by (cases x) auto
          with Pair Returns Some fn ex show ?thesis by (simp add: handleRequest_def)
        next
          case (Throws e)
          with Pair Returns Some fn show ?thesis by (simp add: handleRequest_def)
        next
          case Undefined
          with Pair Returns Some fn show ?thesis by (simp add: handleRequest_def)
        qed
      qed
    qed
  next
    case (Throws e)
    with Pair show ?thesis by (simp add: handleRequest_def)
  next
    case Undefined
    with Pair show ?thesis by (simp add: handleRequest_def)
  qed
qed

lemma handleRequest_shape:
  assumes "handleRequest h config sconfig r = (res, tr)"
  shows "list_all isResponseEvent tr
       \<or> (\<exists>m res'. forwardRequest h config sconfig r m [] = (res', tr)
                     \<and> res = fst (catchAll (res', tr)))"
proof (cases "\<exists>base m fname. getBaseURI h config r newDirectoryMapper = (Returns (Some base), m)
              \<and> filename r = Some fname \<and> fileExists h fname = Returns False")
  case False
  from handleRequest_not_forward [OF this, of sconfig] assms show ?thesis by simp
next
  case True
  then obtain base m fname
    where "getBaseURI h config r newDirectoryMapper = (Returns (Some base), m)"
      and "filename r = Some fname" and "fileExists h fname = Returns False"
    by blast
  note eq = handleRequest_forward [OF this, of sconfig]
  show ?thesis
  proof (cases "spec_publicDir (ap_document_root h) (Some base) = []")
    case True
    with eq assms have "reportDocumentRootDeterminationError [] = (res, tr)" by simp
    then have "snd (reportDocumentRootDeterminationError []) = tr" by simp
    with report_events(2) show ?thesis by simp
  next
    case pd: False
    show ?thesis
    proof (cases "ap_setup_client_block h \<noteq> OK")
      case True
      with eq assms pd have "(Returns (ap_setup_client_block h), []) = (res, tr)" by simp
      then have "tr = []" by simp
      then show ?thesis by simp
    next
      case False
      with eq assms pd have c: "catchAll (forwardRequest h config sconfig r m []) = (res, tr)"
        by simp
      obtain res' tr' where f: "forwardRequest h config sconfig r m [] = (res', tr')"
        by (cases "forwardRequest h config sconfig r m []")
      with c catchAll_trace [of "(res', tr')"] have "tr' = tr" by simp
      with c f have "forwardRequest h config sconfig r m [] = (res', tr)
                     \<and> res = fst (catchAll (res', tr))"
        by simp
      then show ?thesis by (intro disjI2 exI)
    qed
  qed
qed

lemma not_pool_get:
  "isResponseEvent e \<Longrightarrow> \<not> isPoolGet e"
  "isTempFileEvent e \<Longrightarrow> \<not> isPoolGet e"
  "isSessionEvent e \<Longrightarrow> \<not> isPoolGet e"
  by (cases e; simp)+

lemma no_pool_get_in:
  assumes "list_all P ev" and "\<And>e. P e \<Longrightarrow> \<not> isPoolGet e"
  shows "PoolGet a lp u env sm ts \<notin> set ev"
proof
  assume "PoolGet a lp u env sm ts \<in> set ev"
  with assms(1) have "P (PoolGet a lp u env sm ts)" by (simp add: list_all_iff)
  from assms(2) [OF this] show False by simp
qed

lemma afterRequest_no_pool_get:
  assumes "afterRequest answer res post"
  shows "PoolGet a lp u env sm ts \<notin> set post"
proof (cases answer)
  case (Returns s)
  with assms have "list_all isSessionEvent post" by (simp add: afterRequest_def)
  then show ?thesis by (rule no_pool_get_in) (rule not_pool_get)
next
  case (Throws e)
  with assms have "list_all isResponseEvent post"
    by (cases e rule: exception.exhaust)
       (auto simp: afterRequest_def split: option.splits)
  then show ?thesis by (rule no_pool_get_in) (rule not_pool_get)
next
  case Undefined
  with assms show ?thesis by (simp add: afterRequest_def)
qed

lemma bufferUpload_events:
  assumes "bufferUpload h r [] = (bres, up)"
  shows "list_all isTempFileEvent up"
  using bufferUpload_emits [of h r "[]"] assms by (simp add: emits_def)

lemma handleRequest_pool_call:
  assumes hr: "handleRequest h config sconfig r = (res, tr)"
    and pg: "PoolGet a lp u env sm ts \<in> set tr"
  shows "\<exists>uploadData up post res'.
           bufferUpload h r [] = (Returns uploadData, up)
           \<and> tr = up @ PoolGet a lp u env sm ts # post
           \<and> afterRequest (pool_get h a lp u env sm ts) res' post
           \<and> res = fst (catchAll (res', tr))"
proof -
  from handleRequest_shape [OF hr]
  have "\<exists>m res'. forwardRequest h config sconfig r m [] = (res', tr)
                     \<and> res = fst (catchAll (res', tr))"
  proof
    assume "list_all isResponseEvent tr"
    from no_pool_get_in [OF this not_pool_get(1)] pg show ?thesis by blast
  qed
  then obtain m res' where f: "forwardRequest h config sconfig r m [] = (res', tr)"
    and c: "res = fst (catchAll (res', tr))"
    by blast
  obtain bres up where b: "bufferUpload h r [] = (bres, up)"
    by (cases "bufferUpload h r []")
  note up = bufferUpload_events [OF b]
  have nup: "PoolGet a lp u env sm ts \<notin> set up"
    by (rule no_pool_get_in [OF up not_pool_get(2)])
  from forwardRequest_shape [OF f b] show ?thesis
  proof
    assume "\<exists>ev. tr = up @ ev \<and> list_all isResponseEvent ev"
    then obtain ev where "tr = up @ ev" and ev: "list_all isResponseEvent ev" by blast
    with pg nup no_pool_get_in [OF ev not_pool_get(1), of a lp u env sm ts]
    show ?thesis by simp
  next
    assume "\<exists>uploadData a u env sm ts post.
             bres = Returns uploadData
             \<and> tr = up @ PoolGet a True u env sm ts # post
             \<and> afterRequest (pool_get h a True u env sm ts) res' post"
    then obtain uploadData a' u' env' sm' ts' post
      where br: "bres = Returns uploadData"
        and t: "tr = up @ PoolGet a' True u' env' sm' ts' # post"
        and ar: "afterRequest (pool_get h a' True u' env' sm' ts') res' post"
      by blast
    from pg t nup afterRequest_no_pool_get [OF ar, of a lp u env sm ts]
    have "PoolGet a lp u env sm ts = PoolGet a' True u' env' sm' ts'" by simp
    with b br t ar c
    have "bufferUpload h r [] = (Returns uploadData, up)
           \<and> tr = up @ PoolGet a lp u env sm ts # post
           \<and> afterRequest (pool_get h a lp u env sm ts) res' post
           \<and> res = fst (catchAll (res', tr))"
      by simp
    then show ?thesis by (intro exI)
  qed
qed

lemma tempfile_response:
  "list_all isTempFileEvent up \<Longrightarrow> responseBody up = [] \<and> responseContentType up = None"
  by (induction up rule: responseBody.induct) simp_all

text \<open>
  C7. Whenever \<open>applicationPool->get\<close> is called in \<open>handleRequest\<close> and throws a
  \<open>SpawnException\<close> that carries an error page, \<open>handleRequest\<close> sets the content type
  to \<open>text/html; charset=utf-8\<close>, writes the error page as the response body (as the C
  string \<open>getErrorPage().c_str()\<close>: verbatim when the page holds no NUL), writes nothing
  else, and returns \<open>OK\<close>, not 500.
\<close>

theorem spawn_error_page:
  assumes "handleRequest h config sconfig r = (res, tr)"
    and "PoolGet a lp u env sm ts \<in> set tr"
    and "pool_get h a lp u env sm ts = Throws (SpawnException what (Some page))"
  shows "res = Returns OK \<and> OK \<noteq> HTTP_INTERNAL_SERVER_ERROR
       \<and> responseContentType tr = Some ''text/html; charset=utf-8''
       \<and> responseBody tr = c_str page
       \<and> (NUL \<notin> set page \<longrightarrow> responseBody tr = page)
       \<and> (\<exists>up. list_all isTempFileEvent up
                \<and> tr = up @ [PoolGet a lp u env sm ts,
                              SetContentType ''text/html; charset=utf-8'', Rputs (c_str page)])"
proof -
  from handleRequest_pool_call [OF assms(1,2)] obtain uploadData up post res'
    where b: "bufferUpload h r [] = (Returns uploadData, up)"
      and t: "tr = up @ PoolGet a lp u env sm ts # post"
      and ar: "afterRequest (pool_get h a lp u env sm ts) res' post"
      and c: "res = fst (catchAll (res', tr))"
    by blast
  from ar assms(3)
  have post: "post = [SetContentType ''text/html; charset=utf-8'', Rputs (c_str page)]"
    and r': "res' = Returns OK"
    by (simp_all add: afterRequest_def)
  note up = bufferUpload_events [OF b]
  from c r' have 1: "res = Returns OK" by (simp add: catchAll_def)
  have 2: "OK \<noteq> HTTP_INTERNAL_SERVER_ERROR"
    by (simp add: OK_def HTTP_INTERNAL_SERVER_ERROR_def)
  from t post tempfile_response [OF up]
  have 3: "responseContentType tr = Some ''text/html; charset=utf-8''"
    and 4: "responseBody tr = c_str page"
    by (simp_all add: responseBody_append responseContentType_append)
  from 4 have 5: "NUL \<notin> set page \<longrightarrow> responseBody tr = page"
    by (simp add: c_str_id)
  from up t post
  have 6: "\<exists>up. list_all isTempFileEvent up
                \<and> tr = up @ [PoolGet a lp u env sm ts,
                              SetContentType ''text/html; charset=utf-8'', Rputs (c_str page)]"
    by blast
  from 1 2 3 4 5 6 show ?thesis by (intro conjI)
qed

text \<open>
  C8. Whenever \<open>applicationPool->get\<close> is called in \<open>handleRequest\<close> and throws
  \<open>BusyException\<close>, \<open>handleRequest\<close> returns 503 (Service Unavailable), having
  registered for status 503 the custom response that asks to try again later.
\<close>

theorem busy_service_unavailable:
  assumes "handleRequest h config sconfig r = (res, tr)"
    and "PoolGet a lp u env sm ts \<in> set tr"
    and "pool_get h a lp u env sm ts = Throws (BusyException what)"
  shows "res = Returns HTTP_SERVICE_UNAVAILABLE \<and> HTTP_SERVICE_UNAVAILABLE = 503
       \<and> (\<exists>up. list_all isTempFileEvent up
                \<and> tr = up @ [PoolGet a lp u env sm ts,
                              CustomResponse 503
                                ''This website is too busy right now.  Please try again later.''])"
proof -
  from handleRequest_pool_call [OF assms(1,2)] obtain uploadData up post res'
    where b: "bufferUpload h r [] = (Returns uploadData, up)"
      and t: "tr = up @ PoolGet a lp u env sm ts # post"
      and ar: "afterRequest (pool_get h a lp u env sm ts) res' post"
      and c: "res = fst (catchAll (res', tr))"
    by blast
  from ar assms(3)
  have post: "post = [CustomResponse HTTP_SERVICE_UNAVAILABLE
                        ''This website is too busy right now.  Please try again later.'']"
    and r': "res' = Returns HTTP_SERVICE_UNAVAILABLE"
    by (simp_all add: afterRequest_def)
  note up = bufferUpload_events [OF b]
  from c r' have 1: "res = Returns HTTP_SERVICE_UNAVAILABLE" by (simp add: catchAll_def)
  have 2: "HTTP_SERVICE_UNAVAILABLE = 503" by (simp add: HTTP_SERVICE_UNAVAILABLE_def)
  from up t post 2
  have 3: "\<exists>up. list_all isTempFileEvent up
                \<and> tr = up @ [PoolGet a lp u env sm ts,
                              CustomResponse 503
                                ''This website is too busy right now.  Please try again later.'']"
    by auto
  from 1 2 3 show ?thesis by (intro conjI)
qed

lemma example_resolved:
  "getBaseURI h exampleConfig exampleRequest newDirectoryMapper =
     (Returns (Some ''/''), \<lparr>baseURIKnown = True, baseURI = Some ''/'', appType = RAILS\<rparr>)"
  by (simp add: getBaseURI_def exampleConfig_def exampleRequest_def newDirectoryMapper_def
      c_str_def NUL_def)

lemma example_arguments:
  assumes "ap_document_root h = ''/var/www/app/public/''"
    and "canonicalizePath h ''/var/www/app/public/..'' = Returns ''/var/www/app''"
  shows "poolGetArguments h exampleConfig exampleServerConfig exampleRequest
           \<lparr>baseURIKnown = True, baseURI = Some ''/'', appType = RAILS\<rparr> =
         (Returns (''/var/www/app'', ''nobody'', ''production'', ''smart'', ''rails''),
          \<lparr>baseURIKnown = True, baseURI = Some ''/'', appType = RAILS\<rparr>)"
  using assms
  by (simp add: poolGetArguments_def Let_def andThen_def getApplicationType_def
      getPublicDirectory_def getApplicationTypeString_def exampleConfig_def
      exampleServerConfig_def)

lemma example_forward:
  assumes "ap_document_root h = ''/var/www/app/public/''"
    and "fileExists h ''/var/www/app/public/users'' = Returns False"
    and "ap_setup_client_block h = 0"
  shows "handleRequest h exampleConfig exampleServerConfig exampleRequest =
           catchAll (forwardRequest h exampleConfig exampleServerConfig exampleRequest
             \<lparr>baseURIKnown = True, baseURI = Some ''/'', appType = RAILS\<rparr> [])"
proof -
  have f: "filename exampleRequest = Some ''/var/www/app/public/users''"
    by (simp add: exampleRequest_def)
  show ?thesis
    using handleRequest_forward [OF example_resolved f assms(2), of exampleServerConfig] assms(1,3)
    by (simp add: spec_publicDir_def OK_def)
qed

lemma spawn_eval:
  "handleRequest spawnErrorHost exampleConfig exampleServerConfig exampleRequest =
     (Returns OK,
      [PoolGet ''/var/www/app'' True ''nobody'' ''production'' ''smart'' ''rails'',
       SetContentType ''text/html; charset=utf-8'',
       Rputs ''<html><body>The application could not start</body></html>''])"
proof -
  have d: "ap_document_root spawnErrorHost = ''/var/www/app/public/''"
    and c: "canonicalizePath spawnErrorHost ''/var/www/app/public/..'' = Returns ''/var/www/app''"
    and e: "fileExists spawnErrorHost ''/var/www/app/public/users'' = Returns False"
    and s: "ap_setup_client_block spawnErrorHost = 0"
    and b: "\<not> ap_should_client_block spawnErrorHost"
    by (simp_all add: spawnErrorHost_def exampleHost_def)
  have p: "pool_get spawnErrorHost ''/var/www/app'' True ''nobody'' ''production'' ''smart'' ''rails''
           = Throws (SpawnException ''Cannot spawn application''
                  (Some ''<html><body>The application could not start</body></html>''))"
    by (simp add: spawnErrorHost_def)
  show ?thesis
    unfolding example_forward [OF d e s]
    by (simp add: forwardRequest_def bufferUpload_def b andThen_def acquireSession_def
        tryPoolGet_def example_arguments [OF d c] p catchSpawnBusy_def catchAll_def
        c_str_def NUL_def)
qed

lemma spawn_answer:
  "pool_get spawnErrorHost ''/var/www/app'' True ''nobody'' ''production'' ''smart'' ''rails''
     = Throws (SpawnException ''Cannot spawn application''
                 (Some ''<html><body>The application could not start</body></html>''))"
  by (simp add: spawnErrorHost_def)

theorem spawn_error_page_witness:
  "fst (handleRequest spawnErrorHost exampleConfig exampleServerConfig exampleRequest) = Returns OK
   \<and> responseContentType
         (snd (handleRequest spawnErrorHost exampleConfig exampleServerConfig exampleRequest))
       = Some ''text/html; charset=utf-8''
   \<and> responseBody
         (snd (handleRequest spawnErrorHost exampleConfig exampleServerConfig exampleRequest))
       = ''<html><body>The application could not start</body></html>''"
proof -
  have m: "PoolGet ''/var/www/app'' True ''nobody'' ''production'' ''smart'' ''rails''
           \<in> set [PoolGet ''/var/www/app'' True ''nobody'' ''production'' ''smart'' ''rails'',
                  SetContentType ''text/html; charset=utf-8'',
                  Rputs ''<html><body>The application could not start</body></html>'']"
    by simp
  from spawn_error_page [OF spawn_eval m spawn_answer] show ?thesis
    by (simp add: spawn_eval c_str_def NUL_def)
qed

lemma busy_eval:
  "handleRequest busyHost exampleConfig exampleServerConfig exampleRequest =
     (Returns 503,
      [PoolGet ''/var/www/app'' True ''nobody'' ''production'' ''smart'' ''rails'',
       CustomResponse 503 ''This website is too busy right now.  Please try again later.''])"
proof -
  have d: "ap_document_root busyHost = ''/var/www/app/public/''"
    and c: "canonicalizePath busyHost ''/var/www/app/public/..'' = Returns ''/var/www/app''"
    and e: "fileExists busyHost ''/var/www/app/public/users'' = Returns False"
    and s: "ap_setup_client_block busyHost = 0"
    and b: "\<not> ap_should_client_block busyHost"
    by (simp_all add: busyHost_def exampleHost_def)
  have p: "pool_get busyHost ''/var/www/app'' True ''nobody'' ''production'' ''smart'' ''rails''
           = Throws (BusyException ''The pool is too busy'')"
    by (simp add: busyHost_def)
  show ?thesis
    unfolding example_forward [OF d e s]
    by (simp add: forwardRequest_def bufferUpload_def b andThen_def acquireSession_def
        tryPoolGet_def example_arguments [OF d c] p catchSpawnBusy_def catchAll_def
        reportBusyException_def HTTP_SERVICE_UNAVAILABLE_def)
qed

theorem busy_service_unavailable_witness:
  "handleRequest busyHost exampleConfig exampleServerConfig exampleRequest =
     (Returns 503,
      [PoolGet ''/var/www/app'' True ''nobody'' ''production'' ''smart'' ''rails'',
       CustomResponse 503 ''This website is too busy right now.  Please try again later.''])"
proof -
  have m: "PoolGet ''/var/www/app'' True ''nobody'' ''production'' ''smart'' ''rails''
           \<in> set [PoolGet ''/var/www/app'' True ''nobody'' ''production'' ''smart'' ''rails'',
                  CustomResponse 503 ''This website is too busy right now.  Please try again later.'']"
    by simp
  have p: "pool_get busyHost ''/var/www/app'' True ''nobody'' ''production'' ''smart'' ''rails''
           = Throws (BusyException ''The pool is too busy'')"
    by (simp add: busyHost_def)
  from busy_service_unavailable [OF busy_eval m p] show ?thesis
    by (simp add: busy_eval)
qed

lemma isPoolGet_cases:
  "isPoolGet e \<Longrightarrow> \<exists>a lp u env sm ts. e = PoolGet a lp u env sm ts"
  by (cases e) simp_all

lemma not_tempfile:
  "isResponseEvent e \<Longrightarrow> \<not> isTempFileEvent e"
  "isSessionEvent e \<Longrightarrow> \<not> isTempFileEvent e"
  "isPoolGet e \<Longrightarrow> \<not> isTempFileEvent e"
  by (cases e; simp)+

lemma list_all_not:
  assumes "list_all P ev" and "\<And>e. P e \<Longrightarrow> \<not> Q e"
  shows "\<not> list_ex Q ev"
  using assms by (auto simp: list_all_iff list_ex_iff)

lemma afterRequest_no_tempfile:
  assumes "afterRequest answer res post"
  shows "\<not> list_ex isTempFileEvent post"
proof (cases answer)
  case (Returns s)
  with assms have "list_all isSessionEvent post" by (simp add: afterRequest_def)
  then show ?thesis by (rule list_all_not) (rule not_tempfile)
next
  case (Throws e)
  with assms have "list_all isResponseEvent post"
    by (cases e rule: exception.exhaust)
       (auto simp: afterRequest_def split: option.splits)
  then show ?thesis by (rule list_all_not) (rule not_tempfile)
next
  case Undefined
  with assms show ?thesis by (simp add: afterRequest_def)
qed

lemma afterRequest_body_blocks:
  assumes "afterRequest answer res post" and "SessionSendBodyBlock b \<in> set post"
  shows "\<exists>s. answer = Returns s"
proof (cases answer)
  case (Returns s)
  then show ?thesis by simp
next
  case (Throws e)
  with assms(1) have "list_all isResponseEvent post"
    by (cases e rule: exception.exhaust)
       (auto simp: afterRequest_def split: option.splits)
  with assms(2) show ?thesis
    by (auto simp: list_all_iff)
next
  case Undefined
  with assms show ?thesis by (simp add: afterRequest_def)
qed

lemma handleRequest_no_pool_call:
  assumes hr: "handleRequest h config sconfig r = (res, tr)"
    and np: "\<not> list_ex isPoolGet tr"
  shows "\<exists>bres up ev. tr = up @ ev \<and> list_all isResponseEvent ev
           \<and> (up = [] \<or> bufferUpload h r [] = (bres, up))"
proof -
  from handleRequest_shape [OF hr] show ?thesis
  proof
    assume "list_all isResponseEvent tr"
    then have "tr = [] @ tr \<and> list_all isResponseEvent tr \<and> ([] = [] \<or> bufferUpload h r [] = (Undefined, []))"
      by simp
    then show ?thesis by (intro exI)
  next
    assume "\<exists>m res'. forwardRequest h config sconfig r m [] = (res', tr)
                     \<and> res = fst (catchAll (res', tr))"
    then obtain m res' where f: "forwardRequest h config sconfig r m [] = (res', tr)"
      by blast
    obtain bres up where b: "bufferUpload h r [] = (bres, up)"
      by (cases "bufferUpload h r []")
    from forwardRequest_shape [OF f b] np
    obtain ev where "tr = up @ ev \<and> list_all isResponseEvent ev"
      by auto
    with b have "tr = up @ ev \<and> list_all isResponseEvent ev
                 \<and> (up = [] \<or> bufferUpload h r [] = (bres, up))"
      by simp
    then show ?thesis by (intro exI)
  qed
qed

text \<open>
  C2. For every request for which the host signals an expected body
  (\<open>ap_should_client_block\<close>) and which carries a \<open>Content-Length\<close> header: when the
  advertised length is greater than 8192 and \<open>applicationPool->get\<close> is called, the
  events before the call are the creation of the temporary file and writes to it of as
  many bytes as were advertised, which is the length of the received body; nothing is
  written to the temporary file afterwards; and the writes are those of the received
  blocks, so that the file holds the body, when every call of \<open>fwrite\<close> writes all it is
  given or nothing. When the advertised length is 8192 or less, no temporary file is
  created or written, and a block of the body is sent to the session only after the call
  of the pool, which then opens the trace and returned a session.
\<close>

theorem upload_buffered_before_pool_get:
  assumes hr: "handleRequest h config sconfig r = (res, tr)"
    and expecting: "ap_should_client_block h"
    and cl: "lookupHeader r ''Content-Length'' = Some cl"
  shows "(atol h cl > 8192 \<and> PoolGet a lp u env sm ts \<in> set tr \<longrightarrow>
            (\<exists>ws post. tr = TempFileCreate # map TempFileWrite ws
                               @ PoolGet a lp u env sm ts # post
                     \<and> int (length (concat ws)) = atol h cl
                     \<and> length (concat ws) = length (concat (receivedBlocks h))
                     \<and> ((\<forall>pos n. fwrite h pos n = 0 \<or> n \<le> fwrite h pos n)
                          \<longrightarrow> ws = receivedBlocks h)
                     \<and> \<not> list_ex isTempFileEvent post))
       \<and> (atol h cl \<le> 8192 \<longrightarrow>
            \<not> list_ex isTempFileEvent tr
            \<and> (SessionSendBodyBlock b \<in> set tr \<longrightarrow>
                 (\<exists>a' lp' u' env' sm' ts' s post.
                    tr = PoolGet a' lp' u' env' sm' ts' # post
                    \<and> pool_get h a' lp' u' env' sm' ts' = Returns s
                    \<and> SessionSendBodyBlock b \<in> set post)))"
proof (intro conjI impI)
  assume a: "atol h cl > 8192 \<and> PoolGet a lp u env sm ts \<in> set tr"
  then have g: "atol h cl > 8192" and pg: "PoolGet a lp u env sm ts \<in> set tr"
    by simp_all
  from handleRequest_pool_call [OF hr pg] obtain uploadData up post res'
    where b: "bufferUpload h r [] = (Returns uploadData, up)"
      and t: "tr = up @ PoolGet a lp u env sm ts # post"
      and ar: "afterRequest (pool_get h a lp u env sm ts) res' post"
    by blast
  from bufferUpload_large [OF expecting cl g b] obtain ws
    where all: "uploadData = Some (concat ws)
         \<and> up = [] @ TempFileCreate # map TempFileWrite ws
         \<and> int (length (concat ws)) = atol h cl
         \<and> length (concat ws) = length (concat (receivedBlocks h))
         \<and> ((\<forall>pos n. fwrite h pos n = 0 \<or> n \<le> fwrite h pos n) \<longrightarrow> ws = receivedBlocks h)" ..
  note up = all [THEN conjunct2, THEN conjunct1]
    and len = all [THEN conjunct2, THEN conjunct2, THEN conjunct1]
    and body = all [THEN conjunct2, THEN conjunct2, THEN conjunct2, THEN conjunct1]
    and whole = all [THEN conjunct2, THEN conjunct2, THEN conjunct2, THEN conjunct2]
  from up t have tr: "tr = TempFileCreate # map TempFileWrite ws @ PoolGet a lp u env sm ts # post"
    by simp
  note after = afterRequest_no_tempfile [OF ar]
  have final: "tr = TempFileCreate # map TempFileWrite ws @ PoolGet a lp u env sm ts # post
        \<and> int (length (concat ws)) = atol h cl
        \<and> length (concat ws) = length (concat (receivedBlocks h))
        \<and> ((\<forall>pos n. fwrite h pos n = 0 \<or> n \<le> fwrite h pos n) \<longrightarrow> ws = receivedBlocks h)
        \<and> \<not> list_ex isTempFileEvent post"
    by (intro conjI) (rule tr len body whole after)+
  show "\<exists>ws post. tr = TempFileCreate # map TempFileWrite ws
                               @ PoolGet a lp u env sm ts # post
                     \<and> int (length (concat ws)) = atol h cl
                     \<and> length (concat ws) = length (concat (receivedBlocks h))
                     \<and> ((\<forall>pos n. fwrite h pos n = 0 \<or> n \<le> fwrite h pos n)
                          \<longrightarrow> ws = receivedBlocks h)
                     \<and> \<not> list_ex isTempFileEvent post"
    by (rule exI [of _ ws], rule exI [of _ post]) (rule final)
next
  assume s: "atol h cl \<le> 8192"
  note small = bufferUpload_small [OF expecting cl s, of "[]"]
  have shape: "list_all isResponseEvent tr
        \<or> (\<exists>a' lp' u' env' sm' ts' post res'. tr = PoolGet a' lp' u' env' sm' ts' # post
              \<and> afterRequest (pool_get h a' lp' u' env' sm' ts') res' post)"
  proof (cases "list_ex isPoolGet tr")
    case False
    from handleRequest_no_pool_call [OF hr False] small show ?thesis by auto
  next
    case True
    then obtain e where e: "e \<in> set tr" and "isPoolGet e" by (auto simp: list_ex_iff)
    from isPoolGet_cases [OF this(2)] obtain a' lp' u' env' sm' ts'
      where "e = PoolGet a' lp' u' env' sm' ts'" by blast
    with e have "PoolGet a' lp' u' env' sm' ts' \<in> set tr" by simp
    from handleRequest_pool_call [OF hr this] small
    have "\<exists>post res'. tr = PoolGet a' lp' u' env' sm' ts' # post
              \<and> afterRequest (pool_get h a' lp' u' env' sm' ts') res' post"
      by auto
    then show ?thesis by blast
  qed
  from shape show "\<not> list_ex isTempFileEvent tr"
  proof
    assume "list_all isResponseEvent tr"
    then show ?thesis by (rule list_all_not) (rule not_tempfile)
  next
    assume "\<exists>a' lp' u' env' sm' ts' post res'. tr = PoolGet a' lp' u' env' sm' ts' # post
              \<and> afterRequest (pool_get h a' lp' u' env' sm' ts') res' post"
    then obtain a' lp' u' env' sm' ts' post res'
      where "tr = PoolGet a' lp' u' env' sm' ts' # post"
        and "afterRequest (pool_get h a' lp' u' env' sm' ts') res' post"
      by blast
    with afterRequest_no_tempfile [of "pool_get h a' lp' u' env' sm' ts'" res' post]
    show ?thesis by simp
  qed
  assume bb: "SessionSendBodyBlock b \<in> set tr"
  from shape show "\<exists>a' lp' u' env' sm' ts' s post.
                    tr = PoolGet a' lp' u' env' sm' ts' # post
                    \<and> pool_get h a' lp' u' env' sm' ts' = Returns s
                    \<and> SessionSendBodyBlock b \<in> set post"
  proof
    assume "list_all isResponseEvent tr"
    with bb show ?thesis by (auto simp: list_all_iff)
  next
    assume "\<exists>a' lp' u' env' sm' ts' post res'. tr = PoolGet a' lp' u' env' sm' ts' # post
              \<and> afterRequest (pool_get h a' lp' u' env' sm' ts') res' post"
    then obtain a' lp' u' env' sm' ts' post res'
      where t: "tr = PoolGet a' lp' u' env' sm' ts' # post"
        and ar: "afterRequest (pool_get h a' lp' u' env' sm' ts') res' post"
      by blast
    from t bb have p: "SessionSendBodyBlock b \<in> set post" by simp
    from afterRequest_body_blocks [OF ar p] obtain s
      where "pool_get h a' lp' u' env' sm' ts' = Returns s" by blast
    with t p have "tr = PoolGet a' lp' u' env' sm' ts' # post
                    \<and> pool_get h a' lp' u' env' sm' ts' = Returns s
                    \<and> SessionSendBodyBlock b \<in> set post"
      by simp
    then show ?thesis by (intro exI)
  qed
qed

lemma sessionCall_ok:
  "session_fault h e = None \<Longrightarrow> sessionCall h e tr = (Returns (), tr @ [e])"
  by (simp add: sessionCall_def)

lemma sendBlocks_ok:
  assumes "\<And>e. session_fault h e = None"
  shows "sendBlocks h bs tr = (Returns (), tr @ map SessionSendBodyBlock bs)"
  by (induction bs arbitrary: tr) (simp_all add: sessionCall_ok [OF assms] andThen_def)

lemma sendClientBlocks_ok:
  assumes "\<And>e. session_fault h e = None" and "\<not> client_error h"
  shows "sendClientBlocks h bs tr =
           (Returns 0, tr @ map SessionSendBodyBlock (takeWhile (\<lambda>buf. buf \<noteq> []) bs))"
  using assms(2)
  by (induction bs arbitrary: tr) (simp_all add: sessionCall_ok [OF assms(1)] andThen_def)

lemma sendRequest_ok:
  assumes nf: "\<And>e. session_fault h e = None"
    and k: "baseURIKnown m" and b: "baseURI m = Some base"
    and sh: "sendHeaders h r base = Some buffer"
    and ce: "\<not> client_error h"
  shows "sendRequest h config r m session expecting uploadData tr =
           (Returns OK,
            tr @ [SetReaderTimeout (c_div (server_timeout r) 1000),
                  SetWriterTimeout (c_div (server_timeout r) 1000),
                  SessionSendHeaders buffer]
               @ (if expecting
                  then (case uploadData of
                          Some tmp \<Rightarrow> map SessionSendBodyBlock (fileBlocks tmp) @ [TempFileReset]
                        | None \<Rightarrow> map SessionSendBodyBlock (receivedBlocks h))
                  else [])
               @ [ShutdownWriter, RelayResponse (stream session), RegisterCleanup, DiscardStream])"
proof (cases expecting)
  case False
  then show ?thesis
    by (simp add: sendRequest_def sessionCall_ok [OF nf] andThen_def fromMapper_def
        getBaseURI_again [OF k] b sh)
next
  case True
  show ?thesis
  proof (cases uploadData)
    case None
    with True show ?thesis
      by (simp add: sendRequest_def sessionCall_ok [OF nf] andThen_def fromMapper_def
          getBaseURI_again [OF k] b sh sendRequestBodyClient_def
          sendClientBlocks_ok [OF nf ce] receivedBlocks_def)
  next
    case (Some tmp)
    with True show ?thesis
      by (simp add: sendRequest_def sessionCall_ok [OF nf] andThen_def fromMapper_def
          getBaseURI_again [OF k] b sh sendRequestBodyFile_def sendBlocks_ok [OF nf])
  qed
qed

lemma post_arguments:
  assumes "ap_document_root h = ''/var/www/app/public/''"
    and "canonicalizePath h ''/var/www/app/public/..'' = Returns ''/var/www/app''"
  shows "poolGetArguments h exampleConfig exampleServerConfig (exampleRequest\<lparr>the_request := a,
             method_name := b, method_number := c, headers_in := d\<rparr>)
           \<lparr>baseURIKnown = True, baseURI = Some ''/'', appType = RAILS\<rparr> =
         (Returns (''/var/www/app'', ''nobody'', ''production'', ''smart'', ''rails''),
          \<lparr>baseURIKnown = True, baseURI = Some ''/'', appType = RAILS\<rparr>)"
  using assms
  by (simp add: poolGetArguments_def Let_def andThen_def getApplicationType_def
      getPublicDirectory_def getApplicationTypeString_def exampleConfig_def
      exampleServerConfig_def)

lemma post_resolved:
  "getBaseURI h exampleConfig (exampleRequest\<lparr>the_request := a,
             method_name := b, method_number := c, headers_in := d\<rparr>) newDirectoryMapper =
     (Returns (Some ''/''), \<lparr>baseURIKnown = True, baseURI = Some ''/'', appType = RAILS\<rparr>)"
  by (simp add: getBaseURI_def exampleConfig_def exampleRequest_def newDirectoryMapper_def
      c_str_def NUL_def)

lemma post_forward:
  assumes "ap_document_root h = ''/var/www/app/public/''"
    and "fileExists h ''/var/www/app/public/users'' = Returns False"
    and "ap_setup_client_block h = 0"
  shows "handleRequest h exampleConfig exampleServerConfig (exampleRequest\<lparr>the_request := a,
             method_name := b, method_number := c, headers_in := d\<rparr>) =
           catchAll (forwardRequest h exampleConfig exampleServerConfig (exampleRequest\<lparr>the_request := a,
             method_name := b, method_number := c, headers_in := d\<rparr>)
             \<lparr>baseURIKnown = True, baseURI = Some ''/'', appType = RAILS\<rparr> [])"
proof -
  have f: "filename (exampleRequest\<lparr>the_request := a,
             method_name := b, method_number := c, headers_in := d\<rparr>) = Some ''/var/www/app/public/users''"
    by (simp add: exampleRequest_def)
  show ?thesis
    using handleRequest_forward [OF post_resolved f assms(2), of exampleServerConfig] assms(1,3)
    by (simp add: spec_publicDir_def OK_def)
qed

lemma small_eval:
  "\<exists>buffer. handleRequest smallHost exampleConfig exampleServerConfig smallRequest =
     (Returns OK,
      [PoolGet ''/var/www/app'' True ''nobody'' ''production'' ''smart'' ''rails'',
       SetReaderTimeout 300000, SetWriterTimeout 300000, SessionSendHeaders buffer,
       SessionSendBodyBlock ''hello'', ShutdownWriter, RelayResponse 7, RegisterCleanup,
       DiscardStream])"
proof -
  have d: "ap_document_root smallHost = ''/var/www/app/public/''"
    and c: "canonicalizePath smallHost ''/var/www/app/public/..'' = Returns ''/var/www/app''"
    and e: "fileExists smallHost ''/var/www/app/public/users'' = Returns False"
    and s: "ap_setup_client_block smallHost = 0"
    and b: "ap_should_client_block smallHost"
    and nf: "\<And>e. session_fault smallHost e = None"
    and ce: "\<not> client_error smallHost"
    and a: "atol smallHost ''5'' = 5"
    and rb: "receivedBlocks smallHost = [''hello'']"
    by (simp_all add: smallHost_def exampleHost_def receivedBlocks_def)
  have p: "pool_get smallHost ''/var/www/app'' True ''nobody'' ''production'' ''smart'' ''rails''
           = Returns \<lparr>pid = 4711, stream = 7\<rparr>"
    by (simp add: smallHost_def exampleHost_def)
  have l: "lookupHeader smallRequest ''Content-Length'' = Some ''5''"
    by (simp add: smallRequest_def lookupHeader_def strcasecmp_eq_def apr_tolower_def)
  have t: "c_div (server_timeout smallRequest) 1000 = 300000"
    by (simp add: smallRequest_def exampleRequest_def c_div_def)
  obtain hs where "headersTable smallHost smallRequest ''/'' = tableOf hs"
    using headersTable_tableOf by blast
  with headerBuffer_tableOf [of hs]
  obtain buffer where sh: "sendHeaders smallHost smallRequest ''/'' = Some buffer"
    by (auto simp: sendHeaders_def)
  have bu: "bufferUpload smallHost smallRequest [] = (Returns None, [])"
    using bufferUpload_small [OF b l] a by simp
  have fw: "handleRequest smallHost exampleConfig exampleServerConfig smallRequest =
              catchAll (forwardRequest smallHost exampleConfig exampleServerConfig smallRequest
                \<lparr>baseURIKnown = True, baseURI = Some ''/'', appType = RAILS\<rparr> [])"
    unfolding smallRequest_def by (rule post_forward [OF d e s])
  have args: "poolGetArguments smallHost exampleConfig exampleServerConfig smallRequest
                \<lparr>baseURIKnown = True, baseURI = Some ''/'', appType = RAILS\<rparr> =
              (Returns (''/var/www/app'', ''nobody'', ''production'', ''smart'', ''rails''),
               \<lparr>baseURIKnown = True, baseURI = Some ''/'', appType = RAILS\<rparr>)"
    unfolding smallRequest_def by (rule post_arguments [OF d c])
  let ?m = "\<lparr>baseURIKnown = True, baseURI = Some ''/'', appType = RAILS\<rparr>"
  let ?s = "\<lparr>pid = 4711, stream = 7\<rparr>"
  let ?pg = "PoolGet ''/var/www/app'' True ''nobody'' ''production'' ''smart'' ''rails''"
  have acq: "acquireSession smallHost exampleConfig exampleServerConfig smallRequest ?m [] =
               (Returns (Inr (?s, ?m)), [?pg])"
    by (simp add: acquireSession_def tryPoolGet_def args p andThen_def)
  have k: "baseURIKnown ?m" and bs: "baseURI ?m = Some ''/''" by simp_all
  have sr: "sendRequest smallHost exampleConfig smallRequest ?m ?s True None [?pg] =
              (Returns OK,
               [?pg, SetReaderTimeout 300000, SetWriterTimeout 300000, SessionSendHeaders buffer,
                SessionSendBodyBlock ''hello'', ShutdownWriter, RelayResponse 7, RegisterCleanup,
                DiscardStream])"
    unfolding sendRequest_ok [OF nf k bs sh ce] t rb by simp
  have final: "handleRequest smallHost exampleConfig exampleServerConfig smallRequest =
     (Returns OK,
      [?pg, SetReaderTimeout 300000, SetWriterTimeout 300000, SessionSendHeaders buffer,
       SessionSendBodyBlock ''hello'', ShutdownWriter, RelayResponse 7, RegisterCleanup,
       DiscardStream])"
    unfolding fw forwardRequest_def bu
    by (simp add: andThen_def acq b sr catchAll_def)
  show ?thesis by (rule exI [of _ buffer]) (rule final)
qed

lemma upload_eval:
  "\<exists>buffer. handleRequest uploadHost exampleConfig exampleServerConfig uploadRequest =
     (Returns OK,
      [TempFileCreate, TempFileWrite (replicate 10000 (CHR ''x'')),
       PoolGet ''/var/www/app'' True ''nobody'' ''production'' ''smart'' ''rails'',
       SetReaderTimeout 300000, SetWriterTimeout 300000, SessionSendHeaders buffer,
       SessionSendBodyBlock (replicate 10000 (CHR ''x'')), TempFileReset, ShutdownWriter,
       RelayResponse 7, RegisterCleanup, DiscardStream])"
proof -
  let ?body = "replicate 10000 (CHR ''x'')"
  have d: "ap_document_root uploadHost = ''/var/www/app/public/''"
    and c: "canonicalizePath uploadHost ''/var/www/app/public/..'' = Returns ''/var/www/app''"
    and e: "fileExists uploadHost ''/var/www/app/public/users'' = Returns False"
    and s: "ap_setup_client_block uploadHost = 0"
    and b: "ap_should_client_block uploadHost"
    and nf: "\<And>e. session_fault uploadHost e = None"
    and ce: "\<not> client_error uploadHost"
    and a: "atol uploadHost ''10000'' = 10000"
    and cb: "client_blocks uploadHost = [?body]"
    and tn: "TempFile_new uploadHost = None"
    and wr: "\<And>pos n. fwrite uploadHost pos n = n"
    by (simp_all add: uploadHost_def exampleHost_def)
  have p: "pool_get uploadHost ''/var/www/app'' True ''nobody'' ''production'' ''smart'' ''rails''
           = Returns \<lparr>pid = 4711, stream = 7\<rparr>"
    by (simp add: uploadHost_def exampleHost_def)
  have l: "lookupHeader uploadRequest ''Content-Length'' = Some ''10000''"
    by (simp add: uploadRequest_def lookupHeader_def strcasecmp_eq_def apr_tolower_def)
  have t: "c_div (server_timeout uploadRequest) 1000 = 300000"
    by (simp add: uploadRequest_def exampleRequest_def c_div_def)
  obtain hs where "headersTable uploadHost uploadRequest ''/'' = tableOf hs"
    using headersTable_tableOf by blast
  with headerBuffer_tableOf [of hs]
  obtain buffer where sh: "sendHeaders uploadHost uploadRequest ''/'' = Some buffer"
    by (auto simp: sendHeaders_def)
  have w: "writeBlock uploadHost ?body 0 [] [TempFileCreate] =
             (Returns ?body, [TempFileCreate, TempFileWrite ?body])"
    by (simp add: writeBlock_step [OF refl] wr)
  have rr: "receiveRequestBody uploadHost uploadRequest [] =
              (Returns ?body, [TempFileCreate, TempFileWrite ?body])"
    by (simp add: receiveRequestBody_def tn cb w andThen_def l a ce)
  have bu: "bufferUpload uploadHost uploadRequest [] =
              (Returns (Some ?body), [TempFileCreate, TempFileWrite ?body])"
    by (simp add: bufferUpload_def b l a UPLOAD_ACCELERATION_THRESHOLD_def rr andThen_def)
  have fb: "fileBlocks ?body = [?body]"
    by (subst fileBlocks.simps) (simp add: BUF_SIZE_def)
  have fw: "handleRequest uploadHost exampleConfig exampleServerConfig uploadRequest =
              catchAll (forwardRequest uploadHost exampleConfig exampleServerConfig uploadRequest
                \<lparr>baseURIKnown = True, baseURI = Some ''/'', appType = RAILS\<rparr> [])"
    unfolding uploadRequest_def by (rule post_forward [OF d e s])
  have args: "poolGetArguments uploadHost exampleConfig exampleServerConfig uploadRequest
                \<lparr>baseURIKnown = True, baseURI = Some ''/'', appType = RAILS\<rparr> =
              (Returns (''/var/www/app'', ''nobody'', ''production'', ''smart'', ''rails''),
               \<lparr>baseURIKnown = True, baseURI = Some ''/'', appType = RAILS\<rparr>)"
    unfolding uploadRequest_def by (rule post_arguments [OF d c])
  let ?m = "\<lparr>baseURIKnown = True, baseURI = Some ''/'', appType = RAILS\<rparr>"
  let ?s = "\<lparr>pid = 4711, stream = 7\<rparr>"
  let ?pg = "PoolGet ''/var/www/app'' True ''nobody'' ''production'' ''smart'' ''rails''"
  have acq: "acquireSession uploadHost exampleConfig exampleServerConfig uploadRequest ?m
               [TempFileCreate, TempFileWrite ?body] =
               (Returns (Inr (?s, ?m)), [TempFileCreate, TempFileWrite ?body, ?pg])"
    by (simp add: acquireSession_def tryPoolGet_def args p andThen_def)
  have k: "baseURIKnown ?m" and bs: "baseURI ?m = Some ''/''" by simp_all
  have sr: "sendRequest uploadHost exampleConfig uploadRequest ?m ?s True (Some ?body)
              [TempFileCreate, TempFileWrite ?body, ?pg] =
              (Returns OK,
               [TempFileCreate, TempFileWrite ?body, ?pg,
                SetReaderTimeout 300000, SetWriterTimeout 300000, SessionSendHeaders buffer,
                SessionSendBodyBlock ?body, TempFileReset, ShutdownWriter, RelayResponse 7,
                RegisterCleanup, DiscardStream])"
    unfolding sendRequest_ok [OF nf k bs sh ce] t by (simp add: fb)
  have final: "handleRequest uploadHost exampleConfig exampleServerConfig uploadRequest =
     (Returns OK,
      [TempFileCreate, TempFileWrite ?body, ?pg,
       SetReaderTimeout 300000, SetWriterTimeout 300000, SessionSendHeaders buffer,
       SessionSendBodyBlock ?body, TempFileReset, ShutdownWriter, RelayResponse 7,
       RegisterCleanup, DiscardStream])"
    unfolding fw forwardRequest_def bu
    by (simp add: andThen_def acq b sr catchAll_def)
  show ?thesis by (rule exI [of _ buffer]) (rule final)
qed

theorem upload_buffered_before_pool_get_witness:
  "(\<exists>post. snd (handleRequest uploadHost exampleConfig exampleServerConfig uploadRequest) =
             TempFileCreate # map TempFileWrite (receivedBlocks uploadHost)
               @ PoolGet ''/var/www/app'' True ''nobody'' ''production'' ''smart'' ''rails'' # post
           \<and> \<not> list_ex isTempFileEvent post)
   \<and> receivedBlocks uploadHost = [replicate 10000 (CHR ''x'')]
   \<and> \<not> list_ex isTempFileEvent
         (snd (handleRequest smallHost exampleConfig exampleServerConfig smallRequest))
   \<and> (\<exists>post. snd (handleRequest smallHost exampleConfig exampleServerConfig smallRequest) =
             PoolGet ''/var/www/app'' True ''nobody'' ''production'' ''smart'' ''rails'' # post
           \<and> SessionSendBodyBlock ''hello'' \<in> set post)"
proof -
  let ?pg = "PoolGet ''/var/www/app'' True ''nobody'' ''production'' ''smart'' ''rails''"
  obtain buffer1 where u: "handleRequest uploadHost exampleConfig exampleServerConfig uploadRequest =
     (Returns OK,
      [TempFileCreate, TempFileWrite (replicate 10000 (CHR ''x'')), ?pg,
       SetReaderTimeout 300000, SetWriterTimeout 300000, SessionSendHeaders buffer1,
       SessionSendBodyBlock (replicate 10000 (CHR ''x'')), TempFileReset, ShutdownWriter,
       RelayResponse 7, RegisterCleanup, DiscardStream])"
    using upload_eval by blast
  obtain buffer2 where s: "handleRequest smallHost exampleConfig exampleServerConfig smallRequest =
     (Returns OK,
      [?pg, SetReaderTimeout 300000, SetWriterTimeout 300000, SessionSendHeaders buffer2,
       SessionSendBodyBlock ''hello'', ShutdownWriter, RelayResponse 7, RegisterCleanup,
       DiscardStream])"
    using small_eval by blast
  have eu: "ap_should_client_block uploadHost" and es: "ap_should_client_block smallHost"
    and au: "atol uploadHost ''10000'' = 10000" and as: "atol smallHost ''5'' = 5"
    and rb: "receivedBlocks uploadHost = [replicate 10000 (CHR ''x'')]"
    by (simp_all add: uploadHost_def smallHost_def exampleHost_def receivedBlocks_def)
  have lu: "lookupHeader uploadRequest ''Content-Length'' = Some ''10000''"
    and ls: "lookupHeader smallRequest ''Content-Length'' = Some ''5''"
    by (simp_all add: uploadRequest_def smallRequest_def lookupHeader_def strcasecmp_eq_def
        apr_tolower_def)
  note large = upload_buffered_before_pool_get [OF u eu lu, THEN conjunct1,
      of "''/var/www/app''" True "''nobody''" "''production''" "''smart''" "''rails''"]
  note small = upload_buffered_before_pool_get [OF s es ls, THEN conjunct2,
      of "''hello''"]
  have whole: "\<forall>pos n. fwrite uploadHost pos n = 0 \<or> n \<le> fwrite uploadHost pos n"
    by (simp add: uploadHost_def exampleHost_def)
  from large au have "\<exists>ws post. snd (handleRequest uploadHost exampleConfig exampleServerConfig uploadRequest) =
             TempFileCreate # map TempFileWrite ws @ ?pg # post
           \<and> int (length (concat ws)) = atol uploadHost ''10000''
           \<and> length (concat ws) = length (concat (receivedBlocks uploadHost))
           \<and> ((\<forall>pos n. fwrite uploadHost pos n = 0 \<or> n \<le> fwrite uploadHost pos n)
                \<longrightarrow> ws = receivedBlocks uploadHost)
           \<and> \<not> list_ex isTempFileEvent post"
    unfolding u by simp
  then obtain ws post
    where a': "snd (handleRequest uploadHost exampleConfig exampleServerConfig uploadRequest) =
             TempFileCreate # map TempFileWrite ws @ ?pg # post"
      and w: "(\<forall>pos n. fwrite uploadHost pos n = 0 \<or> n \<le> fwrite uploadHost pos n)
                \<longrightarrow> ws = receivedBlocks uploadHost"
      and c: "\<not> list_ex isTempFileEvent post"
    by (elim exE conjE)
  from w whole have "ws = receivedBlocks uploadHost" by (rule mp)
  with a' have a: "snd (handleRequest uploadHost exampleConfig exampleServerConfig uploadRequest) =
             TempFileCreate # map TempFileWrite (receivedBlocks uploadHost) @ ?pg # post"
    by simp
  have 1: "\<exists>post. snd (handleRequest uploadHost exampleConfig exampleServerConfig uploadRequest) =
             TempFileCreate # map TempFileWrite (receivedBlocks uploadHost) @ ?pg # post
           \<and> \<not> list_ex isTempFileEvent post"
    by (rule exI [of _ post]) (rule conjI [OF a c])
  from small as have 2: "\<not> list_ex isTempFileEvent
         (snd (handleRequest smallHost exampleConfig exampleServerConfig smallRequest))"
    and 3: "\<exists>post. snd (handleRequest smallHost exampleConfig exampleServerConfig smallRequest) =
             ?pg # post \<and> SessionSendBodyBlock ''hello'' \<in> set post"
    unfolding s by simp_all
  from 1 rb 2 3 show ?thesis by (intro conjI)
qed

text \<open>
  C2 after a short write. The request advertises 10000 bytes and the host receives them in
  one block, 5000 bytes \<open>a\<close> and then 5000 bytes \<open>b\<close>. The first call of \<open>fwrite\<close> writes
  4096 bytes of the block; the second call is given the start of the block again
  (\<open>fwrite(buf, 1, len - written, ...)\<close>, line 513) and writes its first 5904 bytes. The
  temporary file then has the advertised length, so the test of line 525 passes, the pool
  is called and the file is sent to the session as the body: 9096 bytes \<open>a\<close> and 904 bytes
  \<open>b\<close>, which is not the body the client sent.
\<close>

theorem short_write_upload:
  "(\<exists>buffer. handleRequest shortWriteHost exampleConfig exampleServerConfig uploadRequest =
     (Returns OK,
      [TempFileCreate,
       TempFileWrite (replicate 4096 (CHR ''a'')),
       TempFileWrite (replicate 5000 (CHR ''a'') @ replicate 904 (CHR ''b'')),
       PoolGet ''/var/www/app'' True ''nobody'' ''production'' ''smart'' ''rails'',
       SetReaderTimeout 300000, SetWriterTimeout 300000, SessionSendHeaders buffer,
       SessionSendBodyBlock
         (replicate 4096 (CHR ''a'') @ replicate 5000 (CHR ''a'') @ replicate 904 (CHR ''b'')),
       TempFileReset, ShutdownWriter, RelayResponse 7, RegisterCleanup, DiscardStream]))
   \<and> concat (receivedBlocks shortWriteHost) = replicate 5000 (CHR ''a'') @ replicate 5000 (CHR ''b'')
   \<and> replicate 4096 (CHR ''a'') @ replicate 5000 (CHR ''a'') @ replicate 904 (CHR ''b'')
       \<noteq> replicate 5000 (CHR ''a'') @ replicate 5000 (CHR ''b'')"
proof (intro conjI)
  let ?body = "replicate 5000 (CHR ''a'') @ replicate 5000 (CHR ''b'')"
  let ?w1 = "replicate 4096 (CHR ''a'')"
  let ?w2 = "replicate 5000 (CHR ''a'') @ replicate 904 (CHR ''b'')"
  have d: "ap_document_root shortWriteHost = ''/var/www/app/public/''"
    and c: "canonicalizePath shortWriteHost ''/var/www/app/public/..'' = Returns ''/var/www/app''"
    and e: "fileExists shortWriteHost ''/var/www/app/public/users'' = Returns False"
    and s: "ap_setup_client_block shortWriteHost = 0"
    and b: "ap_should_client_block shortWriteHost"
    and nf: "\<And>e. session_fault shortWriteHost e = None"
    and ce: "\<not> client_error shortWriteHost"
    and a: "atol shortWriteHost ''10000'' = 10000"
    and cb: "client_blocks shortWriteHost = [?body]"
    and tn: "TempFile_new shortWriteHost = None"
    and wr: "\<And>pos n. fwrite shortWriteHost pos n = (if pos = 0 then 4096 else n)"
    by (simp_all add: shortWriteHost_def exampleHost_def)
  have p: "pool_get shortWriteHost ''/var/www/app'' True ''nobody'' ''production'' ''smart'' ''rails''
           = Returns \<lparr>pid = 4711, stream = 7\<rparr>"
    by (simp add: shortWriteHost_def exampleHost_def)
  have l: "lookupHeader uploadRequest ''Content-Length'' = Some ''10000''"
    by (simp add: uploadRequest_def lookupHeader_def strcasecmp_eq_def apr_tolower_def)
  have t: "c_div (server_timeout uploadRequest) 1000 = 300000"
    by (simp add: uploadRequest_def exampleRequest_def c_div_def)
  obtain hs where "headersTable shortWriteHost uploadRequest ''/'' = tableOf hs"
    using headersTable_tableOf by blast
  with headerBuffer_tableOf [of hs]
  obtain buffer where sh: "sendHeaders shortWriteHost uploadRequest ''/'' = Some buffer"
    by (auto simp: sendHeaders_def)
  have w2: "writeBlock shortWriteHost ?body 4096 ?w1 [TempFileCreate, TempFileWrite ?w1] =
             (Returns (?w1 @ ?w2), [TempFileCreate, TempFileWrite ?w1, TempFileWrite ?w2])"
    by (simp add: writeBlock_step [OF refl] wr)
  have w1: "writeBlock shortWriteHost ?body 0 [] [TempFileCreate] =
             (Returns (?w1 @ ?w2), [TempFileCreate, TempFileWrite ?w1, TempFileWrite ?w2])"
    by (subst writeBlock_step [OF refl]) (simp add: wr w2)
  have rr: "receiveRequestBody shortWriteHost uploadRequest [] =
              (Returns (?w1 @ ?w2), [TempFileCreate, TempFileWrite ?w1, TempFileWrite ?w2])"
    by (simp add: receiveRequestBody_def tn cb w1 andThen_def l a ce)
  have bu: "bufferUpload shortWriteHost uploadRequest [] =
              (Returns (Some (?w1 @ ?w2)), [TempFileCreate, TempFileWrite ?w1, TempFileWrite ?w2])"
    by (simp add: bufferUpload_def b l a UPLOAD_ACCELERATION_THRESHOLD_def rr andThen_def)
  have fb: "fileBlocks (?w1 @ ?w2) = [?w1 @ ?w2]"
    by (subst fileBlocks.simps) (simp add: BUF_SIZE_def)
  have fw: "handleRequest shortWriteHost exampleConfig exampleServerConfig uploadRequest =
              catchAll (forwardRequest shortWriteHost exampleConfig exampleServerConfig uploadRequest
                \<lparr>baseURIKnown = True, baseURI = Some ''/'', appType = RAILS\<rparr> [])"
    unfolding uploadRequest_def by (rule post_forward [OF d e s])
  have args: "poolGetArguments shortWriteHost exampleConfig exampleServerConfig uploadRequest
                \<lparr>baseURIKnown = True, baseURI = Some ''/'', appType = RAILS\<rparr> =
              (Returns (''/var/www/app'', ''nobody'', ''production'', ''smart'', ''rails''),
               \<lparr>baseURIKnown = True, baseURI = Some ''/'', appType = RAILS\<rparr>)"
    unfolding uploadRequest_def by (rule post_arguments [OF d c])
  let ?m = "\<lparr>baseURIKnown = True, baseURI = Some ''/'', appType = RAILS\<rparr>"
  let ?s = "\<lparr>pid = 4711, stream = 7\<rparr>"
  let ?pg = "PoolGet ''/var/www/app'' True ''nobody'' ''production'' ''smart'' ''rails''"
  have acq: "acquireSession shortWriteHost exampleConfig exampleServerConfig uploadRequest ?m
               [TempFileCreate, TempFileWrite ?w1, TempFileWrite ?w2] =
               (Returns (Inr (?s, ?m)), [TempFileCreate, TempFileWrite ?w1, TempFileWrite ?w2, ?pg])"
    by (simp add: acquireSession_def tryPoolGet_def args p andThen_def)
  have k: "baseURIKnown ?m" and bs: "baseURI ?m = Some ''/''" by simp_all
  have sr: "sendRequest shortWriteHost exampleConfig uploadRequest ?m ?s True (Some (?w1 @ ?w2))
              [TempFileCreate, TempFileWrite ?w1, TempFileWrite ?w2, ?pg] =
              (Returns OK,
               [TempFileCreate, TempFileWrite ?w1, TempFileWrite ?w2, ?pg,
                SetReaderTimeout 300000, SetWriterTimeout 300000, SessionSendHeaders buffer,
                SessionSendBodyBlock (?w1 @ ?w2), TempFileReset, ShutdownWriter, RelayResponse 7,
                RegisterCleanup, DiscardStream])"
    unfolding sendRequest_ok [OF nf k bs sh ce] t by (simp add: fb)
  have final: "handleRequest shortWriteHost exampleConfig exampleServerConfig uploadRequest =
     (Returns OK,
      [TempFileCreate, TempFileWrite ?w1, TempFileWrite ?w2, ?pg,
       SetReaderTimeout 300000, SetWriterTimeout 300000, SessionSendHeaders buffer,
       SessionSendBodyBlock (?w1 @ ?w2), TempFileReset, ShutdownWriter, RelayResponse 7,
       RegisterCleanup, DiscardStream])"
    unfolding fw forwardRequest_def bu
    by (simp add: andThen_def acq b sr catchAll_def)
  show "\<exists>buffer. handleRequest shortWriteHost exampleConfig exampleServerConfig uploadRequest =
     (Returns OK,
      [TempFileCreate, TempFileWrite ?w1, TempFileWrite ?w2, ?pg,
       SetReaderTimeout 300000, SetWriterTimeout 300000, SessionSendHeaders buffer,
       SessionSendBodyBlock (?w1 @ ?w2),
       TempFileReset, ShutdownWriter, RelayResponse 7, RegisterCleanup, DiscardStream])"
    by (rule exI [of _ buffer]) (rule final)
  show "concat (receivedBlocks shortWriteHost) = ?body"
    by (simp add: receivedBlocks_def cb)
  show "?w1 @ ?w2 \<noteq> ?body"
  proof
    assume "?w1 @ ?w2 = ?body"
    then have "length (filter (\<lambda>x. x = CHR ''a'') (?w1 @ ?w2))
               = length (filter (\<lambda>x. x = CHR ''a'') ?body)"
      by (rule arg_cong)
    then show False by simp
  qed
qed

section \<open>The static-file shortcut and the requests that proceed\<close>

lemma mapToStorage_forwarded:
  assumes g: "getBaseURI h config r newDirectoryMapper = (Returns (Some b), m)"
    and fw: "forwardToApplication h r (Some b) = Returns (True, r)"
  shows "mapToStorage h config r =
           (Returns (if allowModRewrite config \<noteq> ENABLED \<and> appType m = RAILS then OK
                     else if uri r = b then OK else DECLINED), r)"
proof -
  from getBaseURI_known [OF g] have k: "baseURIKnown m" and b: "baseURI m = Some b"
    by simp_all
  have t: "getApplicationType h config r m = (Returns (appType m), m)"
    by (simp add: getApplicationType_def k)
  have a: "getBaseURI h config r m = (Returns (Some b), m)"
    using getBaseURI_again [OF k, of h config r] b by simp
  show ?thesis
    by (simp add: mapToStorage_def g fw t a)
qed

lemma emits_any: "emits P res tr \<Longrightarrow> emits (\<lambda>e. True) res tr"
  by (auto simp: emits_def list_all_iff)

text \<open>
  Once the upload is buffered, if at all, and the arguments of the call are computed,
  \<open>applicationPool->get\<close> is called with them.
\<close>

lemma forwardRequest_calls_pool:
  assumes b: "bufferUpload h r [] = (Returns uploadData, up)"
    and p: "poolGetArguments h config sconfig r m = (Returns (a, u, env, sm, ts), m')"
  shows "\<exists>post. snd (forwardRequest h config sconfig r m []) = up @ PoolGet a True u env sm ts # post"
proof -
  let ?pg = "PoolGet a True u env sm ts"
  let ?rest = "\<lambda>acquired tr.
       (case acquired of
          Inl status \<Rightarrow> (Returns status, tr)
        | Inr (session, m') \<Rightarrow>
            sendRequest h config r m' session (ap_should_client_block h) uploadData tr)"
  have fr: "forwardRequest h config sconfig r m [] =
              andThen (acquireSession h config sconfig r m up) ?rest"
    by (simp add: forwardRequest_def b andThen_def)
  have acq: "emits (\<lambda>e. True) (acquireSession h config sconfig r m up) (up @ [?pg])"
  proof (cases "pool_get h a True u env sm ts")
    case (Returns s)
    then have "acquireSession h config sconfig r m up = (Returns (Inr (s, m')), up @ [?pg])"
      by (simp add: acquireSession_def tryPoolGet_def p andThen_def)
    then show ?thesis by (simp add: emits_same)
  next
    case (Throws e)
    then have "acquireSession h config sconfig r m up = catchSpawnBusy e (up @ [?pg])"
      by (simp add: acquireSession_def tryPoolGet_def p andThen_def)
    then show ?thesis by (simp add: emits_any [OF catchSpawnBusy_emits])
  next
    case Undefined
    then have "acquireSession h config sconfig r m up = (Undefined, up @ [?pg])"
      by (simp add: acquireSession_def tryPoolGet_def p andThen_def)
    then show ?thesis by (simp add: emits_same)
  qed
  have rest: "emits (\<lambda>e. True) (?rest acquired tr1) tr1" for acquired tr1
  proof (cases acquired)
    case (Inl status)
    then show ?thesis by (simp add: emits_same)
  next
    case (Inr sm')
    then show ?thesis
      by (cases sm') (simp add: emits_any [OF sendRequest_emits])
  qed
  have "emits (\<lambda>e. True) (andThen (acquireSession h config sconfig r m up) ?rest) (up @ [?pg])"
    using acq rest by (rule emits_andThen)
  then obtain ev where "snd (forwardRequest h config sconfig r m []) = (up @ [?pg]) @ ev"
    unfolding fr emits_def by blast
  then have "snd (forwardRequest h config sconfig r m []) = up @ ?pg # ev"
    by simp
  then show ?thesis by (rule exI [of _ ev])
qed

text \<open>
  A request that \<open>mapToStorage\<close> forwards is left as it is; \<open>handleRequest\<close> hands it to
  the code of lines 650-751, which calls the pool.
\<close>

lemma proceeds_to_application:
  assumes g: "getBaseURI h config r newDirectoryMapper = (Returns (Some b), m)"
    and f: "filename r = Some f"
    and e: "fileExists h f = Returns False"
    and fw: "forwardToApplication h r (Some b) = Returns (True, r)"
  shows "mapToStorage h config r =
           (Returns (if allowModRewrite config \<noteq> ENABLED \<and> appType m = RAILS then OK
                     else if uri r = b then OK else DECLINED), r)"
    and "handleRequest h config sconfig r =
           (if spec_publicDir (ap_document_root h) (Some b) = []
            then reportDocumentRootDeterminationError []
            else if ap_setup_client_block h \<noteq> OK
            then (Returns (ap_setup_client_block h), [])
            else catchAll (forwardRequest h config sconfig r m []))"
    and "spec_publicDir (ap_document_root h) (Some b) \<noteq> [] \<and> ap_setup_client_block h = OK
         \<and> bufferUpload h r [] = (Returns uploadData, up)
         \<and> poolGetArguments h config sconfig r m = (Returns (a, u, env, sm, ts), m') \<longrightarrow>
         (\<exists>post. snd (handleRequest h config sconfig r) = up @ PoolGet a True u env sm ts # post)"
proof -
  show "mapToStorage h config r =
           (Returns (if allowModRewrite config \<noteq> ENABLED \<and> appType m = RAILS then OK
                     else if uri r = b then OK else DECLINED), r)"
    by (rule mapToStorage_forwarded [OF g fw])
  show hr: "handleRequest h config sconfig r =
           (if spec_publicDir (ap_document_root h) (Some b) = []
            then reportDocumentRootDeterminationError []
            else if ap_setup_client_block h \<noteq> OK
            then (Returns (ap_setup_client_block h), [])
            else catchAll (forwardRequest h config sconfig r m []))"
    by (rule handleRequest_forward [OF g f e])
  show "spec_publicDir (ap_document_root h) (Some b) \<noteq> [] \<and> ap_setup_client_block h = OK
         \<and> bufferUpload h r [] = (Returns uploadData, up)
         \<and> poolGetArguments h config sconfig r m = (Returns (a, u, env, sm, ts), m') \<longrightarrow>
         (\<exists>post. snd (handleRequest h config sconfig r) = up @ PoolGet a True u env sm ts # post)"
  proof
    assume c: "spec_publicDir (ap_document_root h) (Some b) \<noteq> [] \<and> ap_setup_client_block h = OK
         \<and> bufferUpload h r [] = (Returns uploadData, up)
         \<and> poolGetArguments h config sconfig r m = (Returns (a, u, env, sm, ts), m')"
    then have "snd (handleRequest h config sconfig r) = snd (forwardRequest h config sconfig r m [])"
      by (simp add: hr catchAll_trace)
    with forwardRequest_calls_pool [OF c [THEN conjunct2, THEN conjunct2, THEN conjunct1]
        c [THEN conjunct2, THEN conjunct2, THEN conjunct2]]
    show "\<exists>post. snd (handleRequest h config sconfig r) = up @ PoolGet a True u env sm ts # post"
      by simp
  qed
qed

text \<open>
  C3, amended. For a request with a resolved base URI: when the resolved filesystem path
  exists the request is declined (served statically) whatever its method, by
  \<open>mapToStorage\<close> and by \<open>handleRequest\<close>; the page-cache shortcut applies to GET
  requests only: for a GET request whose path does not exist, if the path with \<open>.html\<close>
  appended (or with \<open>index.html\<close> appended when the path ends in \<open>/\<close>) names an
  existing file, \<open>filename\<close> and \<open>canonical_filename\<close> are rewritten to that file and the
  request is declined. A GET request with neither file, and a non-GET request whose path
  does not exist, proceed to the application: \<open>mapToStorage\<close> leaves the request as it
  is, and answers \<open>OK\<close> for a Rails application when mod_rewrite is not allowed or when
  the URI is the base URI, \<open>DECLINED\<close> otherwise; \<open>handleRequest\<close> forwards the request
  (lines 650-771) unless the public directory is empty or \<open>ap_setup_client_block\<close> fails,
  and then, once the upload is buffered and the arguments are computed, calls
  \<open>applicationPool->get\<close> with them.
\<close>

theorem static_file_shortcut:
  assumes g: "getBaseURI h config r newDirectoryMapper = (Returns (Some b), m)"
    and f: "filename r = Some f"
  shows "(fileExists h f = Returns True \<longrightarrow>
            forwardToApplication h r (Some b) = Returns (False, r)
            \<and> mapToStorage h config r = (Returns DECLINED, r)
            \<and> handleRequest h config sconfig r = (Returns DECLINED, []))
       \<and> (fileExists h f = Returns False \<and> method_number r = M_GET
            \<and> fileExists h (spec_htmlFile f) = Returns True \<longrightarrow>
            mapToStorage h config r =
              (Returns DECLINED, r\<lparr>filename := Some (spec_htmlFile f),
                                     canonical_filename := Some (spec_htmlFile f)\<rparr>)
            \<and> handleRequest h config sconfig
                 (r\<lparr>filename := Some (spec_htmlFile f),
                    canonical_filename := Some (spec_htmlFile f)\<rparr>) = (Returns DECLINED, []))
       \<and> (fileExists h f = Returns False \<and> method_number r = M_GET
            \<and> fileExists h (spec_htmlFile f) = Returns False \<longrightarrow>
            forwardToApplication h r (Some b) = Returns (True, r)
            \<and> mapToStorage h config r =
                (Returns (if allowModRewrite config \<noteq> ENABLED \<and> appType m = RAILS then OK
                          else if uri r = b then OK else DECLINED), r)
            \<and> handleRequest h config sconfig r =
                (if spec_publicDir (ap_document_root h) (Some b) = []
                 then reportDocumentRootDeterminationError []
                 else if ap_setup_client_block h \<noteq> OK
                 then (Returns (ap_setup_client_block h), [])
                 else catchAll (forwardRequest h config sconfig r m []))
            \<and> (spec_publicDir (ap_document_root h) (Some b) \<noteq> [] \<and> ap_setup_client_block h = OK
                \<and> bufferUpload h r [] = (Returns uploadData, up)
                \<and> poolGetArguments h config sconfig r m = (Returns (a, u, env, sm, ts), m') \<longrightarrow>
                (\<exists>post. snd (handleRequest h config sconfig r)
                           = up @ PoolGet a True u env sm ts # post)))
       \<and> (fileExists h f = Returns False \<and> method_number r \<noteq> M_GET \<longrightarrow>
            forwardToApplication h r (Some b) = Returns (True, r)
            \<and> mapToStorage h config r =
                (Returns (if allowModRewrite config \<noteq> ENABLED \<and> appType m = RAILS then OK
                          else if uri r = b then OK else DECLINED), r)
            \<and> handleRequest h config sconfig r =
                (if spec_publicDir (ap_document_root h) (Some b) = []
                 then reportDocumentRootDeterminationError []
                 else if ap_setup_client_block h \<noteq> OK
                 then (Returns (ap_setup_client_block h), [])
                 else catchAll (forwardRequest h config sconfig r m []))
            \<and> (spec_publicDir (ap_document_root h) (Some b) \<noteq> [] \<and> ap_setup_client_block h = OK
                \<and> bufferUpload h r [] = (Returns uploadData, up)
                \<and> poolGetArguments h config sconfig r m = (Returns (a, u, env, sm, ts), m') \<longrightarrow>
                (\<exists>post. snd (handleRequest h config sconfig r)
                           = up @ PoolGet a True u env sm ts # post)))"
proof (intro conjI)
  show "fileExists h f = Returns True \<longrightarrow>
            forwardToApplication h r (Some b) = Returns (False, r)
            \<and> mapToStorage h config r = (Returns DECLINED, r)
            \<and> handleRequest h config sconfig r = (Returns DECLINED, [])"
  proof (intro impI conjI)
    assume e: "fileExists h f = Returns True"
    then show 1: "forwardToApplication h r (Some b) = Returns (False, r)"
      by (simp add: forwardToApplication_cases [OF f])
    show "mapToStorage h config r = (Returns DECLINED, r)"
      by (rule mapToStorage_not_forwarded [OF g 1])
    show "handleRequest h config sconfig r = (Returns DECLINED, [])"
      by (rule handleRequest_existing [OF g f e])
  qed
next
  let ?r' = "r\<lparr>filename := Some (spec_htmlFile f), canonical_filename := Some (spec_htmlFile f)\<rparr>"
  show "fileExists h f = Returns False \<and> method_number r = M_GET
            \<and> fileExists h (spec_htmlFile f) = Returns True \<longrightarrow>
            mapToStorage h config r = (Returns DECLINED, ?r')
            \<and> handleRequest h config sconfig ?r' = (Returns DECLINED, [])"
  proof (intro impI conjI)
    assume a: "fileExists h f = Returns False \<and> method_number r = M_GET
               \<and> fileExists h (spec_htmlFile f) = Returns True"
    then have "forwardToApplication h r (Some b) = Returns (False, ?r')"
      by (simp add: forwardToApplication_cases [OF f])
    from mapToStorage_not_forwarded [OF g this]
    show "mapToStorage h config r = (Returns DECLINED, ?r')" .
    have g': "getBaseURI h config ?r' newDirectoryMapper = (Returns (Some b), m)"
      using g by (simp add: getBaseURI_filename)
    have f': "filename ?r' = Some (spec_htmlFile f)" by simp
    from a have "fileExists h (spec_htmlFile f) = Returns True" by simp
    from handleRequest_existing [OF g' f' this]
    show "handleRequest h config sconfig ?r' = (Returns DECLINED, [])" .
  qed
next
  show "fileExists h f = Returns False \<and> method_number r = M_GET
            \<and> fileExists h (spec_htmlFile f) = Returns False \<longrightarrow>
            forwardToApplication h r (Some b) = Returns (True, r)
            \<and> mapToStorage h config r =
                (Returns (if allowModRewrite config \<noteq> ENABLED \<and> appType m = RAILS then OK
                          else if uri r = b then OK else DECLINED), r)
            \<and> handleRequest h config sconfig r =
                (if spec_publicDir (ap_document_root h) (Some b) = []
                 then reportDocumentRootDeterminationError []
                 else if ap_setup_client_block h \<noteq> OK
                 then (Returns (ap_setup_client_block h), [])
                 else catchAll (forwardRequest h config sconfig r m []))
            \<and> (spec_publicDir (ap_document_root h) (Some b) \<noteq> [] \<and> ap_setup_client_block h = OK
                \<and> bufferUpload h r [] = (Returns uploadData, up)
                \<and> poolGetArguments h config sconfig r m = (Returns (a, u, env, sm, ts), m') \<longrightarrow>
                (\<exists>post. snd (handleRequest h config sconfig r)
                           = up @ PoolGet a True u env sm ts # post))"
  proof
    assume a: "fileExists h f = Returns False \<and> method_number r = M_GET
               \<and> fileExists h (spec_htmlFile f) = Returns False"
    then have e: "fileExists h f = Returns False" by simp
    from a have fw: "forwardToApplication h r (Some b) = Returns (True, r)"
      by (simp add: forwardToApplication_cases [OF f])
    show "forwardToApplication h r (Some b) = Returns (True, r)
            \<and> mapToStorage h config r =
                (Returns (if allowModRewrite config \<noteq> ENABLED \<and> appType m = RAILS then OK
                          else if uri r = b then OK else DECLINED), r)
            \<and> handleRequest h config sconfig r =
                (if spec_publicDir (ap_document_root h) (Some b) = []
                 then reportDocumentRootDeterminationError []
                 else if ap_setup_client_block h \<noteq> OK
                 then (Returns (ap_setup_client_block h), [])
                 else catchAll (forwardRequest h config sconfig r m []))
            \<and> (spec_publicDir (ap_document_root h) (Some b) \<noteq> [] \<and> ap_setup_client_block h = OK
                \<and> bufferUpload h r [] = (Returns uploadData, up)
                \<and> poolGetArguments h config sconfig r m = (Returns (a, u, env, sm, ts), m') \<longrightarrow>
                (\<exists>post. snd (handleRequest h config sconfig r)
                           = up @ PoolGet a True u env sm ts # post))"
      by (intro conjI) (rule fw proceeds_to_application [OF g f e fw])+
  qed
next
  show "fileExists h f = Returns False \<and> method_number r \<noteq> M_GET \<longrightarrow>
            forwardToApplication h r (Some b) = Returns (True, r)
            \<and> mapToStorage h config r =
                (Returns (if allowModRewrite config \<noteq> ENABLED \<and> appType m = RAILS then OK
                          else if uri r = b then OK else DECLINED), r)
            \<and> handleRequest h config sconfig r =
                (if spec_publicDir (ap_document_root h) (Some b) = []
                 then reportDocumentRootDeterminationError []
                 else if ap_setup_client_block h \<noteq> OK
                 then (Returns (ap_setup_client_block h), [])
                 else catchAll (forwardRequest h config sconfig r m []))
            \<and> (spec_publicDir (ap_document_root h) (Some b) \<noteq> [] \<and> ap_setup_client_block h = OK
                \<and> bufferUpload h r [] = (Returns uploadData, up)
                \<and> poolGetArguments h config sconfig r m = (Returns (a, u, env, sm, ts), m') \<longrightarrow>
                (\<exists>post. snd (handleRequest h config sconfig r)
                           = up @ PoolGet a True u env sm ts # post))"
  proof
    assume a: "fileExists h f = Returns False \<and> method_number r \<noteq> M_GET"
    then have e: "fileExists h f = Returns False" by simp
    from a have fw: "forwardToApplication h r (Some b) = Returns (True, r)"
      by (simp add: forwardToApplication_cases [OF f])
    show "forwardToApplication h r (Some b) = Returns (True, r)
            \<and> mapToStorage h config r =
                (Returns (if allowModRewrite config \<noteq> ENABLED \<and> appType m = RAILS then OK
                          else if uri r = b then OK else DECLINED), r)
            \<and> handleRequest h config sconfig r =
                (if spec_publicDir (ap_document_root h) (Some b) = []
                 then reportDocumentRootDeterminationError []
                 else if ap_setup_client_block h \<noteq> OK
                 then (Returns (ap_setup_client_block h), [])
                 else catchAll (forwardRequest h config sconfig r m []))
            \<and> (spec_publicDir (ap_document_root h) (Some b) \<noteq> [] \<and> ap_setup_client_block h = OK
                \<and> bufferUpload h r [] = (Returns uploadData, up)
                \<and> poolGetArguments h config sconfig r m = (Returns (a, u, env, sm, ts), m') \<longrightarrow>
                (\<exists>post. snd (handleRequest h config sconfig r)
                           = up @ PoolGet a True u env sm ts # post))"
      by (intro conjI) (rule fw proceeds_to_application [OF g f e fw])+
  qed
qed

lemma example_base:
  "getBaseURI exampleHost exampleConfig postRequest newDirectoryMapper =
     (Returns (Some ''/''), \<lparr>baseURIKnown = True, baseURI = Some ''/'', appType = RAILS\<rparr>)"
  by (simp add: getBaseURI_def exampleConfig_def postRequest_def exampleRequest_def
      newDirectoryMapper_def c_str_def NUL_def)

text \<open>
  C3, as the specification states it, fails: a POST request whose resolved filesystem
  path exists does not proceed to the application; \<open>mapToStorage\<close> sets
  \<open>forwardToApplication\<close> to false and declines, and \<open>handleRequest\<close> declines.
\<close>

theorem non_get_existing_file_counterexample:
  "method_number postRequest \<noteq> M_GET
   \<and> fileExists exampleHost ''/var/www/app/public/style.css'' = Returns True
   \<and> forwardToApplication exampleHost postRequest (Some ''/'') = Returns (False, postRequest)
   \<and> mapToStorage exampleHost exampleConfig postRequest = (Returns DECLINED, postRequest)
   \<and> handleRequest exampleHost exampleConfig exampleServerConfig postRequest = (Returns DECLINED, [])"
proof -
  have f: "filename postRequest = Some ''/var/www/app/public/style.css''"
    by (simp add: postRequest_def)
  have e: "fileExists exampleHost ''/var/www/app/public/style.css'' = Returns True"
    by (simp add: exampleHost_def)
  have n: "method_number postRequest \<noteq> M_GET"
    by (simp add: postRequest_def M_GET_def)
  have 1: "forwardToApplication exampleHost postRequest (Some ''/'') = Returns (False, postRequest)"
    by (simp add: forwardToApplication_cases [OF f] e)
  from n e 1 mapToStorage_not_forwarded [OF example_base 1]
    handleRequest_existing [OF example_base f e]
  show ?thesis by simp
qed

theorem static_file_shortcut_witness:
  "mapToStorage exampleHost exampleConfig (postRequest\<lparr>method_number := M_GET, uri := ''/about'', filename := Some ''/var/www/app/public/about''\<rparr>)
     = (Returns DECLINED, postRequest\<lparr>method_number := M_GET, uri := ''/about'', filename := Some ''/var/www/app/public/about.html'',
                                      canonical_filename := Some ''/var/www/app/public/about.html''\<rparr>)
   \<and> forwardToApplication exampleHost (postRequest\<lparr>uri := ''/about'', filename := Some ''/var/www/app/public/about''\<rparr>) (Some ''/'')
     = Returns (True, postRequest\<lparr>uri := ''/about'', filename := Some ''/var/www/app/public/about''\<rparr>)
   \<and> mapToStorage exampleHost exampleConfig postRequest = (Returns DECLINED, postRequest)
   \<and> mapToStorage smallHost exampleConfig smallRequest = (Returns OK, smallRequest)
   \<and> handleRequest smallHost exampleConfig exampleServerConfig smallRequest
       = catchAll (forwardRequest smallHost exampleConfig exampleServerConfig smallRequest
                     \<lparr>baseURIKnown = True, baseURI = Some ''/'', appType = RAILS\<rparr> [])
   \<and> (\<exists>post. snd (handleRequest smallHost exampleConfig exampleServerConfig smallRequest)
                = PoolGet ''/var/www/app'' True ''nobody'' ''production'' ''smart'' ''rails'' # post)"
proof -
  let ?get = "postRequest\<lparr>method_number := M_GET, uri := ''/about'', filename := Some ''/var/www/app/public/about''\<rparr>"
  let ?post = "postRequest\<lparr>uri := ''/about'', filename := Some ''/var/www/app/public/about''\<rparr>"
  let ?m = "\<lparr>baseURIKnown = True, baseURI = Some ''/'', appType = RAILS\<rparr>"
  have g1: "getBaseURI exampleHost exampleConfig ?get newDirectoryMapper = (Returns (Some ''/''), ?m)"
    and g2: "getBaseURI exampleHost exampleConfig ?post newDirectoryMapper = (Returns (Some ''/''), ?m)"
    by (simp_all add: getBaseURI_def exampleConfig_def postRequest_def exampleRequest_def
      newDirectoryMapper_def c_str_def NUL_def)
  have g4: "getBaseURI smallHost exampleConfig smallRequest newDirectoryMapper = (Returns (Some ''/''), ?m)"
    unfolding smallRequest_def by (rule post_resolved)
  have f1: "filename ?get = Some ''/var/www/app/public/about''"
    and f2: "filename ?post = Some ''/var/www/app/public/about''"
    and f3: "filename postRequest = Some ''/var/www/app/public/style.css''"
    and f4: "filename smallRequest = Some ''/var/www/app/public/users''"
    by (simp_all add: postRequest_def smallRequest_def exampleRequest_def)
  have a: "mapToStorage exampleHost exampleConfig ?get
     = (Returns DECLINED, ?get\<lparr>filename := Some ''/var/www/app/public/about.html'',
                                      canonical_filename := Some ''/var/www/app/public/about.html''\<rparr>)"
    using static_file_shortcut [OF g1 f1, THEN conjunct2, THEN conjunct1, of exampleServerConfig]
    by (simp add: exampleHost_def spec_htmlFile_def)
  have b: "forwardToApplication exampleHost ?post (Some ''/'') = Returns (True, ?post)"
    using static_file_shortcut [OF g2 f2, THEN conjunct2, THEN conjunct2, THEN conjunct2,
        of exampleServerConfig]
    by (simp add: exampleHost_def postRequest_def M_GET_def)
  have c: "mapToStorage exampleHost exampleConfig postRequest = (Returns DECLINED, postRequest)"
    using static_file_shortcut [OF example_base f3, THEN conjunct1, of exampleServerConfig]
    by (simp add: exampleHost_def)
  have e: "fileExists smallHost ''/var/www/app/public/users'' = Returns False"
    and n: "method_number smallRequest \<noteq> M_GET"
    and d: "spec_publicDir (ap_document_root smallHost) (Some ''/'') \<noteq> []"
    and s: "ap_setup_client_block smallHost = OK"
    and dr: "ap_document_root smallHost = ''/var/www/app/public/''"
    and cp: "canonicalizePath smallHost ''/var/www/app/public/..'' = Returns ''/var/www/app''"
    and sb: "ap_should_client_block smallHost"
    and at: "atol smallHost ''5'' \<le> 8192"
    and mr: "allowModRewrite exampleConfig \<noteq> ENABLED"
    by (simp_all add: smallHost_def exampleHost_def smallRequest_def M_GET_def OK_def
        spec_publicDir_def exampleConfig_def)
  have l: "lookupHeader smallRequest ''Content-Length'' = Some ''5''"
    by (simp add: smallRequest_def lookupHeader_def strcasecmp_eq_def apr_tolower_def)
  have bu: "bufferUpload smallHost smallRequest [] = (Returns None, [])"
    by (rule bufferUpload_small [OF sb l at])
  have args: "poolGetArguments smallHost exampleConfig exampleServerConfig smallRequest ?m =
                (Returns (''/var/www/app'', ''nobody'', ''production'', ''smart'', ''rails''), ?m)"
    unfolding smallRequest_def by (rule post_arguments [OF dr cp])
  note non_get = static_file_shortcut [where sconfig = exampleServerConfig and uploadData = None
      and up = "[]" and a = "''/var/www/app''" and u = "''nobody''" and env = "''production''"
      and sm = "''smart''" and ts = "''rails''" and m' = ?m,
      OF g4 f4, THEN conjunct2, THEN conjunct2, THEN conjunct2]
  note proceeds = non_get [THEN mp, OF conjI [OF e n]]
  from proceeds [THEN conjunct2, THEN conjunct1] mr
  have 4: "mapToStorage smallHost exampleConfig smallRequest = (Returns OK, smallRequest)"
    by simp
  from proceeds [THEN conjunct2, THEN conjunct2, THEN conjunct1] d s
  have 5: "handleRequest smallHost exampleConfig exampleServerConfig smallRequest
       = catchAll (forwardRequest smallHost exampleConfig exampleServerConfig smallRequest ?m [])"
    by simp
  have 6: "\<exists>post. snd (handleRequest smallHost exampleConfig exampleServerConfig smallRequest)
                = PoolGet ''/var/www/app'' True ''nobody'' ''production'' ''smart'' ''rails'' # post"
    using proceeds [THEN conjunct2, THEN conjunct2, THEN conjunct2, THEN mp,
        OF conjI [OF d conjI [OF s conjI [OF bu args]]]]
    by simp
  from a have a': "mapToStorage exampleHost exampleConfig ?get
     = (Returns DECLINED, postRequest\<lparr>method_number := M_GET, uri := ''/about'',
                            filename := Some ''/var/www/app/public/about.html'',
                            canonical_filename := Some ''/var/www/app/public/about.html''\<rparr>)"
    by simp
  from a' b c 4 5 6 show ?thesis by (intro conjI)
qed

end
